(* ===== verification/Pbft_Prelude.thy ===== *)
theory Pbft_Prelude
  imports Complex_Main "HOL-Library.Word" "HOL-Library.AList"
begin

text \<open>
  Shared vocabulary of the development: the machine integers of the C++ code, the
  association-list model of the standard containers and generic lemmas that the
  component theories share.

  \<^item> \<open>std::map\<close> iterates in key order, and the code depends on it (\<open>reqlog_.rbegin()\<close>, the
    order of the P set and of the V set), so it is a list of pairs sorted by key;
  \<^item> \<open>std::unordered_map\<close> iterates in an unspecified order; where the code iterates over
    one, it is an association list whose order is left open (every statement
    quantifies over the list);
  \<^item> a map that is only read and written by key is a HOL map;
  \<^item> \<open>std::set<uint32_t>\<close> is a HOL set over a finite type, so its \<open>size()\<close> is \<^const>\<open>card\<close>.
\<close>

section \<open>Collections\<close>

text \<open>Definitions that proofs about a part of the code unfold together.\<close>

named_theorems stable_defs \<open>the steps that make a checkpoint stable\<close>
named_theorems timer_defs \<open>the operations on the view-change timer\<close>
named_theorems viewchange_defs \<open>the handler of view-change messages\<close>
named_theorems request_defs \<open>the handler of requests and its sending helpers\<close>

section \<open>Machine integers\<close>

type_synonym u8 = "8 word"
type_synonym u32 = "32 word"
type_synonym u64 = "64 word"
type_synonym u256 = "256 word"

type_synonym byte = u8


lemma finite_u32_set [simp, intro]: "finite (A :: u32 set)"
  by (rule finite_subset [OF subset_UNIV]) simp

text \<open>Implicit conversions of the C++ code: zero extension, and truncation.\<close>

abbreviation zext :: "u32 \<Rightarrow> u64" where "zext x \<equiv> ucast x"
abbreviation trunc :: "u64 \<Rightarrow> u32" where "trunc x \<equiv> ucast x"

lemma unat_zext [simp]: "unat (zext x) = unat x"
proof -
  have "uint (zext x) = uint x" by (rule uint_up_ucast) (simp add: is_up)
  then show ?thesis by (simp only: unat_eq_nat_uint)
qed

lemma trunc_zext [simp]: "trunc (zext x) = x"
  by (rule ucast_up_ucast_id) (simp add: is_up)

lemma u64_succ_gt: "(x :: u64) < y \<Longrightarrow> x < x + 1"
  by unat_arith

lemma of_nat_inj_u64: "a < 2 ^ 64 \<Longrightarrow> b < 2 ^ 64 \<Longrightarrow> (of_nat a :: u64) = of_nat b \<Longrightarrow> a = b"
proof -
  assume a: "a < 2 ^ 64" and b: "b < 2 ^ 64" and eq: "(of_nat a :: u64) = of_nat b"
  from a have "unat (of_nat a :: u64) = a" by (simp add: unat_of_nat take_bit_nat_eq_self_iff)
  moreover from b have "unat (of_nat b :: u64) = b" by (simp add: unat_of_nat take_bit_nat_eq_self_iff)
  ultimately show "a = b" using eq by metis
qed

section \<open>Ordered maps\<close>

lemma strict_sorted_last:
  "x \<in> set xs \<Longrightarrow> sorted_wrt (<) xs \<Longrightarrow> x \<le> last xs" for x :: "'a::linorder"
  by (induction xs rule: rev_induct) (auto simp: sorted_wrt_append)

type_synonym ('k, 'v) std_map = "('k \<times> 'v) list"

definition std_wf :: "('k::linorder, 'v) std_map \<Rightarrow> bool" where
  "std_wf m \<longleftrightarrow> sorted_wrt (<) (map fst m)"

abbreviation std_find :: "('k, 'v) std_map \<Rightarrow> 'k \<Rightarrow> 'v option" where
  "std_find m k \<equiv> map_of m k"

text \<open>\<open>m[k] = v\<close>\<close>

fun std_set :: "'k::linorder \<Rightarrow> 'v \<Rightarrow> ('k, 'v) std_map \<Rightarrow> ('k, 'v) std_map" where
  "std_set k v [] = [(k, v)]"
| "std_set k v ((k', v') # m) =
     (if k < k' then (k, v) # (k', v') # m
      else if k = k' then (k, v) # m
      else (k', v') # std_set k v m)"

text \<open>\<open>auto &x = m[k]\<close>: the value is created from \<open>d\<close> when the key is missing.\<close>

definition std_ref :: "'v \<Rightarrow> ('k, 'v) std_map \<Rightarrow> 'k \<Rightarrow> 'v" where
  "std_ref d m k = (case std_find m k of None \<Rightarrow> d | Some v \<Rightarrow> v)"

definition std_touch :: "'v \<Rightarrow> 'k::linorder \<Rightarrow> ('k, 'v) std_map \<Rightarrow> ('k, 'v) std_map" where
  "std_touch d k m = std_set k (std_ref d m k) m"

text \<open>The erase loop \<open>if (P it->first) it = m.erase(it) else it++\<close>.\<close>

fun std_erase_if :: "('k \<Rightarrow> bool) \<Rightarrow> ('k, 'v) std_map \<Rightarrow> ('k, 'v) std_map" where
  "std_erase_if P [] = []"
| "std_erase_if P ((k, v) # m) =
     (if P k then std_erase_if P m else (k, v) # std_erase_if P m)"

subsection \<open>The laws of an ordered map\<close>

text \<open>
  What the node relies on from \<open>std::map\<close>: reading after a write, reading after an
  erasing loop, iteration in strictly increasing key order.
\<close>

locale ordered_map =
  fixes empty :: "'m"
    and lookup :: "'m \<Rightarrow> 'k::linorder \<Rightarrow> 'v option"
    and update :: "'k \<Rightarrow> 'v \<Rightarrow> 'm \<Rightarrow> 'm"
    and erase_if :: "('k \<Rightarrow> bool) \<Rightarrow> 'm \<Rightarrow> 'm"
    and entries :: "'m \<Rightarrow> ('k \<times> 'v) list"
    and wf :: "'m \<Rightarrow> bool"
  assumes lookup_empty: "lookup empty = Map.empty"
    and lookup_update: "lookup (update k v m) = (lookup m)(k \<mapsto> v)"
    and lookup_erase_if: "lookup (erase_if P m) = (lookup m) |` {k. \<not> P k}"
    and wf_empty: "wf empty"
    and wf_update: "wf m \<Longrightarrow> wf (update k v m)"
    and wf_erase_if: "wf m \<Longrightarrow> wf (erase_if P m)"
    and entries_sorted: "wf m \<Longrightarrow> sorted_wrt (<) (map fst (entries m))"
    and entries_lookup: "map_of (entries m) = lookup m"
begin

lemma entries_iff: "wf m \<Longrightarrow> (k, v) \<in> set (entries m) \<longleftrightarrow> lookup m k = Some v"
proof -
  assume "wf m"
  then have "sorted_wrt (<) (map fst (entries m))" by (rule entries_sorted)
  then have "distinct (map fst (entries m))"
    using strict_sorted_iff by blast
  then show ?thesis by (simp add: entries_lookup [symmetric])
qed

lemma keys_lookup: "fst ` set (entries m) = dom (lookup m)"
  by (simp add: entries_lookup [symmetric] dom_map_of_conv_image_fst)

lemma last_key_max:
  assumes "wf m" and "lookup m k = Some v"
  shows "k \<le> fst (last (entries m))"
proof -
  from assms have "k \<in> set (map fst (entries m))"
    by (force simp: entries_iff [symmetric])
  moreover from assms(1) have "sorted_wrt (<) (map fst (entries m))" by (rule entries_sorted)
  ultimately have "k \<le> last (map fst (entries m))"
    by (rule strict_sorted_last)
  moreover from assms(2) have "entries m \<noteq> []"
    by (metis entries_lookup map_of.simps(1) option.discI)
  ultimately show ?thesis by (simp add: last_map)
qed

lemma last_key_in:
  assumes "entries m \<noteq> []"
  shows "fst (last (entries m)) \<in> dom (lookup m)"
  using assms keys_lookup [of m] last_in_set by blast

lemma lookup_update_other: "k' \<noteq> k \<Longrightarrow> lookup (update k v m) k' = lookup m k'"
  by (simp add: lookup_update)

lemma erase_update: "P k \<Longrightarrow> lookup (erase_if P (update k v m)) = lookup (erase_if P m)"
  by (auto simp: lookup_erase_if lookup_update restrict_map_def)

end

lemma map_of_std_set [simp]: "map_of (std_set k v m) = (map_of m)(k \<mapsto> v)"
  by (induction k v m rule: std_set.induct) (auto simp: fun_eq_iff)

lemma keys_std_set: "set (map fst (std_set k v m)) = insert k (set (map fst m))"
  by (induction k v m rule: std_set.induct) auto

lemma std_wf_set [simp, intro]: "std_wf m \<Longrightarrow> std_wf (std_set k v m)"
  unfolding std_wf_def
proof (induction k v m rule: std_set.induct)
  case (2 k v k' v' m)
  have keys: "fst ` set (std_set k v m) = insert k (fst ` set m)"
    using keys_std_set [of k v m] by simp
  show ?case
  proof (cases "k < k'")
    case True
    with 2(2) show ?thesis by (auto intro: less_trans)
  next
    case False
    show ?thesis
    proof (cases "k = k'")
      case True
      with 2(2) show ?thesis by simp
    next
      case neq: False
      with False have "k' < k" by simp
      with 2 False neq keys show ?thesis by auto
    qed
  qed
qed simp

lemma map_of_std_erase_if [simp]: "map_of (std_erase_if P m) = (map_of m) |` {k. \<not> P k}"
  by (induction P m rule: std_erase_if.induct) (auto simp: restrict_map_def fun_eq_iff)

lemma set_std_erase_if: "set (std_erase_if P m) = {(k, v) \<in> set m. \<not> P k}"
  by (induction P m rule: std_erase_if.induct) auto

lemma std_wf_erase_if [simp, intro]: "std_wf m \<Longrightarrow> std_wf (std_erase_if P m)"
  unfolding std_wf_def
  by (induction P m rule: std_erase_if.induct) (auto simp: set_std_erase_if)

lemma std_wf_Nil [simp]: "std_wf []"
  by (simp add: std_wf_def)

interpretation std: ordered_map "[] :: ('k::linorder \<times> 'v) list" map_of std_set std_erase_if
  "\<lambda>m. m" std_wf
  by unfold_locales (auto simp: std_wf_def [symmetric])

lemma map_of_std_touch [simp]:
  "map_of (std_touch d k m) = (map_of m)(k \<mapsto> std_ref d m k)"
  by (simp add: std_touch_def)

lemma std_wf_touch [simp, intro]: "std_wf m \<Longrightarrow> std_wf (std_touch d k m)"
  by (simp add: std_touch_def)

lemma std_ref_Some [simp]: "map_of m k = Some v \<Longrightarrow> std_ref d m k = v"
  by (simp add: std_ref_def)

lemma std_ref_None [simp]: "map_of m k = None \<Longrightarrow> std_ref d m k = d"
  by (simp add: std_ref_def)

lemma std_ref_set [simp]: "std_ref d (std_set k v m) k' = (if k' = k then v else std_ref d m k')"
  by (simp add: std_ref_def)

lemma std_set_not_Nil [simp]: "std_set k v m \<noteq> []"
  by (cases "(k, v, m)" rule: std_set.cases) auto

lemma length_std_set_le: "length (std_set k v m) \<le> Suc (length m)"
  by (induction k v m rule: std_set.induct) auto

text \<open>A map whose keys all lie in a finite set has at most that many entries.\<close>

lemma length_std_wf: "std_wf m \<Longrightarrow> length m = card (dom (map_of m))"
proof -
  assume "std_wf m"
  then have "distinct (map fst m)"
    using strict_sorted_iff by (auto simp: std_wf_def)
  then have "card (set (map fst m)) = length m"
    using distinct_card by fastforce
  then show ?thesis by (simp add: dom_map_of_conv_image_fst)
qed

end
