(* ===== verification/Quorum.thy ===== *)
theory Quorum
  imports Pbft_Prelude
begin

text \<open>
  Quorums. The thresholds of \<open>src/node.cc\<close> are \<open>2 * f_ + 1\<close> with \<open>f_ = (n_ - 1) / 3\<close>. What the
  protocol needs of them is the locale: two quorums overlap in more members than can be faulty.
  With \<open>n_ = 3 f + 1\<close> replicas it holds; the code accepts every \<open>n_\<close>, and with \<open>n_ = 6\<close> it does
  not.
\<close>

locale quorum_system =
  fixes members :: "'r set" and quorum :: nat and f :: nat
  assumes finite_members: "finite members"
    and overlap: "card members + f < 2 * quorum"
begin

lemma common_members:
  assumes "Q \<subseteq> members" and "Q' \<subseteq> members" and "quorum \<le> card Q" and "quorum \<le> card Q'"
  shows "f < card (Q \<inter> Q')"
proof -
  have fin: "finite Q" "finite Q'"
    using assms(1,2) finite_members by (auto intro: finite_subset)
  then have "card Q + card Q' = card (Q \<union> Q') + card (Q \<inter> Q')" by (rule card_Un_Int)
  moreover have "card (Q \<union> Q') \<le> card members"
    using assms(1,2) finite_members by (simp add: card_mono)
  ultimately show ?thesis using assms(3,4) overlap by linarith
qed

lemma common_correct_member:
  assumes "Q \<subseteq> members" and "Q' \<subseteq> members" and "quorum \<le> card Q" and "quorum \<le> card Q'"
    and "F \<subseteq> members" and "card F \<le> f"
  obtains r where "r \<in> Q" and "r \<in> Q'" and "r \<notin> F"
proof -
  have "\<not> Q \<inter> Q' \<subseteq> F"
  proof
    assume "Q \<inter> Q' \<subseteq> F"
    moreover have "finite F" using assms(5) finite_members by (rule finite_subset)
    ultimately have "card (Q \<inter> Q') \<le> card F" by (simp add: card_mono)
    with common_members [OF assms(1-4)] assms(6) show False by linarith
  qed
  then show thesis using that by blast
qed

text \<open>At least one member of a quorum is correct, and \<open>f + 1\<close> matching votes contain one.\<close>

lemma correct_member:
  assumes "card F \<le> f" and "finite F" and "f < card Q"
  obtains r where "r \<in> Q" and "r \<notin> F"
proof -
  have "\<not> Q \<subseteq> F"
    using assms by (meson card_mono leD le_trans)
  then show thesis using that by blast
qed

end

text \<open>The replicas of a group with \<open>n_ = 3 f + 1\<close>: their ids are \<open>0, \<dots>, 3 f\<close>.\<close>

definition replicas :: "nat \<Rightarrow> u32 set" where
  "replicas f = {r. unat r < 3 * f + 1}"

lemma card_replicas: "card (replicas f) \<le> 3 * f + 1"
proof -
  have "card (replicas f) = card (unat ` replicas f)"
    by (rule card_image [symmetric]) (simp add: inj_on_def word_unat_eq_iff)
  also have "\<dots> \<le> card {..< 3 * f + 1}"
    by (rule card_mono) (auto simp: replicas_def)
  finally show ?thesis by simp
qed

interpretation pbft: quorum_system "replicas f" "2 * f + 1" f for f :: nat
  using card_replicas [of f] by unfold_locales simp_all

section \<open>The thresholds in the code's arithmetic\<close>

lemma tolerated_faults:
  assumes "3 * f + 1 < 2 ^ 32"
  shows "((of_nat (3 * f + 1) :: u32) - 1) div 3 = of_nat f"
proof -
  have "(of_nat (3 * f + 1) :: u32) - 1 = of_nat (3 * f)" by simp
  moreover have "unat (of_nat (3 * f) :: u32) = 3 * f" "unat (of_nat f :: u32) = f"
    using assms by (simp_all add: unat_of_nat del: of_nat_mult)
  ultimately show ?thesis
    by (simp only: word_unat_eq_iff unat_div) simp
qed

lemma quorum_threshold:
  assumes "3 * f + 1 < 2 ^ 32"
  shows "unat (2 * (of_nat f :: u32) + 1) = 2 * f + 1"
proof -
  have "2 * (of_nat f :: u32) + 1 = of_nat (2 * f + 1)" by simp
  moreover have "unat (of_nat (2 * f + 1) :: u32) = 2 * f + 1"
    using assms by (simp add: unat_of_nat del: of_nat_add of_nat_mult of_nat_Suc)
  ultimately show ?thesis by (simp only:)
qed

end
