(* ===== verification/Serialization.thy ===== *)
theory Serialization
  imports Pbft_Prelude "HOL-Library.Monad_Syntax"
begin

text \<open>
  The stream operators of \<open>include/pbft/serialization.hh\<close> over salticidae's \<open>DataStream\<close>.

  \<open>DataStream\<close> itself is a library class: its operators for integers, digests and raw
  strings, \<open>get_data_inplace\<close> and the byte-order conversions \<open>htole\<close> and \<open>letoh\<close> are the
  fields of the record \<open>data_stream\<close>, an argument of every definition that reads or writes a
  stream. A read returns \<^const>\<open>None\<close> when the stream cannot supply the value. What the
  code relies on is the locale \<open>stream_laws\<close>: a value written is the value read back.
\<close>

section \<open>The library stream\<close>

record data_stream =
  put_u32 :: "u32 \<Rightarrow> byte list"
  get_u32 :: "byte list \<Rightarrow> (u32 \<times> byte list) option"
  put_u64 :: "u64 \<Rightarrow> byte list"
  get_u64 :: "byte list \<Rightarrow> (u64 \<times> byte list) option"
  put_u256 :: "u256 \<Rightarrow> byte list"
  get_u256 :: "byte list \<Rightarrow> (u256 \<times> byte list) option"
  put_str :: "string \<Rightarrow> byte list"
  get_data_inplace :: "nat \<Rightarrow> byte list \<Rightarrow> (byte list \<times> byte list) option"
  htole :: "u32 \<Rightarrow> u32"
  letoh :: "u32 \<Rightarrow> u32"

text \<open>The casts between \<open>uint8_t\<close> and \<open>char\<close>.\<close>

definition byte_of_char :: "char \<Rightarrow> byte" where
  "byte_of_char c = of_nat (of_char c)"

definition char_of_byte :: "byte \<Rightarrow> char" where
  "char_of_byte b = char_of (unat b)"

lemma char_of_byte_of_char [simp]: "char_of_byte (byte_of_char c) = c"
proof -
  have "of_char c mod 256 = (of_char c :: nat)" by simp
  then show ?thesis
    by (simp add: char_of_byte_def byte_of_char_def unat_of_nat take_bit_eq_mod)
qed

section \<open>Stream operators of the code\<close>

type_synonym 'a reader = "byte list \<Rightarrow> ('a \<times> byte list) option"

text \<open>\<open>operator>>(DataStream &, std::string &)\<close>\<close>

definition get_string :: "data_stream \<Rightarrow> string reader" where
  "get_string D bs = do {
     (len, bs) \<leftarrow> get_u32 D bs;
     (ptr, bs) \<leftarrow> get_data_inplace D (unat (letoh D len)) bs;
     Some (map char_of_byte ptr, bs)
   }"

text \<open>The counted loop of the vector and set readers.\<close>

fun get_n :: "'a reader \<Rightarrow> nat \<Rightarrow> 'a list reader" where
  "get_n get 0 bs = Some ([], bs)"
| "get_n get (Suc n) bs = do {
     (x, bs) \<leftarrow> get bs;
     (xs, bs) \<leftarrow> get_n get n bs;
     Some (x # xs, bs)
   }"

text \<open>\<open>operator<<(DataStream &, const std::vector<T> &)\<close>: the size goes through \<open>letoh\<close>.\<close>

definition put_vector :: "data_stream \<Rightarrow> ('a \<Rightarrow> byte list) \<Rightarrow> 'a list \<Rightarrow> byte list" where
  "put_vector D put v = put_u32 D (letoh D (of_nat (length v))) @ concat (map put v)"

text \<open>\<open>operator>>(DataStream &, std::vector<T> &)\<close>: the size is used as read.\<close>

definition get_vector :: "data_stream \<Rightarrow> 'a reader \<Rightarrow> 'a list reader" where
  "get_vector D get bs = do {
     (size, bs) \<leftarrow> get_u32 D bs;
     get_n get (unat size) bs
   }"

text \<open>The same two operators for \<open>std::set<T>\<close>, which iterates in increasing order.\<close>

definition put_set :: "data_stream \<Rightarrow> ('a::linorder \<Rightarrow> byte list) \<Rightarrow> 'a set \<Rightarrow> byte list" where
  "put_set D put A =
     put_u32 D (letoh D (of_nat (card A))) @ concat (map put (sorted_list_of_set A))"

definition get_set :: "data_stream \<Rightarrow> 'a reader \<Rightarrow> 'a set reader" where
  "get_set D get bs = do {
     (size, bs) \<leftarrow> get_u32 D bs;
     (xs, bs) \<leftarrow> get_n get (unat size) bs;
     Some (set xs, bs)
   }"

section \<open>Codecs\<close>

text \<open>
  The contract shared by every pair of a writer and a reader: what \<open>put\<close> wrote in front of
  any rest, \<open>get\<close> reads back, leaving the rest. The value read is \<open>strip x\<close>: a message that
  comes from a stream has an empty \<open>serialized\<close> member. \<open>ok\<close> bounds the lengths that the
  format writes in 32 bits.
\<close>

locale codec =
  fixes ok :: "'a \<Rightarrow> bool"
    and strip :: "'a \<Rightarrow> 'a"
    and put :: "'a \<Rightarrow> byte list"
    and get :: "'a reader"
  assumes roundtrip: "ok x \<Longrightarrow> get (put x @ r) = Some (strip x, r)"
begin

lemma unambiguous:
  assumes "ok x" and "ok y" and "put x @ r = put y @ r'"
  shows "strip x = strip y \<and> r = r'"
  using assms roundtrip [of x r] roundtrip [of y r'] by simp

lemma injective: "ok x \<Longrightarrow> ok y \<Longrightarrow> put x = put y \<Longrightarrow> strip x = strip y"
  using unambiguous [of x y "[]" "[]"] by simp

lemma sequence:
  "(\<And>x. x \<in> set xs \<Longrightarrow> ok x) \<Longrightarrow>
     get_n get (length xs) (concat (map put xs) @ r) = Some (map strip xs, r)"
  by (induction xs) (simp_all add: roundtrip)

end

text \<open>What the code relies on from \<open>DataStream\<close>.\<close>

locale stream_laws =
  fixes D :: data_stream
  assumes u32: "get_u32 D (put_u32 D x @ r) = Some (x, r)"
    and u64: "get_u64 D (put_u64 D y @ r) = Some (y, r)"
    and u256: "get_u256 D (put_u256 D z @ r) = Some (z, r)"
    and raw_string: "put_str D s = map byte_of_char s"
    and inplace: "get_data_inplace D (length p) (p @ r) = Some (p, r)"
    and letoh_htole: "letoh D (htole D x) = x"
begin

lemma string_roundtrip:
  assumes "length s < 2 ^ 32"
  shows "get_string D (put_u32 D (htole D (of_nat (length s))) @ put_str D s @ r) = Some (s, r)"
proof -
  have len: "unat (of_nat (length s) :: u32) = length (map byte_of_char s)"
    using assms by (simp add: unat_of_nat take_bit_nat_eq_self_iff)
  show ?thesis
    unfolding get_string_def
    by (simp add: u32 letoh_htole raw_string len inplace [of "map byte_of_char s"]
        del: length_map)
      (simp add: comp_def)
qed

end

text \<open>On a little-endian host \<open>letoh\<close> is the identity, and sizes survive the vector operators.\<close>

locale little_endian = stream_laws +
  assumes letoh_id: "letoh D x = x"
begin

lemma vector_codec:
  assumes "codec ok strip put get"
  shows "codec (\<lambda>v. length v < 2 ^ 32 \<and> (\<forall>x \<in> set v. ok x)) (map strip)
           (put_vector D put) (get_vector D get)"
proof unfold_locales
  fix v r
  assume v: "length v < 2 ^ 32 \<and> (\<forall>x \<in> set v. ok x)"
  then have "unat (of_nat (length v) :: u32) = length v"
    by (simp add: unat_of_nat take_bit_nat_eq_self_iff)
  then show "get_vector D get (put_vector D put v @ r) = Some (map strip v, r)"
    using v codec.sequence [OF assms, of v r]
    by (simp add: get_vector_def put_vector_def letoh_id u32)
qed

lemma set_roundtrip:
  assumes "codec ok strip put get" and "\<And>x. ok x" and "\<And>x. strip x = x"
    and "finite A" and "card A < 2 ^ 32"
  shows "get_set D get (put_set D put A @ r) = Some (A, r)"
proof -
  have "unat (of_nat (card A) :: u32) = card A"
    using assms(5) by (simp add: unat_of_nat take_bit_nat_eq_self_iff)
  then show ?thesis
    using codec.sequence [OF assms(1), of "sorted_list_of_set A" r] assms(2-4)
    by (simp add: get_set_def put_set_def letoh_id u32 map_idI)
qed

end

section \<open>A concrete stream\<close>

text \<open>
  Integers as fixed-width byte strings, least significant byte first: an instance that
  satisfies the laws, used to evaluate concrete messages.
\<close>

fun le_bytes :: "nat \<Rightarrow> nat \<Rightarrow> byte list" where
  "le_bytes 0 n = []"
| "le_bytes (Suc w) n = of_nat n # le_bytes w (n div 256)"

fun le_value :: "byte list \<Rightarrow> nat" where
  "le_value [] = 0"
| "le_value (b # bs) = unat b + 256 * le_value bs"

definition split_at :: "nat \<Rightarrow> 'a list \<Rightarrow> ('a list \<times> 'a list) option" where
  "split_at n xs = (if n \<le> length xs then Some (take n xs, drop n xs) else None)"

definition le_get :: "nat \<Rightarrow> (nat \<Rightarrow> 'a) \<Rightarrow> 'a reader" where
  "le_get w f bs = map_option (\<lambda>(p, r). (f (le_value p), r)) (split_at w bs)"

definition le_stream :: "(u32 \<Rightarrow> u32) \<Rightarrow> data_stream" where
  "le_stream conv = \<lparr>
     put_u32 = (\<lambda>x. le_bytes 4 (unat x)), get_u32 = le_get 4 of_nat,
     put_u64 = (\<lambda>x. le_bytes 8 (unat x)), get_u64 = le_get 8 of_nat,
     put_u256 = (\<lambda>x. le_bytes 32 (unat x)), get_u256 = le_get 32 of_nat,
     put_str = map byte_of_char, get_data_inplace = split_at,
     htole = conv, letoh = conv\<rparr>"

lemma length_le_bytes [simp]: "length (le_bytes w n) = w"
  by (induction w arbitrary: n) auto

lemma le_value_bytes: "n < 256 ^ w \<Longrightarrow> le_value (le_bytes w n) = n"
proof (induction w arbitrary: n)
  case (Suc w)
  then have "n div 256 < 256 ^ w" by (simp add: less_mult_imp_div_less mult.commute)
  then have "le_value (le_bytes w (n div 256)) = n div 256" by (rule Suc.IH)
  then show ?case by (simp add: unat_of_nat take_bit_eq_mod)
qed simp

lemma split_at_append [simp]: "length p = n \<Longrightarrow> split_at n (p @ r) = Some (p, r)"
  by (auto simp: split_at_def)

lemma le_get_bytes: "n < 256 ^ w \<Longrightarrow> le_get w f (le_bytes w n @ r) = Some (f n, r)"
  by (simp add: le_get_def le_value_bytes)

lemma unat_less_bytes:
  "unat (x :: u32) < 256 ^ 4" "unat (y :: u64) < 256 ^ 8" "unat (z :: u256) < 256 ^ 32"
  using unsigned_less [of x, where 'a = nat] unsigned_less [of y, where 'a = nat]
    unsigned_less [of z, where 'a = nat] by simp_all

lemma le_stream_laws: "(\<And>x. conv (conv x) = x) \<Longrightarrow> stream_laws (le_stream conv)"
  by unfold_locales (simp_all add: le_stream_def unat_less_bytes [THEN le_get_bytes])

interpretation le: little_endian "le_stream id"
  by (intro little_endian.intro le_stream_laws little_endian_axioms.intro)
    (simp_all add: le_stream_def)

text \<open>A stream that writes nothing, for runs in which the bytes do not matter.\<close>

definition mute_stream :: data_stream where
  "mute_stream = \<lparr>put_u32 = (\<lambda>_. []), get_u32 = (\<lambda>_. None), put_u64 = (\<lambda>_. []),
     get_u64 = (\<lambda>_. None), put_u256 = (\<lambda>_. []), get_u256 = (\<lambda>_. None), put_str = (\<lambda>_. []),
     get_data_inplace = (\<lambda>_ _. None), htole = id, letoh = id\<rparr>"

end
