(* ===== verification/Messages.thy ===== *)
theory Messages
  imports Serialization
begin

text \<open>
  The protocol messages of \<open>include/pbft/messages.hh\<close>. Each message is a record with the
  members of the C++ struct, its \<open>serialized\<close> stream included. \<open>X_ctor\<close> is the constructor
  from values, which fills \<open>serialized\<close> (what \<open>net_->send_msg\<close> puts on the wire);
  \<open>serialize_X\<close> is the method \<open>serialize\<close>; \<open>unserialize_X\<close> is the constructor from a stream,
  which leaves \<open>serialized\<close> empty. The main result is that a message that was built by its
  constructor is read back, member by member, from the bytes it sends.
\<close>

section \<open>Message types\<close>

datatype MsgType = REQUEST | REPLY | PRE_PREPARE | PREPARE | COMMIT | CHECKPOINT
  | VIEW_CHANGE | NEW_VIEW | HANDSHAKE

fun opcode_of :: "MsgType \<Rightarrow> u8" where
  "opcode_of REQUEST = 0"
| "opcode_of REPLY = 1"
| "opcode_of PRE_PREPARE = 2"
| "opcode_of PREPARE = 3"
| "opcode_of COMMIT = 4"
| "opcode_of CHECKPOINT = 5"
| "opcode_of VIEW_CHANGE = 6"
| "opcode_of NEW_VIEW = 7"
| "opcode_of HANDSHAKE = 8"

lemma opcode_of_inject: "opcode_of a = opcode_of b \<longleftrightarrow> a = b"
  by (cases a; cases b) simp_all

section \<open>Requests and replies\<close>

record RequestMsg =
  rq_serialized :: "byte list"
  rq_operation :: string
  rq_timestamp :: u64
  rq_client_id :: u32

definition serialize_RequestMsg :: "data_stream \<Rightarrow> RequestMsg \<Rightarrow> byte list" where
  "serialize_RequestMsg D m =
     put_u32 D (htole D (of_nat (length (rq_operation m)))) @ put_str D (rq_operation m) @
     put_u64 D (rq_timestamp m) @ put_u32 D (rq_client_id m)"

definition RequestMsg_ctor :: "data_stream \<Rightarrow> string \<Rightarrow> u64 \<Rightarrow> u32 \<Rightarrow> RequestMsg" where
  "RequestMsg_ctor D op ts cid =
     (let m = \<lparr>rq_serialized = [], rq_operation = op, rq_timestamp = ts, rq_client_id = cid\<rparr>
      in m\<lparr>rq_serialized := serialize_RequestMsg D m\<rparr>)"

definition unserialize_RequestMsg :: "data_stream \<Rightarrow> RequestMsg reader" where
  "unserialize_RequestMsg D s = do {
     (op, s) \<leftarrow> get_string D s;
     (ts, s) \<leftarrow> get_u64 D s;
     (cid, s) \<leftarrow> get_u32 D s;
     Some (\<lparr>rq_serialized = [], rq_operation = op, rq_timestamp = ts, rq_client_id = cid\<rparr>, s)
   }"

record ReplyMsg =
  rp_serialized :: "byte list"
  rp_view :: u32
  rp_timestamp :: u64
  rp_client_id :: u32
  rp_replica_id :: u32
  rp_result :: string

definition serialize_ReplyMsg :: "data_stream \<Rightarrow> ReplyMsg \<Rightarrow> byte list" where
  "serialize_ReplyMsg D m =
     put_u32 D (rp_view m) @ put_u64 D (rp_timestamp m) @ put_u32 D (rp_client_id m) @
     put_u32 D (rp_replica_id m) @
     put_u32 D (htole D (of_nat (length (rp_result m)))) @ put_str D (rp_result m)"

definition ReplyMsg_ctor ::
  "data_stream \<Rightarrow> u32 \<Rightarrow> u64 \<Rightarrow> u32 \<Rightarrow> u32 \<Rightarrow> string \<Rightarrow> ReplyMsg" where
  "ReplyMsg_ctor D v ts cid rid res =
     (let m = \<lparr>rp_serialized = [], rp_view = v, rp_timestamp = ts, rp_client_id = cid,
               rp_replica_id = rid, rp_result = res\<rparr>
      in m\<lparr>rp_serialized := serialize_ReplyMsg D m\<rparr>)"

definition unserialize_ReplyMsg :: "data_stream \<Rightarrow> ReplyMsg reader" where
  "unserialize_ReplyMsg D s = do {
     (v, s) \<leftarrow> get_u32 D s;
     (ts, s) \<leftarrow> get_u64 D s;
     (cid, s) \<leftarrow> get_u32 D s;
     (rid, s) \<leftarrow> get_u32 D s;
     (res, s) \<leftarrow> get_string D s;
     Some (\<lparr>rp_serialized = [], rp_view = v, rp_timestamp = ts, rp_client_id = cid,
            rp_replica_id = rid, rp_result = res\<rparr>, s)
   }"

section \<open>The three phases\<close>

record PrePrepareMsg =
  pp_serialized :: "byte list"
  pp_view :: u32
  pp_seq_num :: u64
  pp_req_digest :: u256
  pp_req :: RequestMsg

definition serialize_PrePrepareMsg :: "data_stream \<Rightarrow> PrePrepareMsg \<Rightarrow> byte list" where
  "serialize_PrePrepareMsg D m =
     put_u32 D (pp_view m) @ put_u64 D (pp_seq_num m) @ put_u256 D (pp_req_digest m) @
     serialize_RequestMsg D (pp_req m)"

definition PrePrepareMsg_ctor ::
  "data_stream \<Rightarrow> u32 \<Rightarrow> u64 \<Rightarrow> u256 \<Rightarrow> RequestMsg \<Rightarrow> PrePrepareMsg" where
  "PrePrepareMsg_ctor D v n rd rqm =
     (let m = \<lparr>pp_serialized = [], pp_view = v, pp_seq_num = n, pp_req_digest = rd, pp_req = rqm\<rparr>
      in m\<lparr>pp_serialized := serialize_PrePrepareMsg D m\<rparr>)"

definition unserialize_PrePrepareMsg :: "data_stream \<Rightarrow> PrePrepareMsg reader" where
  "unserialize_PrePrepareMsg D s = do {
     (v, s) \<leftarrow> get_u32 D s;
     (n, s) \<leftarrow> get_u64 D s;
     (rd, s) \<leftarrow> get_u256 D s;
     (rqm, s) \<leftarrow> unserialize_RequestMsg D s;
     Some (\<lparr>pp_serialized = [], pp_view = v, pp_seq_num = n, pp_req_digest = rd,
            pp_req = rqm\<rparr>, s)
   }"

record PrepareMsg =
  pr_serialized :: "byte list"
  pr_view :: u32
  pr_seq_num :: u64
  pr_req_digest :: u256
  pr_replica_id :: u32

definition serialize_PrepareMsg :: "data_stream \<Rightarrow> PrepareMsg \<Rightarrow> byte list" where
  "serialize_PrepareMsg D m =
     put_u32 D (pr_view m) @ put_u64 D (pr_seq_num m) @ put_u256 D (pr_req_digest m) @
     put_u32 D (pr_replica_id m)"

definition PrepareMsg_ctor :: "data_stream \<Rightarrow> u32 \<Rightarrow> u64 \<Rightarrow> u256 \<Rightarrow> u32 \<Rightarrow> PrepareMsg" where
  "PrepareMsg_ctor D v n d rid =
     (let m = \<lparr>pr_serialized = [], pr_view = v, pr_seq_num = n, pr_req_digest = d,
               pr_replica_id = rid\<rparr>
      in m\<lparr>pr_serialized := serialize_PrepareMsg D m\<rparr>)"

definition unserialize_PrepareMsg :: "data_stream \<Rightarrow> PrepareMsg reader" where
  "unserialize_PrepareMsg D s = do {
     (v, s) \<leftarrow> get_u32 D s;
     (n, s) \<leftarrow> get_u64 D s;
     (d, s) \<leftarrow> get_u256 D s;
     (rid, s) \<leftarrow> get_u32 D s;
     Some (\<lparr>pr_serialized = [], pr_view = v, pr_seq_num = n, pr_req_digest = d,
            pr_replica_id = rid\<rparr>, s)
   }"

record CommitMsg =
  cm_serialized :: "byte list"
  cm_view :: u32
  cm_seq_num :: u64
  cm_req_digest :: u256
  cm_replica_id :: u32

definition serialize_CommitMsg :: "data_stream \<Rightarrow> CommitMsg \<Rightarrow> byte list" where
  "serialize_CommitMsg D m =
     put_u32 D (cm_view m) @ put_u64 D (cm_seq_num m) @ put_u256 D (cm_req_digest m) @
     put_u32 D (cm_replica_id m)"

definition CommitMsg_ctor :: "data_stream \<Rightarrow> u32 \<Rightarrow> u64 \<Rightarrow> u256 \<Rightarrow> u32 \<Rightarrow> CommitMsg" where
  "CommitMsg_ctor D v n rd rid =
     (let m = \<lparr>cm_serialized = [], cm_view = v, cm_seq_num = n, cm_req_digest = rd,
               cm_replica_id = rid\<rparr>
      in m\<lparr>cm_serialized := serialize_CommitMsg D m\<rparr>)"

definition unserialize_CommitMsg :: "data_stream \<Rightarrow> CommitMsg reader" where
  "unserialize_CommitMsg D s = do {
     (v, s) \<leftarrow> get_u32 D s;
     (n, s) \<leftarrow> get_u64 D s;
     (rd, s) \<leftarrow> get_u256 D s;
     (rid, s) \<leftarrow> get_u32 D s;
     Some (\<lparr>cm_serialized = [], cm_view = v, cm_seq_num = n, cm_req_digest = rd,
            cm_replica_id = rid\<rparr>, s)
   }"

section \<open>Checkpoints and view changes\<close>

record CheckpointMsg =
  ck_serialized :: "byte list"
  ck_seq_num :: u64
  ck_state_digest :: u256
  ck_replica_id :: u32

definition serialize_CheckpointMsg :: "data_stream \<Rightarrow> CheckpointMsg \<Rightarrow> byte list" where
  "serialize_CheckpointMsg D m =
     put_u64 D (ck_seq_num m) @ put_u256 D (ck_state_digest m) @ put_u32 D (ck_replica_id m)"

definition CheckpointMsg_ctor :: "data_stream \<Rightarrow> u64 \<Rightarrow> u256 \<Rightarrow> u32 \<Rightarrow> CheckpointMsg" where
  "CheckpointMsg_ctor D n sd rid =
     (let m = \<lparr>ck_serialized = [], ck_seq_num = n, ck_state_digest = sd, ck_replica_id = rid\<rparr>
      in m\<lparr>ck_serialized := serialize_CheckpointMsg D m\<rparr>)"

definition unserialize_CheckpointMsg :: "data_stream \<Rightarrow> CheckpointMsg reader" where
  "unserialize_CheckpointMsg D s = do {
     (n, s) \<leftarrow> get_u64 D s;
     (sd, s) \<leftarrow> get_u256 D s;
     (rid, s) \<leftarrow> get_u32 D s;
     Some (\<lparr>ck_serialized = [], ck_seq_num = n, ck_state_digest = sd, ck_replica_id = rid\<rparr>, s)
   }"

text \<open>\<open>prepared_replicas\<close> is a member of the struct that neither operator transfers.\<close>

record PrepareProof =
  pf_view :: u32
  pf_seq_num :: u64
  pf_digest :: u256
  pf_prepared_replicas :: "u32 set"

definition PrepareProof_ctor :: "u32 \<Rightarrow> u64 \<Rightarrow> u256 \<Rightarrow> PrepareProof" where
  "PrepareProof_ctor v n d =
     \<lparr>pf_view = v, pf_seq_num = n, pf_digest = d, pf_prepared_replicas = {}\<rparr>"

definition serialize_PrepareProof :: "data_stream \<Rightarrow> PrepareProof \<Rightarrow> byte list" where
  "serialize_PrepareProof D p =
     put_u32 D (pf_view p) @ put_u64 D (pf_seq_num p) @ put_u256 D (pf_digest p)"

definition unserialize_PrepareProof :: "data_stream \<Rightarrow> PrepareProof reader" where
  "unserialize_PrepareProof D s = do {
     (v, s) \<leftarrow> get_u32 D s;
     (n, s) \<leftarrow> get_u64 D s;
     (d, s) \<leftarrow> get_u256 D s;
     Some (PrepareProof_ctor v n d, s)
   }"

record ViewChangeMsg =
  vc_serialized :: "byte list"
  vc_next_view :: u64
  vc_last_stable_checkpoint :: u64
  vc_replica_id :: u32
  vc_checkpoint_proof :: "CheckpointMsg list"
  vc_prepared_proofs :: "PrepareProof list"

definition serialize_ViewChangeMsg :: "data_stream \<Rightarrow> ViewChangeMsg \<Rightarrow> byte list" where
  "serialize_ViewChangeMsg D m =
     put_u64 D (vc_next_view m) @ put_u64 D (vc_last_stable_checkpoint m) @
     put_u32 D (vc_replica_id m) @
     put_vector D (serialize_CheckpointMsg D) (vc_checkpoint_proof m) @
     put_vector D (serialize_PrepareProof D) (vc_prepared_proofs m)"

definition ViewChangeMsg_ctor ::
  "data_stream \<Rightarrow> u32 \<Rightarrow> u64 \<Rightarrow> u32 \<Rightarrow> CheckpointMsg list \<Rightarrow> PrepareProof list \<Rightarrow> ViewChangeMsg"
where
  "ViewChangeMsg_ctor D nv lsc rid C P =
     (let m = \<lparr>vc_serialized = [], vc_next_view = zext nv, vc_last_stable_checkpoint = lsc,
               vc_replica_id = rid, vc_checkpoint_proof = C, vc_prepared_proofs = P\<rparr>
      in m\<lparr>vc_serialized := serialize_ViewChangeMsg D m\<rparr>)"

definition unserialize_ViewChangeMsg :: "data_stream \<Rightarrow> ViewChangeMsg reader" where
  "unserialize_ViewChangeMsg D s = do {
     (nv, s) \<leftarrow> get_u64 D s;
     (lsc, s) \<leftarrow> get_u64 D s;
     (rid, s) \<leftarrow> get_u32 D s;
     (C, s) \<leftarrow> get_vector D (unserialize_CheckpointMsg D) s;
     (P, s) \<leftarrow> get_vector D (unserialize_PrepareProof D) s;
     Some (\<lparr>vc_serialized = [], vc_next_view = nv, vc_last_stable_checkpoint = lsc,
            vc_replica_id = rid, vc_checkpoint_proof = C, vc_prepared_proofs = P\<rparr>, s)
   }"

record NewViewMsg =
  nv_serialized :: "byte list"
  nv_next_view :: u64
  nv_view_changes :: "ViewChangeMsg list"
  nv_pre_prepares :: "PrePrepareMsg list"

text \<open>Here the sizes are written and read as they are, without \<open>letoh\<close>.\<close>

definition serialize_NewViewMsg :: "data_stream \<Rightarrow> NewViewMsg \<Rightarrow> byte list" where
  "serialize_NewViewMsg D m =
     put_u64 D (nv_next_view m) @
     put_u32 D (of_nat (length (nv_view_changes m))) @
     concat (map (serialize_ViewChangeMsg D) (nv_view_changes m)) @
     put_u32 D (of_nat (length (nv_pre_prepares m))) @
     concat (map (serialize_PrePrepareMsg D) (nv_pre_prepares m))"

definition NewViewMsg_ctor ::
  "data_stream \<Rightarrow> u32 \<Rightarrow> ViewChangeMsg list \<Rightarrow> PrePrepareMsg list \<Rightarrow> NewViewMsg" where
  "NewViewMsg_ctor D nv V O' =
     (let m = \<lparr>nv_serialized = [], nv_next_view = zext nv, nv_view_changes = V,
               nv_pre_prepares = O'\<rparr>
      in m\<lparr>nv_serialized := serialize_NewViewMsg D m\<rparr>)"

definition unserialize_NewViewMsg :: "data_stream \<Rightarrow> NewViewMsg reader" where
  "unserialize_NewViewMsg D s = do {
     (nv, s) \<leftarrow> get_u64 D s;
     (count, s) \<leftarrow> get_u32 D s;
     (V, s) \<leftarrow> get_n (unserialize_ViewChangeMsg D) (unat count) s;
     (count, s) \<leftarrow> get_u32 D s;
     (O', s) \<leftarrow> get_n (unserialize_PrePrepareMsg D) (unat count) s;
     Some (\<lparr>nv_serialized = [], nv_next_view = nv, nv_view_changes = V,
            nv_pre_prepares = O'\<rparr>, s)
   }"

record HandshakeMsg =
  hs_serialized :: "byte list"
  hs_id :: u32

definition serialize_HandshakeMsg :: "data_stream \<Rightarrow> HandshakeMsg \<Rightarrow> byte list" where
  "serialize_HandshakeMsg D m = put_u32 D (hs_id m)"

definition HandshakeMsg_ctor :: "data_stream \<Rightarrow> u32 \<Rightarrow> HandshakeMsg" where
  "HandshakeMsg_ctor D i =
     (let m = \<lparr>hs_serialized = [], hs_id = i\<rparr>
      in m\<lparr>hs_serialized := serialize_HandshakeMsg D m\<rparr>)"

definition unserialize_HandshakeMsg :: "data_stream \<Rightarrow> HandshakeMsg reader" where
  "unserialize_HandshakeMsg D s = do {
     (i, s) \<leftarrow> get_u32 D s;
     Some (\<lparr>hs_serialized = [], hs_id = i\<rparr>, s)
   }"

lemmas serialize_defs =
  serialize_RequestMsg_def serialize_ReplyMsg_def serialize_PrePrepareMsg_def
  serialize_PrepareMsg_def serialize_CommitMsg_def serialize_CheckpointMsg_def
  serialize_PrepareProof_def serialize_ViewChangeMsg_def serialize_NewViewMsg_def
  serialize_HandshakeMsg_def

lemmas unserialize_defs =
  unserialize_RequestMsg_def unserialize_ReplyMsg_def unserialize_PrePrepareMsg_def
  unserialize_PrepareMsg_def unserialize_CommitMsg_def unserialize_CheckpointMsg_def
  unserialize_PrepareProof_def unserialize_ViewChangeMsg_def unserialize_NewViewMsg_def
  unserialize_HandshakeMsg_def

lemmas ctor_defs =
  RequestMsg_ctor_def ReplyMsg_ctor_def PrePrepareMsg_ctor_def PrepareMsg_ctor_def
  CommitMsg_ctor_def CheckpointMsg_ctor_def PrepareProof_ctor_def ViewChangeMsg_ctor_def
  NewViewMsg_ctor_def HandshakeMsg_ctor_def

section \<open>Construction from a stream\<close>

text \<open>
  The constructors \<open>T(DataStream &&s)\<close>, with which the network builds a received message; they read the
  same members as \<open>unserialize\<close> and leave the rest of the stream unread.
\<close>

definition RequestMsg_of_stream :: "data_stream \<Rightarrow> byte list \<Rightarrow> RequestMsg option" where
  "RequestMsg_of_stream D s = map_option fst (unserialize_RequestMsg D s)"

definition ReplyMsg_of_stream :: "data_stream \<Rightarrow> byte list \<Rightarrow> ReplyMsg option" where
  "ReplyMsg_of_stream D s = map_option fst (unserialize_ReplyMsg D s)"

definition PrePrepareMsg_of_stream :: "data_stream \<Rightarrow> byte list \<Rightarrow> PrePrepareMsg option" where
  "PrePrepareMsg_of_stream D s = map_option fst (unserialize_PrePrepareMsg D s)"

definition PrepareMsg_of_stream :: "data_stream \<Rightarrow> byte list \<Rightarrow> PrepareMsg option" where
  "PrepareMsg_of_stream D s = map_option fst (unserialize_PrepareMsg D s)"

definition CommitMsg_of_stream :: "data_stream \<Rightarrow> byte list \<Rightarrow> CommitMsg option" where
  "CommitMsg_of_stream D s = map_option fst (unserialize_CommitMsg D s)"

definition CheckpointMsg_of_stream :: "data_stream \<Rightarrow> byte list \<Rightarrow> CheckpointMsg option" where
  "CheckpointMsg_of_stream D s = map_option fst (unserialize_CheckpointMsg D s)"

definition ViewChangeMsg_of_stream :: "data_stream \<Rightarrow> byte list \<Rightarrow> ViewChangeMsg option" where
  "ViewChangeMsg_of_stream D s = map_option fst (unserialize_ViewChangeMsg D s)"

definition NewViewMsg_of_stream :: "data_stream \<Rightarrow> byte list \<Rightarrow> NewViewMsg option" where
  "NewViewMsg_of_stream D s = map_option fst (unserialize_NewViewMsg D s)"

definition HandshakeMsg_of_stream :: "data_stream \<Rightarrow> byte list \<Rightarrow> HandshakeMsg option" where
  "HandshakeMsg_of_stream D s = map_option fst (unserialize_HandshakeMsg D s)"

lemmas of_stream_defs =
  RequestMsg_of_stream_def ReplyMsg_of_stream_def PrePrepareMsg_of_stream_def
  PrepareMsg_of_stream_def CommitMsg_of_stream_def CheckpointMsg_of_stream_def
  ViewChangeMsg_of_stream_def NewViewMsg_of_stream_def HandshakeMsg_of_stream_def

section \<open>Members of constructed messages\<close>

lemma RequestMsg_ctor_sel [simp]:
  "rq_operation (RequestMsg_ctor D op ts cid) = op"
  "rq_timestamp (RequestMsg_ctor D op ts cid) = ts"
  "rq_client_id (RequestMsg_ctor D op ts cid) = cid"
  "rq_serialized (RequestMsg_ctor D op ts cid) = serialize_RequestMsg D (RequestMsg_ctor D op ts cid)"
  by (simp_all add: RequestMsg_ctor_def serialize_RequestMsg_def)

lemma ReplyMsg_ctor_sel [simp]:
  "rp_view (ReplyMsg_ctor D v ts cid rid res) = v"
  "rp_timestamp (ReplyMsg_ctor D v ts cid rid res) = ts"
  "rp_client_id (ReplyMsg_ctor D v ts cid rid res) = cid"
  "rp_replica_id (ReplyMsg_ctor D v ts cid rid res) = rid"
  "rp_result (ReplyMsg_ctor D v ts cid rid res) = res"
  "rp_serialized (ReplyMsg_ctor D v ts cid rid res) = serialize_ReplyMsg D (ReplyMsg_ctor D v ts cid rid res)"
  by (simp_all add: ReplyMsg_ctor_def serialize_ReplyMsg_def)

lemma PrePrepareMsg_ctor_sel [simp]:
  "pp_view (PrePrepareMsg_ctor D v n rd rqm) = v"
  "pp_seq_num (PrePrepareMsg_ctor D v n rd rqm) = n"
  "pp_req_digest (PrePrepareMsg_ctor D v n rd rqm) = rd"
  "pp_req (PrePrepareMsg_ctor D v n rd rqm) = rqm"
  "pp_serialized (PrePrepareMsg_ctor D v n rd rqm) = serialize_PrePrepareMsg D (PrePrepareMsg_ctor D v n rd rqm)"
  by (simp_all add: PrePrepareMsg_ctor_def serialize_PrePrepareMsg_def)

lemma PrepareMsg_ctor_sel [simp]:
  "pr_view (PrepareMsg_ctor D v n d rid) = v"
  "pr_seq_num (PrepareMsg_ctor D v n d rid) = n"
  "pr_req_digest (PrepareMsg_ctor D v n d rid) = d"
  "pr_replica_id (PrepareMsg_ctor D v n d rid) = rid"
  "pr_serialized (PrepareMsg_ctor D v n d rid) = serialize_PrepareMsg D (PrepareMsg_ctor D v n d rid)"
  by (simp_all add: PrepareMsg_ctor_def serialize_PrepareMsg_def)

lemma CommitMsg_ctor_sel [simp]:
  "cm_view (CommitMsg_ctor D v n rd rid) = v"
  "cm_seq_num (CommitMsg_ctor D v n rd rid) = n"
  "cm_req_digest (CommitMsg_ctor D v n rd rid) = rd"
  "cm_replica_id (CommitMsg_ctor D v n rd rid) = rid"
  "cm_serialized (CommitMsg_ctor D v n rd rid) = serialize_CommitMsg D (CommitMsg_ctor D v n rd rid)"
  by (simp_all add: CommitMsg_ctor_def serialize_CommitMsg_def)

lemma CheckpointMsg_ctor_sel [simp]:
  "ck_seq_num (CheckpointMsg_ctor D n sd rid) = n"
  "ck_state_digest (CheckpointMsg_ctor D n sd rid) = sd"
  "ck_replica_id (CheckpointMsg_ctor D n sd rid) = rid"
  "ck_serialized (CheckpointMsg_ctor D n sd rid) = serialize_CheckpointMsg D (CheckpointMsg_ctor D n sd rid)"
  by (simp_all add: CheckpointMsg_ctor_def serialize_CheckpointMsg_def)

lemma ViewChangeMsg_ctor_sel [simp]:
  "vc_next_view (ViewChangeMsg_ctor D nv lsc rid C P) = zext nv"
  "vc_last_stable_checkpoint (ViewChangeMsg_ctor D nv lsc rid C P) = lsc"
  "vc_replica_id (ViewChangeMsg_ctor D nv lsc rid C P) = rid"
  "vc_checkpoint_proof (ViewChangeMsg_ctor D nv lsc rid C P) = C"
  "vc_prepared_proofs (ViewChangeMsg_ctor D nv lsc rid C P) = P"
  "vc_serialized (ViewChangeMsg_ctor D nv lsc rid C P) = serialize_ViewChangeMsg D (ViewChangeMsg_ctor D nv lsc rid C P)"
  by (simp_all add: ViewChangeMsg_ctor_def serialize_ViewChangeMsg_def)

lemma NewViewMsg_ctor_sel [simp]:
  "nv_next_view (NewViewMsg_ctor D v V O') = zext v"
  "nv_view_changes (NewViewMsg_ctor D v V O') = V"
  "nv_pre_prepares (NewViewMsg_ctor D v V O') = O'"
  "nv_serialized (NewViewMsg_ctor D v V O') = serialize_NewViewMsg D (NewViewMsg_ctor D v V O')"
  by (simp_all add: NewViewMsg_ctor_def serialize_NewViewMsg_def)

lemma HandshakeMsg_ctor_sel [simp]:
  "hs_id (HandshakeMsg_ctor D i) = i"
  "hs_serialized (HandshakeMsg_ctor D i) = serialize_HandshakeMsg D (HandshakeMsg_ctor D i)"
  by (simp_all add: HandshakeMsg_ctor_def serialize_HandshakeMsg_def)

lemma PrepareProof_ctor_sel [simp]:
  "pf_view (PrepareProof_ctor v n d) = v"
  "pf_seq_num (PrepareProof_ctor v n d) = n"
  "pf_digest (PrepareProof_ctor v n d) = d"
  "pf_prepared_replicas (PrepareProof_ctor v n d) = {}"
  by (simp_all add: PrepareProof_ctor_def)

section \<open>Messages on the wire\<close>

text \<open>The message types that \<open>MsgNetwork<uint8_t>\<close> carries, with their opcodes.\<close>

datatype wire = WRequest RequestMsg | WReply ReplyMsg | WPrePrepare PrePrepareMsg
  | WPrepare PrepareMsg | WCommit CommitMsg | WCheckpoint CheckpointMsg
  | WViewChange ViewChangeMsg | WNewView NewViewMsg | WHandshake HandshakeMsg

fun wire_type :: "wire \<Rightarrow> MsgType" where
  "wire_type (WRequest m) = REQUEST"
| "wire_type (WReply m) = REPLY"
| "wire_type (WPrePrepare m) = PRE_PREPARE"
| "wire_type (WPrepare m) = PREPARE"
| "wire_type (WCommit m) = COMMIT"
| "wire_type (WCheckpoint m) = CHECKPOINT"
| "wire_type (WViewChange m) = VIEW_CHANGE"
| "wire_type (WNewView m) = NEW_VIEW"
| "wire_type (WHandshake m) = HANDSHAKE"

text \<open>\<open>M::serialized\<close>, the bytes that \<open>send_msg\<close> sends.\<close>

fun wire_serialized :: "wire \<Rightarrow> byte list" where
  "wire_serialized (WRequest m) = rq_serialized m"
| "wire_serialized (WReply m) = rp_serialized m"
| "wire_serialized (WPrePrepare m) = pp_serialized m"
| "wire_serialized (WPrepare m) = pr_serialized m"
| "wire_serialized (WCommit m) = cm_serialized m"
| "wire_serialized (WCheckpoint m) = ck_serialized m"
| "wire_serialized (WViewChange m) = vc_serialized m"
| "wire_serialized (WNewView m) = nv_serialized m"
| "wire_serialized (WHandshake m) = hs_serialized m"

text \<open>\<open>M::serialize\<close>.\<close>

fun wire_encode :: "data_stream \<Rightarrow> wire \<Rightarrow> byte list" where
  "wire_encode D (WRequest m) = serialize_RequestMsg D m"
| "wire_encode D (WReply m) = serialize_ReplyMsg D m"
| "wire_encode D (WPrePrepare m) = serialize_PrePrepareMsg D m"
| "wire_encode D (WPrepare m) = serialize_PrepareMsg D m"
| "wire_encode D (WCommit m) = serialize_CommitMsg D m"
| "wire_encode D (WCheckpoint m) = serialize_CheckpointMsg D m"
| "wire_encode D (WViewChange m) = serialize_ViewChangeMsg D m"
| "wire_encode D (WNewView m) = serialize_NewViewMsg D m"
| "wire_encode D (WHandshake m) = serialize_HandshakeMsg D m"

text \<open>\<open>get_msg_type<M>()\<close>, the label used by the metrics.\<close>

fun get_msg_type :: "wire \<Rightarrow> string" where
  "get_msg_type (WRequest m) = ''request''"
| "get_msg_type (WReply m) = ''reply''"
| "get_msg_type (WPrePrepare m) = ''preprepare''"
| "get_msg_type (WPrepare m) = ''prepare''"
| "get_msg_type (WCommit m) = ''commit''"
| "get_msg_type (WCheckpoint m) = ''checkpoint''"
| "get_msg_type (WViewChange m) = ''viewchange''"
| "get_msg_type (WNewView m) = ''newview''"
| "get_msg_type (WHandshake m) = ''handshake''"

text \<open>
  The constructor from a stream that the opcode selects. Bytes after the last member are
  ignored; an opcode of no message type selects nothing.
\<close>

definition read_wire :: "data_stream \<Rightarrow> u8 \<Rightarrow> byte list \<Rightarrow> wire option" where
  "read_wire D opc s =
     (if opc = opcode_of REQUEST then map_option WRequest (RequestMsg_of_stream D s)
      else if opc = opcode_of REPLY then map_option WReply (ReplyMsg_of_stream D s)
      else if opc = opcode_of PRE_PREPARE then map_option WPrePrepare (PrePrepareMsg_of_stream D s)
      else if opc = opcode_of PREPARE then map_option WPrepare (PrepareMsg_of_stream D s)
      else if opc = opcode_of COMMIT then map_option WCommit (CommitMsg_of_stream D s)
      else if opc = opcode_of CHECKPOINT then map_option WCheckpoint (CheckpointMsg_of_stream D s)
      else if opc = opcode_of VIEW_CHANGE then map_option WViewChange (ViewChangeMsg_of_stream D s)
      else if opc = opcode_of NEW_VIEW then map_option WNewView (NewViewMsg_of_stream D s)
      else if opc = opcode_of HANDSHAKE then map_option WHandshake (HandshakeMsg_of_stream D s)
      else None)"

text \<open>
  What is left of a message after the trip: the members, with every \<open>serialized\<close> empty and
  without \<open>prepared_replicas\<close>.
\<close>

definition strip_PrepareProof :: "PrepareProof \<Rightarrow> PrepareProof" where
  "strip_PrepareProof p = p\<lparr>pf_prepared_replicas := {}\<rparr>"

definition strip_PrePrepareMsg :: "PrePrepareMsg \<Rightarrow> PrePrepareMsg" where
  "strip_PrePrepareMsg m =
     m\<lparr>pp_serialized := [], pp_req := (pp_req m)\<lparr>rq_serialized := []\<rparr>\<rparr>"

definition strip_CheckpointMsg :: "CheckpointMsg \<Rightarrow> CheckpointMsg" where
  "strip_CheckpointMsg m = m\<lparr>ck_serialized := []\<rparr>"

definition strip_ViewChangeMsg :: "ViewChangeMsg \<Rightarrow> ViewChangeMsg" where
  "strip_ViewChangeMsg m =
     m\<lparr>vc_serialized := [],
       vc_checkpoint_proof := map strip_CheckpointMsg (vc_checkpoint_proof m),
       vc_prepared_proofs := map strip_PrepareProof (vc_prepared_proofs m)\<rparr>"

definition strip_NewViewMsg :: "NewViewMsg \<Rightarrow> NewViewMsg" where
  "strip_NewViewMsg m =
     m\<lparr>nv_serialized := [],
       nv_view_changes := map strip_ViewChangeMsg (nv_view_changes m),
       nv_pre_prepares := map strip_PrePrepareMsg (nv_pre_prepares m)\<rparr>"

fun wire_strip :: "wire \<Rightarrow> wire" where
  "wire_strip (WRequest m) = WRequest (m\<lparr>rq_serialized := []\<rparr>)"
| "wire_strip (WReply m) = WReply (m\<lparr>rp_serialized := []\<rparr>)"
| "wire_strip (WPrePrepare m) = WPrePrepare (strip_PrePrepareMsg m)"
| "wire_strip (WPrepare m) = WPrepare (m\<lparr>pr_serialized := []\<rparr>)"
| "wire_strip (WCommit m) = WCommit (m\<lparr>cm_serialized := []\<rparr>)"
| "wire_strip (WCheckpoint m) = WCheckpoint (strip_CheckpointMsg m)"
| "wire_strip (WViewChange m) = WViewChange (strip_ViewChangeMsg m)"
| "wire_strip (WNewView m) = WNewView (strip_NewViewMsg m)"
| "wire_strip (WHandshake m) = WHandshake (m\<lparr>hs_serialized := []\<rparr>)"

text \<open>The lengths that the format stores in 32 bits fit.\<close>

abbreviation fits32 :: "'a list \<Rightarrow> bool" where
  "fits32 xs \<equiv> length xs < 2 ^ 32"

definition ok_PrePrepareMsg :: "PrePrepareMsg \<Rightarrow> bool" where
  "ok_PrePrepareMsg m \<longleftrightarrow> fits32 (rq_operation (pp_req m))"

definition ok_ViewChangeMsg :: "ViewChangeMsg \<Rightarrow> bool" where
  "ok_ViewChangeMsg m \<longleftrightarrow> fits32 (vc_checkpoint_proof m) \<and> fits32 (vc_prepared_proofs m)"

fun wire_ok :: "wire \<Rightarrow> bool" where
  "wire_ok (WRequest m) = fits32 (rq_operation m)"
| "wire_ok (WReply m) = fits32 (rp_result m)"
| "wire_ok (WPrePrepare m) = ok_PrePrepareMsg m"
| "wire_ok (WViewChange m) = ok_ViewChangeMsg m"
| "wire_ok (WNewView m) =
     (fits32 (nv_view_changes m) \<and> (\<forall>vc \<in> set (nv_view_changes m). ok_ViewChangeMsg vc) \<and>
      fits32 (nv_pre_prepares m) \<and> (\<forall>pp \<in> set (nv_pre_prepares m). ok_PrePrepareMsg pp))"
| "wire_ok _ = True"

text \<open>A message whose \<open>serialized\<close> member is what \<open>serialize\<close> writes.\<close>

definition wire_built :: "data_stream \<Rightarrow> wire \<Rightarrow> bool" where
  "wire_built D w \<longleftrightarrow> wire_serialized w = wire_encode D w"

section \<open>Round trips\<close>

context stream_laws
begin

sublocale request: codec "\<lambda>m. fits32 (rq_operation m)" "\<lambda>m. m\<lparr>rq_serialized := []\<rparr>"
  "serialize_RequestMsg D" "unserialize_RequestMsg D"
  by unfold_locales
    (simp add: serialize_RequestMsg_def unserialize_RequestMsg_def string_roundtrip u32 u64)

sublocale reply: codec "\<lambda>m. fits32 (rp_result m)" "\<lambda>m. m\<lparr>rp_serialized := []\<rparr>"
  "serialize_ReplyMsg D" "unserialize_ReplyMsg D"
  by unfold_locales
    (simp add: serialize_ReplyMsg_def unserialize_ReplyMsg_def string_roundtrip u32 u64)

sublocale preprepare: codec ok_PrePrepareMsg strip_PrePrepareMsg
  "serialize_PrePrepareMsg D" "unserialize_PrePrepareMsg D"
  by unfold_locales
    (simp add: serialize_PrePrepareMsg_def unserialize_PrePrepareMsg_def ok_PrePrepareMsg_def
      strip_PrePrepareMsg_def request.roundtrip u32 u64 u256)

sublocale prepare: codec "\<lambda>_. True" "\<lambda>m. m\<lparr>pr_serialized := []\<rparr>"
  "serialize_PrepareMsg D" "unserialize_PrepareMsg D"
  by unfold_locales
    (simp add: serialize_PrepareMsg_def unserialize_PrepareMsg_def u32 u64 u256)

sublocale commit: codec "\<lambda>_. True" "\<lambda>m. m\<lparr>cm_serialized := []\<rparr>"
  "serialize_CommitMsg D" "unserialize_CommitMsg D"
  by unfold_locales
    (simp add: serialize_CommitMsg_def unserialize_CommitMsg_def u32 u64 u256)

sublocale checkpoint: codec "\<lambda>_. True" strip_CheckpointMsg
  "serialize_CheckpointMsg D" "unserialize_CheckpointMsg D"
  by unfold_locales
    (simp add: serialize_CheckpointMsg_def unserialize_CheckpointMsg_def
      strip_CheckpointMsg_def u32 u64 u256)

sublocale proof_set: codec "\<lambda>_. True" strip_PrepareProof
  "serialize_PrepareProof D" "unserialize_PrepareProof D"
  by unfold_locales
    (simp add: serialize_PrepareProof_def unserialize_PrepareProof_def
      strip_PrepareProof_def PrepareProof_ctor_def u32 u64 u256)

sublocale handshake: codec "\<lambda>_. True" "\<lambda>m. m\<lparr>hs_serialized := []\<rparr>"
  "serialize_HandshakeMsg D" "unserialize_HandshakeMsg D"
  by unfold_locales (simp add: serialize_HandshakeMsg_def unserialize_HandshakeMsg_def u32)

end

context little_endian
begin

lemmas checkpoint_vector = vector_codec [OF checkpoint.codec_axioms]
lemmas proof_vector = vector_codec [OF proof_set.codec_axioms]

sublocale viewchange: codec ok_ViewChangeMsg strip_ViewChangeMsg
  "serialize_ViewChangeMsg D" "unserialize_ViewChangeMsg D"
  by unfold_locales
    (simp add: serialize_ViewChangeMsg_def unserialize_ViewChangeMsg_def ok_ViewChangeMsg_def
      strip_ViewChangeMsg_def codec.roundtrip [OF checkpoint_vector]
      codec.roundtrip [OF proof_vector] u32 u64)

sublocale newview: codec "\<lambda>m. wire_ok (WNewView m)" strip_NewViewMsg
  "serialize_NewViewMsg D" "unserialize_NewViewMsg D"
proof unfold_locales
  fix m r
  assume ok: "wire_ok (WNewView m)"
  then have "unat (of_nat (length (nv_view_changes m)) :: u32) = length (nv_view_changes m)"
    and "unat (of_nat (length (nv_pre_prepares m)) :: u32) = length (nv_pre_prepares m)"
    by (simp_all add: unat_of_nat take_bit_nat_eq_self_iff)
  with ok show "unserialize_NewViewMsg D (serialize_NewViewMsg D m @ r) =
      Some (strip_NewViewMsg m, r)"
    by (simp add: serialize_NewViewMsg_def unserialize_NewViewMsg_def strip_NewViewMsg_def
        u32 u64 viewchange.sequence preprepare.sequence)
qed

lemmas message_roundtrips =
  request.roundtrip [of _ "[]"] reply.roundtrip [of _ "[]"] preprepare.roundtrip [of _ "[]"]
  prepare.roundtrip [of _ "[]"] commit.roundtrip [of _ "[]"] checkpoint.roundtrip [of _ "[]"]
  viewchange.roundtrip [of _ "[]"] newview.roundtrip [of _ "[]"] handshake.roundtrip [of _ "[]"]

lemma read_encode:
  "wire_ok w \<Longrightarrow>
     read_wire D (opcode_of (wire_type w)) (wire_encode D w) = Some (wire_strip w)"
  by (cases w) (simp_all add: read_wire_def of_stream_defs message_roundtrips [unfolded append_Nil2])

end

section \<open>The properties of the wire format\<close>

text \<open>
  C30. Over a little-endian stream a message of any of the nine types is read back from the bytes
  that \<open>serialize\<close> writes, with every member equal except \<open>serialized\<close>, which comes back empty, as
  long as the lengths in it fit 32 bits.
\<close>

theorem wire_roundtrip:
  assumes "little_endian D" and "wire_ok w"
  shows "read_wire D (opcode_of (wire_type w)) (wire_encode D w) = Some (wire_strip w)"
  using assms by (rule little_endian.read_encode)

theorem wire_roundtrip_witness:
  "read_wire (le_stream id) 4 (wire_encode (le_stream id) (WCommit (CommitMsg_ctor (le_stream id) 1 2 3 0))) =
     Some (WCommit \<lparr>cm_serialized = [], cm_view = 1, cm_seq_num = 2, cm_req_digest = 3, cm_replica_id = 0\<rparr>)"
  using wire_roundtrip [OF le.little_endian_axioms, of "WCommit (CommitMsg_ctor (le_stream id) 1 2 3 0)"]
  by (simp add: CommitMsg_ctor_def)

lemma wire_type_strip: "wire_type (wire_strip w) = wire_type w"
  by (cases w) simp_all

text \<open>
  The opcode and the bytes of a message determine it: two messages that go out alike agree in
  their type and in every member but \<open>serialized\<close>.
\<close>

lemma wire_unambiguous:
  assumes "little_endian D" and "wire_ok w" and "wire_ok w'"
    and "opcode_of (wire_type w) = opcode_of (wire_type w')" and "wire_encode D w = wire_encode D w'"
  shows "wire_type w = wire_type w' \<and> wire_strip w = wire_strip w'"
proof -
  note r = little_endian.read_encode [OF assms(1)]
  from r [OF assms(2)] r [OF assms(3)] assms(4,5) have "wire_strip w = wire_strip w'" by simp
  then show ?thesis using wire_type_strip by metis
qed


definition bswap32 :: "u32 \<Rightarrow> u32" where
  "bswap32 x = of_nat (le_value (rev (le_bytes 4 (unat x))))"

lemma le_bytes_value: "le_bytes (length bs) (le_value bs) = bs"
proof (induction bs)
  case (Cons b bs)
  have "unat b < 256" using unsigned_less [of b, where 'a = nat] by simp
  then have "(unat b + 256 * le_value bs) div 256 = le_value bs" by simp
  moreover have "(of_nat (unat b + 256 * le_value bs) :: byte) = b"
    by (simp add: word_unat_eq_iff unat_of_nat take_bit_eq_mod \<open>unat b < 256\<close> del: of_nat_add of_nat_mult)
  ultimately show ?case using Cons.IH by simp
qed simp

lemma le_value_less: "le_value bs < 256 ^ length bs"
proof (induction bs)
  case (Cons b bs)
  have "unat b < 256" using unsigned_less [of b, where 'a = nat] by simp
  with Cons.IH show ?case by simp
qed simp

lemma bswap32_involution: "bswap32 (bswap32 x) = x"
proof -
  let ?bs = "rev (le_bytes 4 (unat x))"
  have len: "length ?bs = 4" by simp
  have "unat (of_nat (le_value ?bs) :: u32) = le_value ?bs"
    using le_value_less [of ?bs] len by (simp add: unat_of_nat take_bit_nat_eq_self_iff)
  moreover have "le_bytes 4 (le_value ?bs) = ?bs" using le_bytes_value [of ?bs] len by simp
  ultimately have "bswap32 (bswap32 x) = of_nat (le_value (le_bytes 4 (unat x)))"
    by (simp add: bswap32_def)
  also have "le_value (le_bytes 4 (unat x)) = unat x"
    by (rule le_value_bytes) (rule unat_less_bytes)
  finally show ?thesis by simp
qed

text \<open>
  On a big-endian host, where \<open>letoh\<close> reverses the bytes, the library stream still keeps its
  laws, but a vector of one element cannot be read back: its size is converted when it is
  written and used as it is when it is read.
\<close>

lemma vector_broken_big_endian:
  "stream_laws (le_stream bswap32) \<and>
   get_vector (le_stream bswap32) (get_u32 (le_stream bswap32))
     (put_vector (le_stream bswap32) (put_u32 (le_stream bswap32)) [x]) = None"
proof
  let ?D = "le_stream bswap32"
  show laws: "stream_laws ?D" by (rule le_stream_laws) (rule bswap32_involution)
  have four: "(4 :: nat) = Suc (Suc (Suc (Suc 0)))" by simp
  have "le_bytes 4 (unat (1 :: u32)) = [1, 0, 0, 0]" unfolding four by simp
  then have "letoh ?D 1 = 16777216" by (simp add: le_stream_def bswap32_def)
  then have "\<exists>k. unat (letoh ?D 1) = Suc (Suc k)" by (intro exI [of _ 16777214]) simp
  then obtain k where "unat (letoh ?D 1) = Suc (Suc k)" by blast
  moreover have "get_u32 ?D [] = None" by (simp add: le_stream_def le_get_def split_at_def)
  ultimately show "get_vector ?D (get_u32 ?D) (put_vector ?D (put_u32 ?D) [x]) = None"
    using stream_laws.u32 [OF laws] stream_laws.u32 [OF laws, of x "[]"]
    by (simp add: get_vector_def put_vector_def del: One_nat_def)
qed

end
