(* ===== verification/Metrics.thy ===== *)
theory Metrics
  imports Pbft_Prelude
begin

text \<open>
  \<open>src/metrics.cc\<close>. The prometheus objects behind the handles are library code: a counter, a
  gauge and a histogram are represented by what the code hands to them (the arguments of
  \<open>Increment\<close>, of \<open>Set\<close> and of \<open>Observe\<close>, in order). The handle tables are the maps of the
  class, filled by its constructor.
\<close>

type_synonym counter = "real list"
type_synonym gauge = "real list"

record histogram =
  hg_buckets :: "real list"
  hg_observations :: "real list"

record metrics =
  mt_msg :: "string \<times> bool \<rightharpoonup> counter"
  mt_bytes :: "string \<times> bool \<rightharpoonup> counter"
  mt_retrans :: "string \<rightharpoonup> counter"
  mt_vc :: "string \<rightharpoonup> counter"
  mt_view :: gauge
  mt_inflight :: gauge
  mt_low_watermark :: gauge
  mt_high_watermark :: gauge
  mt_phase :: "string \<rightharpoonup> histogram"
  mt_size :: "string \<rightharpoonup> histogram"

definition default_buckets :: "real list" where
  "default_buckets = [0.001, 0.002, 0.005, 0.01, 0.02, 0.05, 0.1, 0.2, 0.5, 1.0, 2.0]"

definition size_buckets :: "real list" where
  "size_buckets = [64, 128, 256, 512, 1024, 2048, 4096, 8192, 16384, 32768, 65536, 1048576,
     10485760]"

definition new_histogram :: "real list \<Rightarrow> histogram" where
  "new_histogram buckets = \<lparr>hg_buckets = buckets, hg_observations = []\<rparr>"

definition metric_types :: "string list" where
  "metric_types = [''request'', ''reply'', ''preprepare'', ''prepare'', ''commit'',
     ''checkpoint'', ''viewchange'', ''newview'', ''handshake'']"

text \<open>The constructor: the loop over \<open>types\<close> and the single handles after it.\<close>

definition Metrics_ctor :: metrics where
  "Metrics_ctor = \<lparr>
     mt_msg = map_of [((t, d), []). t \<leftarrow> metric_types, d \<leftarrow> [True, False]],
     mt_bytes = map_of [((t, d), []). t \<leftarrow> metric_types, d \<leftarrow> [True, False]],
     mt_retrans = map_of [(t, []). t \<leftarrow> metric_types],
     mt_vc = [''timeout'' \<mapsto> []],
     mt_view = [], mt_inflight = [], mt_low_watermark = [], mt_high_watermark = [],
     mt_phase = [''prepare'' \<mapsto> new_histogram default_buckets,
                 ''commit'' \<mapsto> new_histogram default_buckets,
                 ''preprepare'' \<mapsto> new_histogram default_buckets],
     mt_size = map_of [(t, new_histogram size_buckets). t \<leftarrow> metric_types]\<rparr>"

text \<open>\<open>auto it = m.find(k); if (it != m.end()) it->second->f()\<close>\<close>

definition on_handle :: "'k \<Rightarrow> ('v \<Rightarrow> 'v) \<Rightarrow> ('k \<rightharpoonup> 'v) \<Rightarrow> ('k \<rightharpoonup> 'v)" where
  "on_handle k f m = (case m k of None \<Rightarrow> m | Some v \<Rightarrow> m(k \<mapsto> f v))"

definition observe :: "real \<Rightarrow> histogram \<Rightarrow> histogram" where
  "observe x hg = hg\<lparr>hg_observations := hg_observations hg @ [x]\<rparr>"

definition inc_bytes :: "string \<Rightarrow> nat \<Rightarrow> bool \<Rightarrow> metrics \<Rightarrow> metrics" where
  "inc_bytes t bytes is_tx M =
     M\<lparr>mt_bytes := on_handle (t, is_tx) (\<lambda>c. c @ [real bytes]) (mt_bytes M)\<rparr>"

definition observe_msg_size :: "string \<Rightarrow> nat \<Rightarrow> metrics \<Rightarrow> metrics" where
  "observe_msg_size t bytes M = M\<lparr>mt_size := on_handle t (observe (real bytes)) (mt_size M)\<rparr>"

definition inc_msg :: "string \<Rightarrow> nat \<Rightarrow> bool \<Rightarrow> metrics \<Rightarrow> metrics" where
  "inc_msg t sz is_tx M =
     observe_msg_size t sz (inc_bytes t sz is_tx
       (M\<lparr>mt_msg := on_handle (t, is_tx) (\<lambda>c. c @ [1]) (mt_msg M)\<rparr>))"

definition inc_view_change :: "string \<Rightarrow> metrics \<Rightarrow> metrics" where
  "inc_view_change reason M = M\<lparr>mt_vc := on_handle reason (\<lambda>c. c @ [1]) (mt_vc M)\<rparr>"

definition set_view :: "u32 \<Rightarrow> metrics \<Rightarrow> metrics" where
  "set_view v M = M\<lparr>mt_view := mt_view M @ [real (unat v)]\<rparr>"

definition set_inflight :: "u64 \<Rightarrow> metrics \<Rightarrow> metrics" where
  "set_inflight n M = M\<lparr>mt_inflight := mt_inflight M @ [real (unat n)]\<rparr>"

definition observe_phase :: "string \<Rightarrow> real \<Rightarrow> metrics \<Rightarrow> metrics" where
  "observe_phase phase seconds M =
     M\<lparr>mt_phase := on_handle phase (observe seconds) (mt_phase M)\<rparr>"

definition set_watermarks :: "u64 \<Rightarrow> u64 \<Rightarrow> metrics \<Rightarrow> metrics" where
  "set_watermarks low high M =
     M\<lparr>mt_low_watermark := mt_low_watermark M @ [real (unat low)],
       mt_high_watermark := mt_high_watermark M @ [real (unat high)]\<rparr>"

text \<open>The calls a node or client makes, and their effect.\<close>

datatype metric_call =
    IncMsg string nat bool
  | IncViewChange string
  | SetView u32
  | SetInflight u64
  | SetWatermarks u64 u64
  | ObservePhase string real

fun apply_metric :: "metric_call \<Rightarrow> metrics \<Rightarrow> metrics" where
  "apply_metric (IncMsg t n d) M = inc_msg t n d M"
| "apply_metric (IncViewChange r) M = inc_view_change r M"
| "apply_metric (SetView v) M = set_view v M"
| "apply_metric (SetInflight n) M = set_inflight n M"
| "apply_metric (SetWatermarks l h) M = set_watermarks l h M"
| "apply_metric (ObservePhase p x) M = observe_phase p x M"

lemmas metric_defs =
  inc_msg_def inc_bytes_def observe_msg_size_def inc_view_change_def set_view_def
  set_inflight_def observe_phase_def set_watermarks_def

section \<open>The handle tables never change\<close>

lemma dom_on_handle [simp]: "dom (on_handle k f m) = dom m"
  by (auto simp: on_handle_def split: option.splits if_splits)

definition handles :: "metrics \<Rightarrow> (string \<times> bool) set \<times> string set \<times> string set \<times> string set" where
  "handles M = (dom (mt_msg M) \<inter> dom (mt_bytes M), dom (mt_vc M), dom (mt_phase M), dom (mt_size M))"

lemma handles_apply_metric [simp]: "handles (apply_metric c M) = handles M"
  by (cases c) (simp_all add: metric_defs handles_def)

lemma handles_fold [simp]: "handles (fold apply_metric cs M) = handles M"
  by (induction cs arbitrary: M) auto

lemma table_by_direction:
  "map_of [((t, d), v). t \<leftarrow> ts, d \<leftarrow> [True, False]] =
     (\<lambda>(t, d). if t \<in> set ts then Some v else None)"
  by (induction ts) (auto simp: fun_eq_iff)

lemma table_by_type:
  "map_of [(t, v). t \<leftarrow> ts] = (\<lambda>t. if t \<in> set ts then Some v else None)"
  by (induction ts) (auto simp: fun_eq_iff)

lemma handles_ctor:
  "handles Metrics_ctor =
     (set metric_types \<times> UNIV, {''timeout''}, {''prepare'', ''commit'', ''preprepare''},
      set metric_types)"
  unfolding handles_def Metrics_ctor_def table_by_direction table_by_type
  by (auto split: if_splits)

lemma phase_not_registered:
  assumes "phase \<notin> dom (mt_phase M)"
  shows "observe_phase phase x M = M"
  using assms by (auto simp: observe_phase_def on_handle_def domIff)

section \<open>Counting\<close>

text \<open>Every counted message adds one to its message counter and its size to its byte counter.\<close>

definition count_calls :: "string \<Rightarrow> bool \<Rightarrow> metric_call list \<Rightarrow> nat list" where
  "count_calls t d cs = [n. IncMsg t' n d' \<leftarrow> cs, t' = t \<and> d' = d]"

lemma apply_metric_msg:
  assumes "mt_msg M (t, d) = Some c" and "mt_bytes M (t, d) = Some b"
  shows "mt_msg (apply_metric call M) (t, d) = Some (c @ map (\<lambda>_. 1) (count_calls t d [call]))"
    and "mt_bytes (apply_metric call M) (t, d) = Some (b @ map real (count_calls t d [call]))"
  using assms
  by (cases call;
      auto simp: metric_defs on_handle_def count_calls_def split: option.splits)+

lemma fold_apply_metric_msg:
  assumes "mt_msg M (t, d) = Some c" and "mt_bytes M (t, d) = Some b"
  shows "mt_msg (fold apply_metric cs M) (t, d) = Some (c @ map (\<lambda>_. 1) (count_calls t d cs)) \<and>
         mt_bytes (fold apply_metric cs M) (t, d) = Some (b @ map real (count_calls t d cs))"
  using assms
proof (induction cs arbitrary: M c b)
  case (Cons call cs)
  from Cons.IH [OF apply_metric_msg [OF Cons.prems, of call]] show ?case
    by (simp add: count_calls_def)
qed (simp add: count_calls_def)

lemma ctor_registered:
  assumes "t \<in> set metric_types"
  shows "mt_msg Metrics_ctor (t, d) = Some []" and "mt_bytes Metrics_ctor (t, d) = Some []"
  using assms unfolding Metrics_ctor_def table_by_direction by simp_all

section \<open>The properties of the metrics\<close>

text \<open>
  C37. After any calls, the message counter of a registered type and direction was incremented by
  one for each call of \<open>inc_msg\<close> for it, and its byte counter by the size given in that call.
\<close>

theorem messages_counted:
  assumes "t \<in> set metric_types"
  shows "mt_msg (fold apply_metric cs Metrics_ctor) (t, d) = Some (map (\<lambda>_. 1) (count_calls t d cs)) \<and>
    mt_bytes (fold apply_metric cs Metrics_ctor) (t, d) = Some (map real (count_calls t d cs))"
  using fold_apply_metric_msg [OF ctor_registered [OF assms]] by simp

theorem messages_counted_witness:
  "mt_bytes (fold apply_metric [IncMsg ''commit'' 48 True, SetView 1, IncMsg ''commit'' 48 False] Metrics_ctor)
     (''commit'', True) = Some [48]"
  using messages_counted [of "''commit''" "[IncMsg ''commit'' 48 True, SetView 1, IncMsg ''commit'' 48 False]" True]
  by (simp add: metric_types_def count_calls_def)

text \<open>
  The time from pre-prepare to prepared is observed under a name for which no histogram
  is registered, so it is never recorded; the phases with a histogram are three others.
\<close>

lemma prepared_phase_dropped:
  "apply_metric (ObservePhase ''prepared'' x) (fold apply_metric cs Metrics_ctor) =
     fold apply_metric cs Metrics_ctor \<and>
   dom (mt_phase (fold apply_metric cs Metrics_ctor)) = {''prepare'', ''commit'', ''preprepare''}"
proof -
  have "handles (fold apply_metric cs Metrics_ctor) = handles Metrics_ctor" by simp
  then have "dom (mt_phase (fold apply_metric cs Metrics_ctor)) = {''prepare'', ''commit'', ''preprepare''}"
    unfolding handles_ctor by (simp add: handles_def)
  then show ?thesis using phase_not_registered [of "''prepared''"] by simp
qed

end
