(* ===== verification/Service.thy ===== *)
theory Service
  imports Pbft_Prelude
begin

text \<open>
  The contract of \<open>include/pbft/service_interface.hh\<close>. The abstract class is a record of its
  three virtual methods over a state type \<open>'svc\<close>; determinism ("deterministic service to be
  replicated") is what makes them functions. \<open>initialize\<close> puts the object into a state that does
  not depend on what it held before. A client of the interface reasons about \<open>run_ops\<close>, the
  state and results after a sequence of operations.
\<close>

record 'svc service =
  svc_initialize :: "'svc \<Rightarrow> 'svc"
  svc_execute :: "'svc \<Rightarrow> string \<Rightarrow> 'svc \<times> string"
  svc_digest :: "'svc \<Rightarrow> u256"

fun run_ops :: "'svc service \<Rightarrow> 'svc \<Rightarrow> string list \<Rightarrow> 'svc" where
  "run_ops S st [] = st"
| "run_ops S st (op # ops) = run_ops S (fst (svc_execute S st op)) ops"

lemma run_ops_append [simp]: "run_ops S st (xs @ ys) = run_ops S (run_ops S st xs) ys"
  by (induction xs arbitrary: st) auto

lemma run_ops_snoc: "run_ops S st (xs @ [x]) = fst (svc_execute S (run_ops S st xs) x)"
  by simp

locale replicated_service =
  fixes S :: "'svc service"
  assumes initialize_resets: "svc_initialize S a = svc_initialize S b"
begin

lemma same_history_same_state:
  "run_ops S (svc_initialize S a) ops = run_ops S (svc_initialize S b) ops"
  by (simp add: initialize_resets [of a b])

lemma same_history_same_reply:
  assumes "st = run_ops S (svc_initialize S a) ops" and "st' = run_ops S (svc_initialize S b) ops"
  shows "svc_execute S st x = svc_execute S st' x" and "svc_digest S st = svc_digest S st'"
  using assms same_history_same_state [of a ops b] by simp_all

end

end
