(* ===== verification/Node_State.thy ===== *)
theory Node_State
  imports Messages Metrics Service
begin

text \<open>
  The state of \<open>pbft::Node\<close> (\<open>include/pbft/node.hh\<close>), its constructor, the sending helpers and
  the view-change timer.

  A handler is a function from the state to the state. What it does to the outside (messages
  handed to \<open>net_->send_msg\<close>, calls on the timer and on the metrics, the log lines of protocol
  transitions) is appended to the field \<open>nd_out\<close>, so the order of effects is part of the
  result. Three situations in which the C++ program has no defined continuation are recorded
  there as \<open>Trap\<close>: a modulus by zero, a shift by 32 or more, a loop that cannot end.

  Code outside the repository is the record \<open>env\<close>: the stream library, \<open>salticidae::get_hash\<close>,
  the value of a default-constructed \<open>uint256_t\<close>, the service object, whether a connection is
  usable (\<open>conn && !conn->is_terminated()\<close>), and the clock reading that a phase observation
  reports. A connection handle \<open>conn\<close> is a number.
\<close>

section \<open>Data\<close>

type_synonym conn = nat

record NodeTLSConfig =
  ntls_cert_file :: string
  ntls_key_file :: string

record NodeConfig =
  cfg_num_replicas :: u32
  cfg_log_size :: u32
  cfg_checkpoint_interval :: u32
  cfg_vc_timeout :: real
  cfg_tls_config :: "NodeTLSConfig option"

datatype ReqStage = NONE | PRE_PREPARED | PREPARED | COMMITTED

text \<open>The order of the enumerators, in which an entry advances.\<close>

fun stage_rank :: "ReqStage \<Rightarrow> nat" where
  "stage_rank NONE = 0"
| "stage_rank PRE_PREPARED = 1"
| "stage_rank PREPARED = 2"
| "stage_rank COMMITTED = 3"

instantiation ReqStage :: linorder
begin

definition less_eq_ReqStage :: "ReqStage \<Rightarrow> ReqStage \<Rightarrow> bool" where
  "less_eq_ReqStage a b \<longleftrightarrow> stage_rank a \<le> stage_rank b"

definition less_ReqStage :: "ReqStage \<Rightarrow> ReqStage \<Rightarrow> bool" where
  "less_ReqStage a b \<longleftrightarrow> stage_rank a < stage_rank b"

instance
proof
  fix a b :: ReqStage
  show "a \<le> b \<Longrightarrow> b \<le> a \<Longrightarrow> a = b"
    by (cases a; cases b) (simp_all add: less_eq_ReqStage_def)
qed (auto simp: less_eq_ReqStage_def less_ReqStage_def)

end

record ReqLogEntry =
  re_view :: u32
  re_seq :: u64
  re_digest :: u256
  re_req :: RequestMsg
  re_stage :: ReqStage
  re_has_preprepare :: bool
  re_prepares :: "u32 set"
  re_commits :: "u32 set"

record ClientReplyInfo =
  cri_timestamp :: u64
  cri_replica_id :: u32
  cri_result :: string

record CheckpointVotes =
  cv_votes :: "(u256 \<times> u32 set) list"
  cv_stable :: bool

text \<open>The log lines of protocol transitions, with the values they print.\<close>

datatype log_event =
    LogRequestAccepted u32 string u64
  | LogPrePrepareAccepted u256 u256
  | LogPrepareAccepted u256 u256
  | LogPrepared u32 string u64 u256
  | LogCommitted u32 string u64 u256
  | LogExecuted u32 string u64 u256
  | LogStartCheckpoint u256
  | LogCheckpointAgreed u32 u64 u256
  | LogViewChange u64

datatype trap = DivisionByZero | ShiftTooFar | EndlessLoop

datatype action =
    Send conn wire
  | TimerAdd real
  | TimerDel
  | Metric metric_call
  | Log log_event
  | Trap trap

record 'svc env =
  env_stream :: data_stream
  env_hash_request :: "RequestMsg \<Rightarrow> u256"
  env_hash_string :: "string \<Rightarrow> u256"
  env_null_digest :: u256
  env_service :: "'svc service"
  env_conn_ok :: "conn \<Rightarrow> bool"
  env_elapsed :: "string \<Rightarrow> u64 \<Rightarrow> real"

record 'svc node =
  nd_id :: u32
  nd_n :: u32
  nd_f :: u32
  nd_peers :: "(u32 \<times> conn) list"
  nd_conn_to_peer :: "conn \<rightharpoonup> u32"
  nd_clients :: "(u32 \<times> conn) list"
  nd_view :: u32
  nd_seq_num :: u64
  nd_last_exec :: u64
  nd_L :: u32
  nd_K :: u32
  nd_h :: u64
  nd_H :: u64
  nd_reqlog :: "(u64, ReqLogEntry) std_map"
  nd_last_replies :: "u32 \<rightharpoonup> ClientReplyInfo"
  nd_vc_timeout :: real
  nd_view_changing :: bool
  nd_view_change_store :: "(u32, (u32, ViewChangeMsg) std_map) std_map"
  nd_view_change_timeout_count :: u32
  nd_checkpoints :: "u64 \<rightharpoonup> CheckpointVotes"
  nd_last_stable_digest :: u256
  nd_timer_running :: bool
  nd_service :: 'svc
  nd_out :: "action list"

text \<open>
  A value-initialised \<open>ReqLogEntry\<close>, what \<open>reqlog_[n]\<close> creates for a missing key: zero
  integers, an empty request, the default digest, stage \<open>NONE\<close>.
\<close>

definition new_entry :: "'svc env \<Rightarrow> ReqLogEntry" where
  "new_entry E = \<lparr>re_view = 0, re_seq = 0, re_digest = env_null_digest E,
     re_req = \<lparr>rq_serialized = [], rq_operation = [], rq_timestamp = 0, rq_client_id = 0\<rparr>,
     re_stage = NONE, re_has_preprepare = False, re_prepares = {}, re_commits = {}\<rparr>"

definition new_votes :: CheckpointVotes where
  "new_votes = \<lparr>cv_votes = [], cv_stable = False\<rparr>"

section \<open>Output\<close>

definition emit :: "action list \<Rightarrow> 'svc node \<Rightarrow> 'svc node" where
  "emit acts s = s\<lparr>nd_out := nd_out s @ acts\<rparr>"

text \<open>\<open>metrics_->inc_msg(type, m.serialized.size(), tx)\<close>\<close>

definition count_msg :: "wire \<Rightarrow> bool \<Rightarrow> action" where
  "count_msg w is_tx = Metric (IncMsg (get_msg_type w) (length (wire_serialized w)) is_tx)"

definition broadcast :: "'svc env \<Rightarrow> wire \<Rightarrow> 'svc node \<Rightarrow> 'svc node" where
  "broadcast E w s =
     emit (count_msg w True #
           [Send c w. (i, c) \<leftarrow> nd_peers s, i \<noteq> nd_id s \<and> env_conn_ok E c]) s"

definition send_via :: "'svc env \<Rightarrow> conn option \<Rightarrow> wire \<Rightarrow> 'svc node \<Rightarrow> 'svc node" where
  "send_via E co w s =
     emit (count_msg w True #
           (case co of None \<Rightarrow> [] | Some c \<Rightarrow> if env_conn_ok E c then [Send c w] else [])) s"

definition send_to_replica :: "'svc env \<Rightarrow> u32 \<Rightarrow> wire \<Rightarrow> 'svc node \<Rightarrow> 'svc node" where
  "send_to_replica E i w s = send_via E (map_of (nd_peers s) i) w s"

definition send_to_client :: "'svc env \<Rightarrow> u32 \<Rightarrow> wire \<Rightarrow> 'svc node \<Rightarrow> 'svc node" where
  "send_to_client E i w s = send_via E (map_of (nd_clients s) i) w s"

section \<open>Construction and connections\<close>

text \<open>
  \<open>Node::Node\<close>. The member \<open>timer_running_\<close> has no initialiser in the class and none in the
  constructor, so its first value is an argument.
\<close>

definition Node_ctor :: "'svc env \<Rightarrow> u32 \<Rightarrow> NodeConfig \<Rightarrow> 'svc \<Rightarrow> bool \<Rightarrow> 'svc node" where
  "Node_ctor E replica_id config svc timer_running =
     \<lparr>nd_id = replica_id, nd_n = cfg_num_replicas config,
      nd_f = (cfg_num_replicas config - 1) div 3,
      nd_peers = [], nd_conn_to_peer = Map.empty, nd_clients = [],
      nd_view = 0, nd_seq_num = 0, nd_last_exec = 0,
      nd_L = cfg_log_size config, nd_K = cfg_checkpoint_interval config,
      nd_h = 0, nd_H = zext (cfg_log_size config),
      nd_reqlog = [], nd_last_replies = Map.empty,
      nd_vc_timeout = cfg_vc_timeout config, nd_view_changing = False,
      nd_view_change_store = [], nd_view_change_timeout_count = 0,
      nd_checkpoints = Map.empty, nd_last_stable_digest = env_null_digest E,
      nd_timer_running = timer_running,
      nd_service = svc_initialize (env_service E) svc,
      nd_out = [Metric (SetView 0)]\<rparr>"

text \<open>\<open>add_replica\<close> and \<open>add_client\<close>; \<open>c\<close> is the connection \<open>connect_sync\<close> returned.\<close>

definition add_replica :: "u32 \<Rightarrow> conn \<Rightarrow> 'svc node \<Rightarrow> 'svc node" where
  "add_replica i c s =
     (if i = nd_id s then s else s\<lparr>nd_peers := AList.update i c (nd_peers s)\<rparr>)"

definition add_client :: "u32 \<Rightarrow> conn \<Rightarrow> 'svc node \<Rightarrow> 'svc node" where
  "add_client i c s = s\<lparr>nd_clients := AList.update i c (nd_clients s)\<rparr>"

text \<open>The connection handler of \<open>register_handlers\<close>.\<close>

definition on_connection :: "'svc env \<Rightarrow> conn \<Rightarrow> bool \<Rightarrow> 'svc node \<Rightarrow> 'svc node" where
  "on_connection E c established s =
     (if established then emit [Send c (WHandshake (HandshakeMsg_ctor (env_stream E) (nd_id s)))] s
      else s)"

definition on_handshake :: "HandshakeMsg \<Rightarrow> conn \<Rightarrow> 'svc node \<Rightarrow> 'svc node" where
  "on_handshake m c s =
     (let s = emit [count_msg (WHandshake m) False] s
      in s\<lparr>nd_conn_to_peer := (nd_conn_to_peer s)(c \<mapsto> hs_id m)\<rparr>)"

section \<open>Who is primary\<close>

definition primary :: "'svc node \<Rightarrow> u32" where
  "primary s = nd_view s mod nd_n s"

definition is_primary :: "'svc node \<Rightarrow> bool" where
  "is_primary s \<longleftrightarrow> nd_id s = nd_view s mod nd_n s"

definition comes_from_primary :: "conn \<Rightarrow> 'svc node \<Rightarrow> bool" where
  "comes_from_primary c s \<longleftrightarrow>
     (case nd_conn_to_peer s c of None \<Rightarrow> False | Some i \<Rightarrow> i = primary s)"

definition comes_from_primary_of :: "conn \<Rightarrow> u32 \<Rightarrow> 'svc node \<Rightarrow> bool" where
  "comes_from_primary_of c new_view s \<longleftrightarrow>
     (case nd_conn_to_peer s c of None \<Rightarrow> False | Some i \<Rightarrow> i = new_view mod nd_n s)"

text \<open>The modulus in \<open>comes_from_primary\<close> is only reached for a known connection.\<close>

definition primary_undefined :: "conn \<Rightarrow> 'svc node \<Rightarrow> bool" where
  "primary_undefined c s \<longleftrightarrow> nd_n s = 0 \<and> nd_conn_to_peer s c \<noteq> None"

section \<open>The view-change timer\<close>

definition is_waiting_for_request :: "'svc node \<Rightarrow> bool" where
  "is_waiting_for_request s \<longleftrightarrow>
     list_ex (\<lambda>(k, e). re_has_preprepare e \<and> nd_last_exec s < k) (nd_reqlog s)"

definition view_change_delay :: "'svc node \<Rightarrow> real" where
  "view_change_delay s =
     min (nd_vc_timeout s * 2 ^ unat (nd_view_change_timeout_count s)) 300"

definition start_timer_if_not_running :: "'svc node \<Rightarrow> 'svc node" where
  "start_timer_if_not_running s =
     (if \<not> nd_timer_running s \<and> \<not> nd_view_changing s then
        if 32 \<le> nd_view_change_timeout_count s then emit [Trap ShiftTooFar] s
        else (emit [TimerAdd (view_change_delay s)] s)\<lparr>nd_timer_running := True\<rparr>
      else s)"

definition stop_timer :: "'svc node \<Rightarrow> 'svc node" where
  "stop_timer s =
     (if nd_timer_running s then (emit [TimerDel] s)\<lparr>nd_timer_running := False\<rparr> else s)"

definition manage_timer :: "'svc node \<Rightarrow> 'svc node" where
  "manage_timer s =
     (if \<not> is_waiting_for_request s then stop_timer s
      else if nd_timer_running s then start_timer_if_not_running (stop_timer s)
      else s)"

declare start_timer_if_not_running_def [timer_defs] stop_timer_def [timer_defs] manage_timer_def [timer_defs]

section \<open>Access to the request log\<close>

text \<open>
  \<open>auto &e = reqlog_[n]\<close> followed by a change of \<open>e\<close>. References into a \<open>std::map\<close> stay valid
  while other entries change, so the key stands for the reference.
\<close>

definition entry :: "'svc env \<Rightarrow> u64 \<Rightarrow> 'svc node \<Rightarrow> ReqLogEntry" where
  "entry E n s = std_ref (new_entry E) (nd_reqlog s) n"

definition touch_entry :: "'svc env \<Rightarrow> u64 \<Rightarrow> 'svc node \<Rightarrow> 'svc node" where
  "touch_entry E n s = s\<lparr>nd_reqlog := std_touch (new_entry E) n (nd_reqlog s)\<rparr>"

definition update_entry ::
  "'svc env \<Rightarrow> u64 \<Rightarrow> (ReqLogEntry \<Rightarrow> ReqLogEntry) \<Rightarrow> 'svc node \<Rightarrow> 'svc node" where
  "update_entry E n f s = s\<lparr>nd_reqlog := std_set n (f (entry E n s)) (nd_reqlog s)\<rparr>"

definition in_window :: "u64 \<Rightarrow> 'svc node \<Rightarrow> bool" where
  "in_window n s \<longleftrightarrow> \<not> (n < nd_h s \<or> nd_H s < n)"

end
