(* ===== verification/Node_Checkpoint.thy ===== *)
theory Node_Checkpoint
  imports Node_State
begin

text \<open>
  The checkpoint section of \<open>src/node.cc\<close>: taking a checkpoint after an execution, collecting
  votes, advancing the watermarks, garbage collection.
\<close>

text \<open>\<open>checkpoints_[n].votes[digest].insert(id)\<close>\<close>

definition vote_set :: "u256 \<Rightarrow> CheckpointVotes \<Rightarrow> u32 set" where
  "vote_set d cv = (case map_of (cv_votes cv) d of None \<Rightarrow> {} | Some A \<Rightarrow> A)"

definition add_vote :: "u256 \<Rightarrow> u32 \<Rightarrow> CheckpointVotes \<Rightarrow> CheckpointVotes" where
  "add_vote d r cv = cv\<lparr>cv_votes := AList.update d (insert r (vote_set d cv)) (cv_votes cv)\<rparr>"

definition checkpoint_at :: "u64 \<Rightarrow> 'svc node \<Rightarrow> CheckpointVotes" where
  "checkpoint_at n s = (case nd_checkpoints s n of None \<Rightarrow> new_votes | Some cv \<Rightarrow> cv)"

definition make_checkpoint :: "'svc env \<Rightarrow> 'svc node \<Rightarrow> 'svc node" where
  "make_checkpoint E s =
     (let digest = svc_digest (env_service E) (nd_service s);
          s = broadcast E (WCheckpoint
                (CheckpointMsg_ctor (env_stream E) (nd_last_exec s) digest (nd_id s))) s;
          s = s\<lparr>nd_checkpoints := (nd_checkpoints s)
                (nd_last_exec s \<mapsto> add_vote digest (nd_id s) (checkpoint_at (nd_last_exec s) s))\<rparr>
      in emit [Log (LogStartCheckpoint digest)] s)"

definition advance_watermarks :: "u64 \<Rightarrow> 'svc node \<Rightarrow> 'svc node" where
  "advance_watermarks stable_seq s =
     (let s = s\<lparr>nd_h := stable_seq, nd_H := stable_seq + zext (nd_L s)\<rparr>
      in emit [Metric (SetWatermarks (nd_h s) (nd_H s))] s)"

definition recompute_highest_sequence :: "'svc node \<Rightarrow> u64" where
  "recompute_highest_sequence s =
     (let highest = max (nd_last_exec s) (nd_h s)
      in if nd_reqlog s = [] then highest else max highest (fst (last (nd_reqlog s))))"

definition garbage_collect :: "'svc node \<Rightarrow> 'svc node" where
  "garbage_collect s =
     s\<lparr>nd_reqlog := std_erase_if (\<lambda>k. k \<le> nd_h s) (nd_reqlog s),
       nd_checkpoints := (\<lambda>k. if k < nd_h s then None else nd_checkpoints s k)\<rparr>"

text \<open>The branch of \<open>on_checkpoint\<close> in which the checkpoint becomes stable.\<close>

definition stabilise :: "u64 \<Rightarrow> u256 \<Rightarrow> 'svc node \<Rightarrow> 'svc node" where
  "stabilise n d s =
     (let s = emit [Log (LogCheckpointAgreed (nd_view s) n d)] s;
          s = s\<lparr>nd_checkpoints := (nd_checkpoints s)(n \<mapsto> (checkpoint_at n s)\<lparr>cv_stable := True\<rparr>),
                nd_last_stable_digest := d\<rparr>;
          s = advance_watermarks n s;
          s = s\<lparr>nd_seq_num := recompute_highest_sequence s\<rparr>
      in garbage_collect s)"

declare stabilise_def [stable_defs] advance_watermarks_def [stable_defs] garbage_collect_def [stable_defs]

definition on_checkpoint :: "CheckpointMsg \<Rightarrow> 'svc node \<Rightarrow> 'svc node" where
  "on_checkpoint m s =
     (let s = emit [count_msg (WCheckpoint m) False] s
      in if ck_seq_num m < nd_h s then s
         else
           let cv = add_vote (ck_state_digest m) (ck_replica_id m) (checkpoint_at (ck_seq_num m) s);
               s = s\<lparr>nd_checkpoints := (nd_checkpoints s)(ck_seq_num m \<mapsto> cv)\<rparr>
           in if \<not> cv_stable cv \<and>
                 unat (2 * nd_f s + 1) \<le> card (vote_set (ck_state_digest m) cv)
              then stabilise (ck_seq_num m) (ck_state_digest m) s
              else s)"

end
