(* ===== verification/Node_Normal.thy ===== *)
theory Node_Normal
  imports Node_Checkpoint
begin

text \<open>
  Normal-case operation in \<open>src/node.cc\<close>: request, pre-prepare, prepare, commit and
  execution. The early returns of a handler are the branches of its definition, in the
  order of the code.
\<close>

section \<open>Execution\<close>

text \<open>One turn of the loop of \<open>try_execute\<close>, for the committed entry \<open>e\<close>.\<close>

definition execute_entry :: "'svc env \<Rightarrow> ReqLogEntry \<Rightarrow> 'svc node \<Rightarrow> 'svc node" where
  "execute_entry E e s =
     (let (svc, result) = svc_execute (env_service E) (nd_service s) (rq_operation (re_req e));
          s = s\<lparr>nd_service := svc\<rparr>;
          reply = ReplyMsg_ctor (env_stream E) (nd_view s) (rq_timestamp (re_req e))
                    (rq_client_id (re_req e)) (nd_id s) result;
          s = send_to_client E (rq_client_id (re_req e)) (WReply reply) s;
          cache_reply = \<lparr>cri_timestamp = rp_timestamp reply, cri_replica_id = rp_replica_id reply,
                         cri_result = rp_result reply\<rparr>;
          s = s\<lparr>nd_last_replies := (nd_last_replies s)(rq_client_id (re_req e) \<mapsto> cache_reply),
                nd_last_exec := nd_last_exec s + 1\<rparr>;
          s = emit [Log (LogExecuted (re_view e) (rq_operation (re_req e)) (re_seq e)
                (re_digest e))] s;
          s = manage_timer s
      in if nd_K s = 0 then emit [Trap DivisionByZero] s
         else if nd_last_exec s mod zext (nd_K s) = 0 then make_checkpoint E s
         else s)"

text \<open>
  The loop. Every turn reads the entry \<open>last_exec_ + 1\<close> and no turn changes the log, so a log
  that misses some sequence number ends the loop; \<open>try_execute\<close> supplies one unit of fuel more
  than the log has entries, which is enough (theory \<open>Node_Execution\<close>).
\<close>

fun execute_loop :: "nat \<Rightarrow> 'svc env \<Rightarrow> 'svc node \<Rightarrow> 'svc node" where
  "execute_loop 0 E s = s"
| "execute_loop (Suc fuel) E s =
     (case std_find (nd_reqlog s) (nd_last_exec s + 1) of
        None \<Rightarrow> s
      | Some e \<Rightarrow>
          if re_stage e \<noteq> COMMITTED then s
          else execute_loop fuel E (execute_entry E e s))"

definition try_execute :: "'svc env \<Rightarrow> 'svc node \<Rightarrow> 'svc node" where
  "try_execute E s = execute_loop (Suc (length (nd_reqlog s))) E s"

section \<open>Commit\<close>

definition try_commit :: "'svc env \<Rightarrow> u64 \<Rightarrow> 'svc node \<Rightarrow> 'svc node" where
  "try_commit E n s =
     (let e = entry E n s
      in if re_stage e = PREPARED \<and> unat (2 * nd_f s + 1) \<le> card (re_commits e) then
           let s = emit [Log (LogCommitted (re_view e) (rq_operation (re_req e)) (re_seq e)
                           (re_digest e)),
                         Metric (ObservePhase ''commit'' (env_elapsed E ''commit'' n))] s;
               s = update_entry E n (\<lambda>e. e\<lparr>re_stage := COMMITTED\<rparr>) s
           in try_execute E s
         else s)"

definition on_commit :: "'svc env \<Rightarrow> CommitMsg \<Rightarrow> 'svc node \<Rightarrow> 'svc node" where
  "on_commit E m s =
     (let s = emit [count_msg (WCommit m) False] s
      in if nd_view_changing s then s
         else if cm_view m \<noteq> nd_view s then s
         else if \<not> in_window (cm_seq_num m) s then s
         else
           let n = cm_seq_num m; s = touch_entry E n s
           in if re_digest (entry E n s) \<noteq> cm_req_digest m then s
              else
                let s = update_entry E n
                          (\<lambda>e. e\<lparr>re_commits := insert (cm_replica_id m) (re_commits e)\<rparr>) s
                in try_commit E n s)"

section \<open>Prepare\<close>

definition try_prepare :: "'svc env \<Rightarrow> u64 \<Rightarrow> 'svc node \<Rightarrow> 'svc node" where
  "try_prepare E n s =
     (let e = entry E n s
      in if re_stage e = PRE_PREPARED \<and> re_has_preprepare e \<and>
            unat (2 * nd_f s) \<le> card (re_prepares e) then
           let s = emit [Log (LogPrepared (re_view e) (rq_operation (re_req e)) (re_seq e)
                           (re_digest e)),
                         Metric (ObservePhase ''prepared'' (env_elapsed E ''prepared'' n))] s;
               s = update_entry E n (\<lambda>e. e\<lparr>re_stage := PREPARED\<rparr>) s;
               s = broadcast E (WCommit (CommitMsg_ctor (env_stream E) (nd_view s) (re_seq e)
                     (re_digest e) (nd_id s))) s;
               s = update_entry E n (\<lambda>e. e\<lparr>re_commits := insert (nd_id s) (re_commits e)\<rparr>) s
           in try_commit E n s
         else s)"

definition on_prepare :: "'svc env \<Rightarrow> PrepareMsg \<Rightarrow> conn \<Rightarrow> 'svc node \<Rightarrow> 'svc node" where
  "on_prepare E m c s =
     (let s = emit [count_msg (WPrepare m) False] s
      in if primary_undefined c s then emit [Trap DivisionByZero] s
         else if comes_from_primary c s then s
         else if nd_view_changing s then s
         else if pr_view m \<noteq> nd_view s then s
         else if \<not> in_window (pr_seq_num m) s then s
         else
           let n = pr_seq_num m; s = touch_entry E n s; e = entry E n s
           in if re_has_preprepare e \<and> re_digest e \<noteq> pr_req_digest m then s
              else
                let s = emit [Log (LogPrepareAccepted (re_digest e) (pr_req_digest m))] s;
                    s = update_entry E n
                          (\<lambda>e. e\<lparr>re_prepares := insert (pr_replica_id m) (re_prepares e)\<rparr>) s
                in try_prepare E n s)"

section \<open>Pre-prepare\<close>

text \<open>The part of \<open>on_preprepare_impl\<close> after the discard criteria.\<close>

definition accept_preprepare :: "'svc env \<Rightarrow> PrePrepareMsg \<Rightarrow> 'svc node \<Rightarrow> 'svc node" where
  "accept_preprepare E m s =
     (let n = pp_seq_num m; s = touch_entry E n s; e = entry E n s
      in if re_has_preprepare e \<and> re_digest e \<noteq> pp_req_digest m then s
         else
           let s = emit [Log (LogPrePrepareAccepted (re_digest e) (pp_req_digest m))] s;
               s = start_timer_if_not_running s;
               s = update_entry E n (\<lambda>e. e\<lparr>re_view := pp_view m, re_seq := pp_seq_num m,
                     re_digest := pp_req_digest m, re_req := pp_req m,
                     re_has_preprepare := True, re_stage := PRE_PREPARED\<rparr>) s;
               s = broadcast E (WPrepare (PrepareMsg_ctor (env_stream E) (nd_view s)
                     (pp_seq_num m) (pp_req_digest m) (nd_id s))) s;
               s = update_entry E n (\<lambda>e. e\<lparr>re_prepares := insert (nd_id s) (re_prepares e)\<rparr>) s
           in try_prepare E n s)"

definition on_preprepare_impl ::
  "'svc env \<Rightarrow> PrePrepareMsg \<Rightarrow> conn \<Rightarrow> bool \<Rightarrow> 'svc node \<Rightarrow> 'svc node" where
  "on_preprepare_impl E m c from_self s =
     (let s = (if from_self then s else emit [count_msg (WPrePrepare m) False] s)
      in if \<not> from_self \<and> primary_undefined c s then emit [Trap DivisionByZero] s
         else if \<not> from_self \<and> \<not> comes_from_primary c s then s
         else if nd_view_changing s then s
         else if pp_view m \<noteq> nd_view s then s
         else if \<not> in_window (pp_seq_num m) s then s
         else accept_preprepare E m s)"

definition on_preprepare :: "'svc env \<Rightarrow> PrePrepareMsg \<Rightarrow> conn \<Rightarrow> 'svc node \<Rightarrow> 'svc node" where
  "on_preprepare E m c s = on_preprepare_impl E m c False s"

section \<open>Request\<close>

definition in_progress :: "RequestMsg \<Rightarrow> 'svc node \<Rightarrow> bool" where
  "in_progress m s \<longleftrightarrow>
     list_ex (\<lambda>(k, e). re_has_preprepare e \<and> rq_client_id (re_req e) = rq_client_id m \<and>
       rq_timestamp (re_req e) = rq_timestamp m) (nd_reqlog s)"

text \<open>The primary assigns the next sequence number and starts the three phases.\<close>

definition assign_request :: "'svc env \<Rightarrow> RequestMsg \<Rightarrow> 'svc node \<Rightarrow> 'svc node" where
  "assign_request E m s =
     (let s = s\<lparr>nd_seq_num := nd_seq_num s + 1\<rparr>; n = nd_seq_num s;
          s = emit [Log (LogRequestAccepted (nd_view s) (rq_operation m) n)] s;
          s = update_entry E n (\<lambda>e. e\<lparr>re_view := nd_view s, re_seq := n, re_req := m,
                re_digest := env_hash_request E m, re_has_preprepare := True,
                re_stage := PRE_PREPARED\<rparr>) s;
          s = broadcast E (WPrePrepare (PrePrepareMsg_ctor (env_stream E) (nd_view s) n
                (env_hash_request E m) m)) s;
          s = update_entry E n (\<lambda>e. e\<lparr>re_prepares := insert (nd_id s) (re_prepares e)\<rparr>) s
      in emit [Metric (SetInflight (nd_seq_num s - nd_last_exec s))] s)"

definition on_request :: "'svc env \<Rightarrow> RequestMsg \<Rightarrow> 'svc node \<Rightarrow> 'svc node" where
  "on_request E m s =
     (let s = emit [count_msg (WRequest m) False] s;
          cached = (case nd_last_replies s (rq_client_id m) of
                      None \<Rightarrow> None
                    | Some info \<Rightarrow> if cri_timestamp info = rq_timestamp m then Some info else None)
      in case cached of
           Some info \<Rightarrow>
             send_to_client E (rq_client_id m) (WReply (ReplyMsg_ctor (env_stream E) (nd_view s)
               (rq_timestamp m) (rq_client_id m) (nd_id s) (cri_result info))) s
         | None \<Rightarrow>
             if nd_view_changing s then s
             else if nd_n s = 0 then emit [Trap DivisionByZero] s
             else if is_primary s then
               if nd_seq_num s < nd_h s \<or> nd_H s \<le> nd_seq_num s then s
               else if in_progress m s then s
               else assign_request E m s
             else
               let s = start_timer_if_not_running s
               in send_to_replica E (primary s) (WRequest (RequestMsg_ctor (env_stream E)
                    (rq_operation m) (rq_timestamp m) (rq_client_id m))) s)"

declare on_request_def [request_defs] assign_request_def [request_defs] send_to_client_def [request_defs]
  send_to_replica_def [request_defs]

end
