(* ===== verification/Node_View_Change.thy ===== *)
theory Node_View_Change
  imports Node_Normal
begin

text \<open>
  The view-change section of \<open>src/node.cc\<close>, the dispatch of \<open>register_handlers\<close>, and the events
  that drive a node.
\<close>

section \<open>Leaving a view\<close>

text \<open>
  The C set: the votes for the last stable checkpoint, digest by digest, up to the first
  digest with a quorum.
\<close>

fun checkpoint_set ::
  "data_stream \<Rightarrow> u32 \<Rightarrow> u64 \<Rightarrow> (u256 \<times> u32 set) list \<Rightarrow> CheckpointMsg list" where
  "checkpoint_set D f n [] = []"
| "checkpoint_set D f n ((d, A) # votes) =
     map (CheckpointMsg_ctor D n d) (sorted_list_of_set A) @
     (if unat (2 * f + 1) \<le> card A then [] else checkpoint_set D f n votes)"

text \<open>The P set: the entries in stage \<open>PREPARED\<close>.\<close>

definition prepared_set :: "'svc node \<Rightarrow> PrepareProof list" where
  "prepared_set s =
     [PrepareProof_ctor (re_view e) (re_seq e) (re_digest e).
        (k, e) \<leftarrow> nd_reqlog s, re_stage e = PREPARED]"

section \<open>Entering a view\<close>

definition min_seq :: "ViewChangeMsg list \<Rightarrow> u64" where
  "min_seq V = fold (\<lambda>vc m. max m (vc_last_stable_checkpoint vc)) V 0"

definition max_seq :: "u64 \<Rightarrow> ViewChangeMsg list \<Rightarrow> u64" where
  "max_seq start V =
     fold (\<lambda>vc m. fold (\<lambda>p m. max m (pf_seq_num p)) (vc_prepared_proofs vc) m) V start"

text \<open>
  The sequence numbers of \<open>for (uint64_t n = min_s + 1; n <= max_s; n++)\<close>: with \<open>max_s\<close> the
  largest 64-bit number the condition is always true, and there is no end.
\<close>

definition seq_range :: "u64 \<Rightarrow> u64 \<Rightarrow> u64 list option" where
  "seq_range min_s max_s =
     (if max_s = - 1 then None
      else Some (map of_nat [unat (min_s + 1) ..< Suc (unat max_s)]))"

text \<open>The choice of a proof for \<open>n\<close>: \<open>highest_view\<close> starts at 0 and only a larger view wins.\<close>

definition choose_step :: "u64 \<Rightarrow> PrepareProof \<Rightarrow> u32 \<times> u256 option \<Rightarrow> u32 \<times> u256 option" where
  "choose_step n p acc =
     (if pf_seq_num p = n \<and> fst acc < pf_view p then (pf_view p, Some (pf_digest p)) else acc)"

definition choose_proof :: "u64 \<Rightarrow> ViewChangeMsg list \<Rightarrow> u256 option" where
  "choose_proof n V = snd (fold (\<lambda>vc. fold (choose_step n) (vc_prepared_proofs vc)) V (0, None))"

definition new_preprepare :: "'svc env \<Rightarrow> u64 \<Rightarrow> ViewChangeMsg list \<Rightarrow> u64 \<Rightarrow> PrePrepareMsg" where
  "new_preprepare E next_view V n =
     (let null_req = RequestMsg_ctor (env_stream E) [] 0 0
      in case choose_proof n V of
           Some d \<Rightarrow> PrePrepareMsg_ctor (env_stream E) (trunc next_view) n d null_req
         | None \<Rightarrow>
             PrePrepareMsg_ctor (env_stream E) (trunc next_view) n (env_hash_string E []) null_req)"

text \<open>The O set.\<close>

definition new_view_set ::
  "'svc env \<Rightarrow> u64 \<Rightarrow> ViewChangeMsg list \<Rightarrow> PrePrepareMsg list option" where
  "new_view_set E next_view V =
     map_option (map (new_preprepare E next_view V)) (seq_range (min_seq V) (max_seq 0 V))"

definition store_view_change :: "ViewChangeMsg \<Rightarrow> 'svc node \<Rightarrow> 'svc node" where
  "store_view_change m s =
     (let v = trunc (vc_next_view m);
          vcs = std_set (vc_replica_id m) m (std_ref [] (nd_view_change_store s) v)
      in s\<lparr>nd_view_change_store := std_set v vcs (nd_view_change_store s)\<rparr>)"

text \<open>The new primary announces the view and enters it.\<close>

definition enter_view :: "'svc env \<Rightarrow> u64 \<Rightarrow> ViewChangeMsg list \<Rightarrow> PrePrepareMsg list \<Rightarrow>
  'svc node \<Rightarrow> 'svc node" where
  "enter_view E next_view V O' s =
     (let s = broadcast E (WNewView (NewViewMsg_ctor (env_stream E) (trunc next_view) V O')) s;
          s = s\<lparr>nd_view_changing := False, nd_view := trunc next_view\<rparr>;
          s = emit [Metric (SetView (nd_view s))] s;
          s = s\<lparr>nd_view_change_timeout_count := 0\<rparr>;
          s = s\<lparr>nd_seq_num := recompute_highest_sequence s\<rparr>
      in manage_timer s)"

definition on_viewchange :: "'svc env \<Rightarrow> ViewChangeMsg \<Rightarrow> 'svc node \<Rightarrow> 'svc node" where
  "on_viewchange E m s =
     (let s = emit [count_msg (WViewChange m) False] s
      in if vc_next_view m < zext (nd_view s) then s
         else if nd_n s = 0 then emit [Trap DivisionByZero] s
         else if vc_next_view m mod zext (nd_n s) \<noteq> zext (nd_id s) then s
         else
           let s = store_view_change m s;
               vcs = std_ref [] (nd_view_change_store s) (trunc (vc_next_view m))
           in if unat (2 * nd_f s + 1) \<le> length vcs then
                let V = map snd vcs
                in case new_view_set E (vc_next_view m) V of
                     None \<Rightarrow> emit [Trap EndlessLoop] s
                   | Some O' \<Rightarrow> enter_view E (vc_next_view m) V O' s
              else s)"

declare on_viewchange_def [viewchange_defs] store_view_change_def [viewchange_defs] enter_view_def [viewchange_defs]

definition start_view_change :: "'svc env \<Rightarrow> 'svc node \<Rightarrow> 'svc node" where
  "start_view_change E s =
     (let s = s\<lparr>nd_view_changing := True\<rparr>;
          s = emit [Metric (IncViewChange ''timeout'')] s;
          next_view = zext (nd_view s + 1);
          s = s\<lparr>nd_view_change_timeout_count := nd_view_change_timeout_count s + 1\<rparr>;
          s = emit [Log (LogViewChange next_view)] s;
          s = stop_timer s;
          last_stable_checkpoint = trunc (nd_h s);
          C = (case nd_checkpoints s (zext last_stable_checkpoint) of
                 None \<Rightarrow> []
               | Some cv \<Rightarrow> checkpoint_set (env_stream E) (nd_f s) (zext last_stable_checkpoint)
                              (cv_votes cv));
          P = prepared_set s;
          vc = ViewChangeMsg_ctor (env_stream E) (trunc next_view) (zext last_stable_checkpoint)
                 (nd_id s) C P;
          s = broadcast E (WViewChange vc) s
      in on_viewchange E vc s)"

definition on_newview :: "'svc env \<Rightarrow> NewViewMsg \<Rightarrow> conn \<Rightarrow> 'svc node \<Rightarrow> 'svc node" where
  "on_newview E m c s =
     (let s = emit [count_msg (WNewView m) False] s
      in if primary_undefined c s then emit [Trap DivisionByZero] s
         else if \<not> comes_from_primary_of c (trunc (nv_next_view m)) s then s
         else if \<not> nd_view_changing s \<or> nv_next_view m \<le> zext (nd_view s) then s
         else if length (nv_view_changes m) < unat (2 * nd_f s + 1) then s
         else
           let min_s = min_seq (nv_view_changes m);
               max_s = max_seq min_s (nv_view_changes m)
           in if length (nv_pre_prepares m) \<noteq> unat (max_s - min_s) then s
              else
                let s = s\<lparr>nd_view_changing := False, nd_view := trunc (nv_next_view m)\<rparr>;
                    s = emit [Metric (SetView (nd_view s))] s;
                    s = s\<lparr>nd_view_change_timeout_count := 0\<rparr>;
                    s = fold (\<lambda>pp. on_preprepare_impl E pp c True) (nv_pre_prepares m) s;
                    s = s\<lparr>nd_seq_num := recompute_highest_sequence s\<rparr>
                in manage_timer s)"

section \<open>Events\<close>

text \<open>
  What can happen to a node: a connection comes up, a message arrives, the timer fires, the
  application adds a peer or a client. \<open>Deliver\<close> is the dispatch of \<open>register_handlers\<close>; a reply
  has no handler in a node.
\<close>

datatype event =
    Deliver conn wire
  | Connection conn bool
  | Timeout
  | AddReplica u32 conn
  | AddClient u32 conn

fun deliver :: "'svc env \<Rightarrow> conn \<Rightarrow> wire \<Rightarrow> 'svc node \<Rightarrow> 'svc node" where
  "deliver E c (WHandshake m) s = on_handshake m c s"
| "deliver E c (WRequest m) s = on_request E m s"
| "deliver E c (WPrePrepare m) s = on_preprepare E m c s"
| "deliver E c (WPrepare m) s = on_prepare E m c s"
| "deliver E c (WCommit m) s = on_commit E m s"
| "deliver E c (WCheckpoint m) s = on_checkpoint m s"
| "deliver E c (WViewChange m) s = on_viewchange E m s"
| "deliver E c (WNewView m) s = on_newview E m c s"
| "deliver E c (WReply m) s = s"

fun step :: "'svc env \<Rightarrow> event \<Rightarrow> 'svc node \<Rightarrow> 'svc node" where
  "step E (Deliver c w) s = deliver E c w s"
| "step E (Connection c b) s = on_connection E c b s"
| "step E Timeout s = start_view_change E s"
| "step E (AddReplica i c) s = add_replica i c s"
| "step E (AddClient i c) s = add_client i c s"

end
