(* ===== verification/Node_Frames.thy ===== *)
theory Node_Frames
  imports Node_View_Change
begin

text \<open>
  What each operation leaves alone. The elementary operations rewrite to updates of a few
  fields, so that the simplifier computes any other field of a composed handler; the lemmas
  about the output list say which kinds of action an operation can add.
\<close>

section \<open>Output operations\<close>

lemma nd_out_emit [simp]: "nd_out (emit acts s) = nd_out s @ acts"
  by (simp add: emit_def)

lemma emit_Nil: "emit [] s = s"
  by (simp add: emit_def)

lemma emit_emit: "emit acts' (emit acts s) = emit (acts @ acts') s"
  by (simp add: emit_def)

lemma emit_sel [simp]:
  "nd_id (emit acts s) = nd_id s"
  "nd_n (emit acts s) = nd_n s"
  "nd_f (emit acts s) = nd_f s"
  "nd_peers (emit acts s) = nd_peers s"
  "nd_conn_to_peer (emit acts s) = nd_conn_to_peer s"
  "nd_clients (emit acts s) = nd_clients s"
  "nd_view (emit acts s) = nd_view s"
  "nd_seq_num (emit acts s) = nd_seq_num s"
  "nd_last_exec (emit acts s) = nd_last_exec s"
  "nd_L (emit acts s) = nd_L s"
  "nd_K (emit acts s) = nd_K s"
  "nd_h (emit acts s) = nd_h s"
  "nd_H (emit acts s) = nd_H s"
  "nd_reqlog (emit acts s) = nd_reqlog s"
  "nd_last_replies (emit acts s) = nd_last_replies s"
  "nd_vc_timeout (emit acts s) = nd_vc_timeout s"
  "nd_view_changing (emit acts s) = nd_view_changing s"
  "nd_view_change_store (emit acts s) = nd_view_change_store s"
  "nd_view_change_timeout_count (emit acts s) = nd_view_change_timeout_count s"
  "nd_checkpoints (emit acts s) = nd_checkpoints s"
  "nd_last_stable_digest (emit acts s) = nd_last_stable_digest s"
  "nd_timer_running (emit acts s) = nd_timer_running s"
  "nd_service (emit acts s) = nd_service s"
  by (simp_all add: emit_def)

definition broadcast_sends :: "'svc env \<Rightarrow> wire \<Rightarrow> 'svc node \<Rightarrow> action list" where
  "broadcast_sends E w s = [Send c w. (i, c) \<leftarrow> nd_peers s, i \<noteq> nd_id s \<and> env_conn_ok E c]"

lemma in_broadcast_sends [simp]:
  "a \<in> set (broadcast_sends E w s) \<longleftrightarrow>
     (\<exists>i c. (i, c) \<in> set (nd_peers s) \<and> i \<noteq> nd_id s \<and> env_conn_ok E c \<and> a = Send c w)"
  by (auto simp: broadcast_sends_def split: if_splits)

lemma nd_out_broadcast [simp]:
  "nd_out (broadcast E w s) = nd_out s @ count_msg w True # broadcast_sends E w s"
  by (simp add: broadcast_def broadcast_sends_def)

lemma broadcast_sel [simp]:
  "nd_id (broadcast E w s) = nd_id s"
  "nd_n (broadcast E w s) = nd_n s"
  "nd_f (broadcast E w s) = nd_f s"
  "nd_peers (broadcast E w s) = nd_peers s"
  "nd_conn_to_peer (broadcast E w s) = nd_conn_to_peer s"
  "nd_clients (broadcast E w s) = nd_clients s"
  "nd_view (broadcast E w s) = nd_view s"
  "nd_seq_num (broadcast E w s) = nd_seq_num s"
  "nd_last_exec (broadcast E w s) = nd_last_exec s"
  "nd_L (broadcast E w s) = nd_L s"
  "nd_K (broadcast E w s) = nd_K s"
  "nd_h (broadcast E w s) = nd_h s"
  "nd_H (broadcast E w s) = nd_H s"
  "nd_reqlog (broadcast E w s) = nd_reqlog s"
  "nd_last_replies (broadcast E w s) = nd_last_replies s"
  "nd_vc_timeout (broadcast E w s) = nd_vc_timeout s"
  "nd_view_changing (broadcast E w s) = nd_view_changing s"
  "nd_view_change_store (broadcast E w s) = nd_view_change_store s"
  "nd_view_change_timeout_count (broadcast E w s) = nd_view_change_timeout_count s"
  "nd_checkpoints (broadcast E w s) = nd_checkpoints s"
  "nd_last_stable_digest (broadcast E w s) = nd_last_stable_digest s"
  "nd_timer_running (broadcast E w s) = nd_timer_running s"
  "nd_service (broadcast E w s) = nd_service s"
  by (simp_all add: broadcast_def)

definition via_sends :: "'svc env \<Rightarrow> conn option \<Rightarrow> wire \<Rightarrow> action list" where
  "via_sends E co w = (case co of None \<Rightarrow> [] | Some c \<Rightarrow> if env_conn_ok E c then [Send c w] else [])"

lemma in_via_sends [simp]:
  "a \<in> set (via_sends E co w) \<longleftrightarrow> (\<exists>c. co = Some c \<and> env_conn_ok E c \<and> a = Send c w)"
  by (auto simp: via_sends_def split: option.splits)

lemma nd_out_send_via [simp]:
  "nd_out (send_via E co w s) = nd_out s @ count_msg w True # via_sends E co w"
  by (simp add: send_via_def via_sends_def)

lemma send_via_sel [simp]:
  "nd_id (send_via E co w s) = nd_id s"
  "nd_n (send_via E co w s) = nd_n s"
  "nd_f (send_via E co w s) = nd_f s"
  "nd_peers (send_via E co w s) = nd_peers s"
  "nd_conn_to_peer (send_via E co w s) = nd_conn_to_peer s"
  "nd_clients (send_via E co w s) = nd_clients s"
  "nd_view (send_via E co w s) = nd_view s"
  "nd_seq_num (send_via E co w s) = nd_seq_num s"
  "nd_last_exec (send_via E co w s) = nd_last_exec s"
  "nd_L (send_via E co w s) = nd_L s"
  "nd_K (send_via E co w s) = nd_K s"
  "nd_h (send_via E co w s) = nd_h s"
  "nd_H (send_via E co w s) = nd_H s"
  "nd_reqlog (send_via E co w s) = nd_reqlog s"
  "nd_last_replies (send_via E co w s) = nd_last_replies s"
  "nd_vc_timeout (send_via E co w s) = nd_vc_timeout s"
  "nd_view_changing (send_via E co w s) = nd_view_changing s"
  "nd_view_change_store (send_via E co w s) = nd_view_change_store s"
  "nd_view_change_timeout_count (send_via E co w s) = nd_view_change_timeout_count s"
  "nd_checkpoints (send_via E co w s) = nd_checkpoints s"
  "nd_last_stable_digest (send_via E co w s) = nd_last_stable_digest s"
  "nd_timer_running (send_via E co w s) = nd_timer_running s"
  "nd_service (send_via E co w s) = nd_service s"
  by (simp_all add: send_via_def)

section \<open>Timer operations\<close>

definition is_timer_act :: "action \<Rightarrow> bool" where
  "is_timer_act a \<longleftrightarrow> a = TimerDel \<or> a = Trap ShiftTooFar \<or> (\<exists>x. a = TimerAdd x)"

lemma is_timer_act_simps [simp]:
  "is_timer_act TimerDel" "is_timer_act (TimerAdd x)" "\<not> is_timer_act (Send c w)"
  "\<not> is_timer_act (Metric mc)" "\<not> is_timer_act (Log l)"
  "is_timer_act (Trap t) \<longleftrightarrow> t = ShiftTooFar"
  by (auto simp: is_timer_act_def)

lemma start_timer_if_not_running_sel [simp]:
  "nd_id (start_timer_if_not_running s) = nd_id s"
  "nd_n (start_timer_if_not_running s) = nd_n s"
  "nd_f (start_timer_if_not_running s) = nd_f s"
  "nd_peers (start_timer_if_not_running s) = nd_peers s"
  "nd_conn_to_peer (start_timer_if_not_running s) = nd_conn_to_peer s"
  "nd_clients (start_timer_if_not_running s) = nd_clients s"
  "nd_view (start_timer_if_not_running s) = nd_view s"
  "nd_seq_num (start_timer_if_not_running s) = nd_seq_num s"
  "nd_last_exec (start_timer_if_not_running s) = nd_last_exec s"
  "nd_L (start_timer_if_not_running s) = nd_L s"
  "nd_K (start_timer_if_not_running s) = nd_K s"
  "nd_h (start_timer_if_not_running s) = nd_h s"
  "nd_H (start_timer_if_not_running s) = nd_H s"
  "nd_reqlog (start_timer_if_not_running s) = nd_reqlog s"
  "nd_last_replies (start_timer_if_not_running s) = nd_last_replies s"
  "nd_vc_timeout (start_timer_if_not_running s) = nd_vc_timeout s"
  "nd_view_changing (start_timer_if_not_running s) = nd_view_changing s"
  "nd_view_change_store (start_timer_if_not_running s) = nd_view_change_store s"
  "nd_view_change_timeout_count (start_timer_if_not_running s) = nd_view_change_timeout_count s"
  "nd_checkpoints (start_timer_if_not_running s) = nd_checkpoints s"
  "nd_last_stable_digest (start_timer_if_not_running s) = nd_last_stable_digest s"
  "nd_service (start_timer_if_not_running s) = nd_service s"
  by (simp_all add: start_timer_if_not_running_def)

lemma in_out_start_timer_if_not_running:
  "\<not> is_timer_act a \<Longrightarrow> a \<in> set (nd_out (start_timer_if_not_running s)) \<longleftrightarrow> a \<in> set (nd_out s)"
  by (auto simp: start_timer_if_not_running_def)

lemma stop_timer_sel [simp]:
  "nd_id (stop_timer s) = nd_id s"
  "nd_n (stop_timer s) = nd_n s"
  "nd_f (stop_timer s) = nd_f s"
  "nd_peers (stop_timer s) = nd_peers s"
  "nd_conn_to_peer (stop_timer s) = nd_conn_to_peer s"
  "nd_clients (stop_timer s) = nd_clients s"
  "nd_view (stop_timer s) = nd_view s"
  "nd_seq_num (stop_timer s) = nd_seq_num s"
  "nd_last_exec (stop_timer s) = nd_last_exec s"
  "nd_L (stop_timer s) = nd_L s"
  "nd_K (stop_timer s) = nd_K s"
  "nd_h (stop_timer s) = nd_h s"
  "nd_H (stop_timer s) = nd_H s"
  "nd_reqlog (stop_timer s) = nd_reqlog s"
  "nd_last_replies (stop_timer s) = nd_last_replies s"
  "nd_vc_timeout (stop_timer s) = nd_vc_timeout s"
  "nd_view_changing (stop_timer s) = nd_view_changing s"
  "nd_view_change_store (stop_timer s) = nd_view_change_store s"
  "nd_view_change_timeout_count (stop_timer s) = nd_view_change_timeout_count s"
  "nd_checkpoints (stop_timer s) = nd_checkpoints s"
  "nd_last_stable_digest (stop_timer s) = nd_last_stable_digest s"
  "nd_service (stop_timer s) = nd_service s"
  by (simp_all add: stop_timer_def)

lemma in_out_stop_timer:
  "\<not> is_timer_act a \<Longrightarrow> a \<in> set (nd_out (stop_timer s)) \<longleftrightarrow> a \<in> set (nd_out s)"
  by (auto simp: stop_timer_def)

lemma manage_timer_sel [simp]:
  "nd_id (manage_timer s) = nd_id s"
  "nd_n (manage_timer s) = nd_n s"
  "nd_f (manage_timer s) = nd_f s"
  "nd_peers (manage_timer s) = nd_peers s"
  "nd_conn_to_peer (manage_timer s) = nd_conn_to_peer s"
  "nd_clients (manage_timer s) = nd_clients s"
  "nd_view (manage_timer s) = nd_view s"
  "nd_seq_num (manage_timer s) = nd_seq_num s"
  "nd_last_exec (manage_timer s) = nd_last_exec s"
  "nd_L (manage_timer s) = nd_L s"
  "nd_K (manage_timer s) = nd_K s"
  "nd_h (manage_timer s) = nd_h s"
  "nd_H (manage_timer s) = nd_H s"
  "nd_reqlog (manage_timer s) = nd_reqlog s"
  "nd_last_replies (manage_timer s) = nd_last_replies s"
  "nd_vc_timeout (manage_timer s) = nd_vc_timeout s"
  "nd_view_changing (manage_timer s) = nd_view_changing s"
  "nd_view_change_store (manage_timer s) = nd_view_change_store s"
  "nd_view_change_timeout_count (manage_timer s) = nd_view_change_timeout_count s"
  "nd_checkpoints (manage_timer s) = nd_checkpoints s"
  "nd_last_stable_digest (manage_timer s) = nd_last_stable_digest s"
  "nd_service (manage_timer s) = nd_service s"
  by (simp_all add: manage_timer_def)

lemma in_out_manage_timer:
  "\<not> is_timer_act a \<Longrightarrow> a \<in> set (nd_out (manage_timer s)) \<longleftrightarrow> a \<in> set (nd_out s)"
  by (auto simp: manage_timer_def in_out_stop_timer in_out_start_timer_if_not_running)

lemmas in_out_timer [simp] =
  in_out_start_timer_if_not_running in_out_stop_timer in_out_manage_timer

section \<open>Log access\<close>

lemma nd_reqlog_update_entry [simp]:
  "nd_reqlog (update_entry E n g s) = std_set n (g (entry E n s)) (nd_reqlog s)"
  by (simp add: update_entry_def)

lemma nd_reqlog_touch_entry [simp]:
  "nd_reqlog (touch_entry E n s) = std_set n (entry E n s) (nd_reqlog s)"
  by (simp add: touch_entry_def std_touch_def entry_def)

lemma update_entry_sel [simp]:
  "nd_id (update_entry E n g s) = nd_id s"
  "nd_n (update_entry E n g s) = nd_n s"
  "nd_f (update_entry E n g s) = nd_f s"
  "nd_peers (update_entry E n g s) = nd_peers s"
  "nd_conn_to_peer (update_entry E n g s) = nd_conn_to_peer s"
  "nd_clients (update_entry E n g s) = nd_clients s"
  "nd_view (update_entry E n g s) = nd_view s"
  "nd_seq_num (update_entry E n g s) = nd_seq_num s"
  "nd_last_exec (update_entry E n g s) = nd_last_exec s"
  "nd_L (update_entry E n g s) = nd_L s"
  "nd_K (update_entry E n g s) = nd_K s"
  "nd_h (update_entry E n g s) = nd_h s"
  "nd_H (update_entry E n g s) = nd_H s"
  "nd_last_replies (update_entry E n g s) = nd_last_replies s"
  "nd_vc_timeout (update_entry E n g s) = nd_vc_timeout s"
  "nd_view_changing (update_entry E n g s) = nd_view_changing s"
  "nd_view_change_store (update_entry E n g s) = nd_view_change_store s"
  "nd_view_change_timeout_count (update_entry E n g s) = nd_view_change_timeout_count s"
  "nd_checkpoints (update_entry E n g s) = nd_checkpoints s"
  "nd_last_stable_digest (update_entry E n g s) = nd_last_stable_digest s"
  "nd_timer_running (update_entry E n g s) = nd_timer_running s"
  "nd_service (update_entry E n g s) = nd_service s"
  "nd_out (update_entry E n g s) = nd_out s"
  by (simp_all add: update_entry_def)

lemma touch_entry_sel [simp]:
  "nd_id (touch_entry E n s) = nd_id s"
  "nd_n (touch_entry E n s) = nd_n s"
  "nd_f (touch_entry E n s) = nd_f s"
  "nd_peers (touch_entry E n s) = nd_peers s"
  "nd_conn_to_peer (touch_entry E n s) = nd_conn_to_peer s"
  "nd_clients (touch_entry E n s) = nd_clients s"
  "nd_view (touch_entry E n s) = nd_view s"
  "nd_seq_num (touch_entry E n s) = nd_seq_num s"
  "nd_last_exec (touch_entry E n s) = nd_last_exec s"
  "nd_L (touch_entry E n s) = nd_L s"
  "nd_K (touch_entry E n s) = nd_K s"
  "nd_h (touch_entry E n s) = nd_h s"
  "nd_H (touch_entry E n s) = nd_H s"
  "nd_last_replies (touch_entry E n s) = nd_last_replies s"
  "nd_vc_timeout (touch_entry E n s) = nd_vc_timeout s"
  "nd_view_changing (touch_entry E n s) = nd_view_changing s"
  "nd_view_change_store (touch_entry E n s) = nd_view_change_store s"
  "nd_view_change_timeout_count (touch_entry E n s) = nd_view_change_timeout_count s"
  "nd_checkpoints (touch_entry E n s) = nd_checkpoints s"
  "nd_last_stable_digest (touch_entry E n s) = nd_last_stable_digest s"
  "nd_timer_running (touch_entry E n s) = nd_timer_running s"
  "nd_service (touch_entry E n s) = nd_service s"
  "nd_out (touch_entry E n s) = nd_out s"
  by (simp_all add: touch_entry_def)

lemma entry_cong: "nd_reqlog s = nd_reqlog t \<Longrightarrow> entry E n s = entry E n t"
  by (simp add: entry_def)

lemma entry_update_entry [simp]:
  "entry E m (update_entry E n g s) = (if m = n then g (entry E n s) else entry E m s)"
  by (simp add: entry_def)

lemma entry_touch_entry [simp]: "entry E m (touch_entry E n s) = entry E m s"
  by (simp add: entry_def)

lemma entry_frames [simp]:
  "entry E m (emit acts s) = entry E m s"
  "entry E m (broadcast E' w s) = entry E m s"
  "entry E m (send_via E' co w s) = entry E m s"
  "entry E m (start_timer_if_not_running s) = entry E m s"
  "entry E m (stop_timer s) = entry E m s"
  "entry E m (manage_timer s) = entry E m s"
  by (simp_all add: entry_def)

lemma in_window_cong:
  "nd_h s = nd_h t \<Longrightarrow> nd_H s = nd_H t \<Longrightarrow> in_window n s = in_window n t"
  by (simp add: in_window_def)

section \<open>Checkpoints\<close>

lemma make_checkpoint_sel [simp]:
  "nd_id (make_checkpoint E s) = nd_id s"
  "nd_n (make_checkpoint E s) = nd_n s"
  "nd_f (make_checkpoint E s) = nd_f s"
  "nd_peers (make_checkpoint E s) = nd_peers s"
  "nd_conn_to_peer (make_checkpoint E s) = nd_conn_to_peer s"
  "nd_clients (make_checkpoint E s) = nd_clients s"
  "nd_view (make_checkpoint E s) = nd_view s"
  "nd_seq_num (make_checkpoint E s) = nd_seq_num s"
  "nd_last_exec (make_checkpoint E s) = nd_last_exec s"
  "nd_L (make_checkpoint E s) = nd_L s"
  "nd_K (make_checkpoint E s) = nd_K s"
  "nd_h (make_checkpoint E s) = nd_h s"
  "nd_H (make_checkpoint E s) = nd_H s"
  "nd_reqlog (make_checkpoint E s) = nd_reqlog s"
  "nd_last_replies (make_checkpoint E s) = nd_last_replies s"
  "nd_vc_timeout (make_checkpoint E s) = nd_vc_timeout s"
  "nd_view_changing (make_checkpoint E s) = nd_view_changing s"
  "nd_view_change_store (make_checkpoint E s) = nd_view_change_store s"
  "nd_view_change_timeout_count (make_checkpoint E s) = nd_view_change_timeout_count s"
  "nd_last_stable_digest (make_checkpoint E s) = nd_last_stable_digest s"
  "nd_timer_running (make_checkpoint E s) = nd_timer_running s"
  "nd_service (make_checkpoint E s) = nd_service s"
  by (simp_all add: make_checkpoint_def Let_def)

lemma advance_watermarks_sel [simp]:
  "nd_id (advance_watermarks n s) = nd_id s"
  "nd_n (advance_watermarks n s) = nd_n s"
  "nd_f (advance_watermarks n s) = nd_f s"
  "nd_peers (advance_watermarks n s) = nd_peers s"
  "nd_conn_to_peer (advance_watermarks n s) = nd_conn_to_peer s"
  "nd_clients (advance_watermarks n s) = nd_clients s"
  "nd_view (advance_watermarks n s) = nd_view s"
  "nd_seq_num (advance_watermarks n s) = nd_seq_num s"
  "nd_last_exec (advance_watermarks n s) = nd_last_exec s"
  "nd_L (advance_watermarks n s) = nd_L s"
  "nd_K (advance_watermarks n s) = nd_K s"
  "nd_reqlog (advance_watermarks n s) = nd_reqlog s"
  "nd_last_replies (advance_watermarks n s) = nd_last_replies s"
  "nd_vc_timeout (advance_watermarks n s) = nd_vc_timeout s"
  "nd_view_changing (advance_watermarks n s) = nd_view_changing s"
  "nd_view_change_store (advance_watermarks n s) = nd_view_change_store s"
  "nd_view_change_timeout_count (advance_watermarks n s) = nd_view_change_timeout_count s"
  "nd_checkpoints (advance_watermarks n s) = nd_checkpoints s"
  "nd_last_stable_digest (advance_watermarks n s) = nd_last_stable_digest s"
  "nd_timer_running (advance_watermarks n s) = nd_timer_running s"
  "nd_service (advance_watermarks n s) = nd_service s"
  by (simp_all add: advance_watermarks_def Let_def)

lemma stabilise_sel [simp]:
  "nd_id (stabilise n d s) = nd_id s"
  "nd_n (stabilise n d s) = nd_n s"
  "nd_f (stabilise n d s) = nd_f s"
  "nd_peers (stabilise n d s) = nd_peers s"
  "nd_conn_to_peer (stabilise n d s) = nd_conn_to_peer s"
  "nd_clients (stabilise n d s) = nd_clients s"
  "nd_view (stabilise n d s) = nd_view s"
  "nd_last_exec (stabilise n d s) = nd_last_exec s"
  "nd_L (stabilise n d s) = nd_L s"
  "nd_K (stabilise n d s) = nd_K s"
  "nd_last_replies (stabilise n d s) = nd_last_replies s"
  "nd_vc_timeout (stabilise n d s) = nd_vc_timeout s"
  "nd_view_changing (stabilise n d s) = nd_view_changing s"
  "nd_view_change_store (stabilise n d s) = nd_view_change_store s"
  "nd_view_change_timeout_count (stabilise n d s) = nd_view_change_timeout_count s"
  "nd_timer_running (stabilise n d s) = nd_timer_running s"
  "nd_service (stabilise n d s) = nd_service s"
  by (simp_all add: stabilise_def garbage_collect_def Let_def)

lemma on_checkpoint_sel [simp]:
  "nd_id (on_checkpoint m s) = nd_id s"
  "nd_n (on_checkpoint m s) = nd_n s"
  "nd_f (on_checkpoint m s) = nd_f s"
  "nd_peers (on_checkpoint m s) = nd_peers s"
  "nd_conn_to_peer (on_checkpoint m s) = nd_conn_to_peer s"
  "nd_clients (on_checkpoint m s) = nd_clients s"
  "nd_view (on_checkpoint m s) = nd_view s"
  "nd_last_exec (on_checkpoint m s) = nd_last_exec s"
  "nd_L (on_checkpoint m s) = nd_L s"
  "nd_K (on_checkpoint m s) = nd_K s"
  "nd_last_replies (on_checkpoint m s) = nd_last_replies s"
  "nd_vc_timeout (on_checkpoint m s) = nd_vc_timeout s"
  "nd_view_changing (on_checkpoint m s) = nd_view_changing s"
  "nd_view_change_store (on_checkpoint m s) = nd_view_change_store s"
  "nd_view_change_timeout_count (on_checkpoint m s) = nd_view_change_timeout_count s"
  "nd_timer_running (on_checkpoint m s) = nd_timer_running s"
  "nd_service (on_checkpoint m s) = nd_service s"
  by (simp_all add: on_checkpoint_def Let_def)

lemma stabilise_window [simp]:
  "nd_h (stabilise n d s) = n"
  "nd_H (stabilise n d s) = n + zext (nd_L s)"
  "nd_reqlog (stabilise n d s) = std_erase_if (\<lambda>k. k \<le> n) (nd_reqlog s)"
  by (simp_all add: stable_defs Let_def)

section \<open>Execution\<close>

text \<open>Actions that record a vote or an agreement; execution adds none of them.\<close>

fun is_vote :: "action \<Rightarrow> bool" where
  "is_vote (Log (LogPrepared _ _ _ _)) = True"
| "is_vote (Log (LogCommitted _ _ _ _)) = True"
| "is_vote (Log (LogCheckpointAgreed _ _ _)) = True"
| "is_vote (Send _ (WCommit _)) = True"
| "is_vote _ = False"

lemma is_vote_not_timer: "is_vote a \<Longrightarrow> \<not> is_timer_act a"
  by (auto simp: is_timer_act_def)

text \<open>Bookkeeping that accompanies a rejected message.\<close>

definition noise :: "action \<Rightarrow> bool" where
  "noise a \<longleftrightarrow> (case a of Metric _ \<Rightarrow> True | Trap _ \<Rightarrow> True | _ \<Rightarrow> False)"

lemma noise_simps [simp]:
  "noise (Metric mc)" "noise (Trap t)" "noise (count_msg w b)" "\<not> noise (Log l)"
  "\<not> noise (Send c w)"
  by (simp_all add: noise_def count_msg_def)

lemma noise_not_vote [simp]: "noise a \<Longrightarrow> \<not> is_vote a"
  by (cases a) (simp_all add: noise_def)

lemma is_vote_count_msg [simp]: "\<not> is_vote (count_msg w b)" "count_msg w b \<noteq> Log l"
  "Log l \<noteq> count_msg w b"
  "count_msg w b \<noteq> Send c w'" "count_msg w b \<noteq> Trap t" "count_msg w b \<noteq> TimerAdd x"
  by (simp_all add: count_msg_def)

lemma in_out_make_checkpoint:
  "is_vote a \<Longrightarrow> a \<in> set (nd_out (make_checkpoint E s)) \<longleftrightarrow> a \<in> set (nd_out s)"
  by (auto simp: make_checkpoint_def Let_def)

lemma nd_last_exec_execute_entry [simp]:
  "nd_last_exec (execute_entry E e s) = nd_last_exec s + 1"
  by (simp add: execute_entry_def Let_def send_to_client_def split: prod.split)

lemma execute_entry_sel [simp]:
  "nd_id (execute_entry E e s) = nd_id s"
  "nd_n (execute_entry E e s) = nd_n s"
  "nd_f (execute_entry E e s) = nd_f s"
  "nd_peers (execute_entry E e s) = nd_peers s"
  "nd_conn_to_peer (execute_entry E e s) = nd_conn_to_peer s"
  "nd_clients (execute_entry E e s) = nd_clients s"
  "nd_view (execute_entry E e s) = nd_view s"
  "nd_seq_num (execute_entry E e s) = nd_seq_num s"
  "nd_L (execute_entry E e s) = nd_L s"
  "nd_K (execute_entry E e s) = nd_K s"
  "nd_h (execute_entry E e s) = nd_h s"
  "nd_H (execute_entry E e s) = nd_H s"
  "nd_reqlog (execute_entry E e s) = nd_reqlog s"
  "nd_vc_timeout (execute_entry E e s) = nd_vc_timeout s"
  "nd_view_changing (execute_entry E e s) = nd_view_changing s"
  "nd_view_change_store (execute_entry E e s) = nd_view_change_store s"
  "nd_view_change_timeout_count (execute_entry E e s) = nd_view_change_timeout_count s"
  "nd_last_stable_digest (execute_entry E e s) = nd_last_stable_digest s"
  by (simp_all add: execute_entry_def Let_def send_to_client_def split: prod.split)

lemma in_out_execute_entry:
  "is_vote a \<Longrightarrow> a \<in> set (nd_out (execute_entry E e s)) \<longleftrightarrow> a \<in> set (nd_out s)"
  by (auto simp: execute_entry_def Let_def send_to_client_def in_out_make_checkpoint
      is_vote_not_timer split: prod.split if_splits)

text \<open>The part of the state that execution reads or keeps, as one value.\<close>

definition kept :: "'svc node \<Rightarrow> _" where
  "kept s = (nd_id s, nd_n s, nd_f s, nd_peers s, nd_conn_to_peer s, nd_clients s, nd_view s, nd_seq_num s, nd_L s, nd_K s, nd_h s, nd_H s, nd_reqlog s, nd_vc_timeout s, nd_view_changing s, nd_view_change_store s, nd_view_change_timeout_count s, nd_last_stable_digest s)"

lemma kept_execute_loop: "kept (execute_loop fuel E s) = kept s"
  by (induction fuel arbitrary: s) (simp_all add: kept_def split: option.split)

lemma in_out_execute_loop:
  "is_vote a \<Longrightarrow> a \<in> set (nd_out (execute_loop fuel E s)) \<longleftrightarrow> a \<in> set (nd_out s)"
  by (induction fuel arbitrary: s) (simp_all add: in_out_execute_entry split: option.split)

lemma in_out_try_execute [simp]:
  "is_vote a \<Longrightarrow> a \<in> set (nd_out (try_execute E s)) \<longleftrightarrow> a \<in> set (nd_out s)"
  unfolding try_execute_def by (rule in_out_execute_loop)

lemma execute_loop_sel [simp]:
  "nd_id (execute_loop fuel E s) = nd_id s"
  "nd_n (execute_loop fuel E s) = nd_n s"
  "nd_f (execute_loop fuel E s) = nd_f s"
  "nd_peers (execute_loop fuel E s) = nd_peers s"
  "nd_conn_to_peer (execute_loop fuel E s) = nd_conn_to_peer s"
  "nd_clients (execute_loop fuel E s) = nd_clients s"
  "nd_view (execute_loop fuel E s) = nd_view s"
  "nd_seq_num (execute_loop fuel E s) = nd_seq_num s"
  "nd_L (execute_loop fuel E s) = nd_L s"
  "nd_K (execute_loop fuel E s) = nd_K s"
  "nd_h (execute_loop fuel E s) = nd_h s"
  "nd_H (execute_loop fuel E s) = nd_H s"
  "nd_reqlog (execute_loop fuel E s) = nd_reqlog s"
  "nd_vc_timeout (execute_loop fuel E s) = nd_vc_timeout s"
  "nd_view_changing (execute_loop fuel E s) = nd_view_changing s"
  "nd_view_change_store (execute_loop fuel E s) = nd_view_change_store s"
  "nd_view_change_timeout_count (execute_loop fuel E s) = nd_view_change_timeout_count s"
  "nd_last_stable_digest (execute_loop fuel E s) = nd_last_stable_digest s"
  using kept_execute_loop [of fuel E s] by (simp_all add: kept_def)

lemma try_execute_sel [simp]:
  "nd_id (try_execute E s) = nd_id s"
  "nd_n (try_execute E s) = nd_n s"
  "nd_f (try_execute E s) = nd_f s"
  "nd_peers (try_execute E s) = nd_peers s"
  "nd_conn_to_peer (try_execute E s) = nd_conn_to_peer s"
  "nd_clients (try_execute E s) = nd_clients s"
  "nd_view (try_execute E s) = nd_view s"
  "nd_seq_num (try_execute E s) = nd_seq_num s"
  "nd_L (try_execute E s) = nd_L s"
  "nd_K (try_execute E s) = nd_K s"
  "nd_h (try_execute E s) = nd_h s"
  "nd_H (try_execute E s) = nd_H s"
  "nd_reqlog (try_execute E s) = nd_reqlog s"
  "nd_vc_timeout (try_execute E s) = nd_vc_timeout s"
  "nd_view_changing (try_execute E s) = nd_view_changing s"
  "nd_view_change_store (try_execute E s) = nd_view_change_store s"
  "nd_view_change_timeout_count (try_execute E s) = nd_view_change_timeout_count s"
  "nd_last_stable_digest (try_execute E s) = nd_last_stable_digest s"
  by (simp_all add: try_execute_def del: execute_loop.simps)

lemma entry_try_execute [simp]: "entry E m (try_execute E' s) = entry E m s"
  by (simp add: entry_def)

section \<open>Votes\<close>

lemma try_commit_sel [simp]:
  "nd_id (try_commit E n s) = nd_id s"
  "nd_n (try_commit E n s) = nd_n s"
  "nd_f (try_commit E n s) = nd_f s"
  "nd_peers (try_commit E n s) = nd_peers s"
  "nd_conn_to_peer (try_commit E n s) = nd_conn_to_peer s"
  "nd_clients (try_commit E n s) = nd_clients s"
  "nd_view (try_commit E n s) = nd_view s"
  "nd_seq_num (try_commit E n s) = nd_seq_num s"
  "nd_L (try_commit E n s) = nd_L s"
  "nd_K (try_commit E n s) = nd_K s"
  "nd_h (try_commit E n s) = nd_h s"
  "nd_H (try_commit E n s) = nd_H s"
  "nd_vc_timeout (try_commit E n s) = nd_vc_timeout s"
  "nd_view_changing (try_commit E n s) = nd_view_changing s"
  "nd_view_change_store (try_commit E n s) = nd_view_change_store s"
  "nd_view_change_timeout_count (try_commit E n s) = nd_view_change_timeout_count s"
  "nd_last_stable_digest (try_commit E n s) = nd_last_stable_digest s"
  by (simp_all add: try_commit_def Let_def)

lemma try_prepare_sel [simp]:
  "nd_id (try_prepare E n s) = nd_id s"
  "nd_n (try_prepare E n s) = nd_n s"
  "nd_f (try_prepare E n s) = nd_f s"
  "nd_peers (try_prepare E n s) = nd_peers s"
  "nd_conn_to_peer (try_prepare E n s) = nd_conn_to_peer s"
  "nd_clients (try_prepare E n s) = nd_clients s"
  "nd_view (try_prepare E n s) = nd_view s"
  "nd_seq_num (try_prepare E n s) = nd_seq_num s"
  "nd_L (try_prepare E n s) = nd_L s"
  "nd_K (try_prepare E n s) = nd_K s"
  "nd_h (try_prepare E n s) = nd_h s"
  "nd_H (try_prepare E n s) = nd_H s"
  "nd_vc_timeout (try_prepare E n s) = nd_vc_timeout s"
  "nd_view_changing (try_prepare E n s) = nd_view_changing s"
  "nd_view_change_store (try_prepare E n s) = nd_view_change_store s"
  "nd_view_change_timeout_count (try_prepare E n s) = nd_view_change_timeout_count s"
  "nd_last_stable_digest (try_prepare E n s) = nd_last_stable_digest s"
  by (simp_all add: try_prepare_def Let_def)

lemma accept_preprepare_sel [simp]:
  "nd_id (accept_preprepare E m s) = nd_id s"
  "nd_n (accept_preprepare E m s) = nd_n s"
  "nd_f (accept_preprepare E m s) = nd_f s"
  "nd_peers (accept_preprepare E m s) = nd_peers s"
  "nd_conn_to_peer (accept_preprepare E m s) = nd_conn_to_peer s"
  "nd_clients (accept_preprepare E m s) = nd_clients s"
  "nd_view (accept_preprepare E m s) = nd_view s"
  "nd_seq_num (accept_preprepare E m s) = nd_seq_num s"
  "nd_L (accept_preprepare E m s) = nd_L s"
  "nd_K (accept_preprepare E m s) = nd_K s"
  "nd_h (accept_preprepare E m s) = nd_h s"
  "nd_H (accept_preprepare E m s) = nd_H s"
  "nd_vc_timeout (accept_preprepare E m s) = nd_vc_timeout s"
  "nd_view_changing (accept_preprepare E m s) = nd_view_changing s"
  "nd_view_change_store (accept_preprepare E m s) = nd_view_change_store s"
  "nd_view_change_timeout_count (accept_preprepare E m s) = nd_view_change_timeout_count s"
  "nd_last_stable_digest (accept_preprepare E m s) = nd_last_stable_digest s"
  by (simp_all add: accept_preprepare_def Let_def)

lemma on_preprepare_impl_sel [simp]:
  "nd_id (on_preprepare_impl E m c b s) = nd_id s"
  "nd_n (on_preprepare_impl E m c b s) = nd_n s"
  "nd_f (on_preprepare_impl E m c b s) = nd_f s"
  "nd_peers (on_preprepare_impl E m c b s) = nd_peers s"
  "nd_conn_to_peer (on_preprepare_impl E m c b s) = nd_conn_to_peer s"
  "nd_clients (on_preprepare_impl E m c b s) = nd_clients s"
  "nd_view (on_preprepare_impl E m c b s) = nd_view s"
  "nd_seq_num (on_preprepare_impl E m c b s) = nd_seq_num s"
  "nd_L (on_preprepare_impl E m c b s) = nd_L s"
  "nd_K (on_preprepare_impl E m c b s) = nd_K s"
  "nd_h (on_preprepare_impl E m c b s) = nd_h s"
  "nd_H (on_preprepare_impl E m c b s) = nd_H s"
  "nd_vc_timeout (on_preprepare_impl E m c b s) = nd_vc_timeout s"
  "nd_view_changing (on_preprepare_impl E m c b s) = nd_view_changing s"
  "nd_view_change_store (on_preprepare_impl E m c b s) = nd_view_change_store s"
  "nd_view_change_timeout_count (on_preprepare_impl E m c b s) = nd_view_change_timeout_count s"
  "nd_last_stable_digest (on_preprepare_impl E m c b s) = nd_last_stable_digest s"
  by (simp_all add: on_preprepare_impl_def Let_def)

lemma on_prepare_sel [simp]:
  "nd_id (on_prepare E m c s) = nd_id s"
  "nd_n (on_prepare E m c s) = nd_n s"
  "nd_f (on_prepare E m c s) = nd_f s"
  "nd_peers (on_prepare E m c s) = nd_peers s"
  "nd_conn_to_peer (on_prepare E m c s) = nd_conn_to_peer s"
  "nd_clients (on_prepare E m c s) = nd_clients s"
  "nd_view (on_prepare E m c s) = nd_view s"
  "nd_seq_num (on_prepare E m c s) = nd_seq_num s"
  "nd_L (on_prepare E m c s) = nd_L s"
  "nd_K (on_prepare E m c s) = nd_K s"
  "nd_h (on_prepare E m c s) = nd_h s"
  "nd_H (on_prepare E m c s) = nd_H s"
  "nd_vc_timeout (on_prepare E m c s) = nd_vc_timeout s"
  "nd_view_changing (on_prepare E m c s) = nd_view_changing s"
  "nd_view_change_store (on_prepare E m c s) = nd_view_change_store s"
  "nd_view_change_timeout_count (on_prepare E m c s) = nd_view_change_timeout_count s"
  "nd_last_stable_digest (on_prepare E m c s) = nd_last_stable_digest s"
  by (simp_all add: on_prepare_def Let_def)

lemma on_commit_sel [simp]:
  "nd_id (on_commit E m s) = nd_id s"
  "nd_n (on_commit E m s) = nd_n s"
  "nd_f (on_commit E m s) = nd_f s"
  "nd_peers (on_commit E m s) = nd_peers s"
  "nd_conn_to_peer (on_commit E m s) = nd_conn_to_peer s"
  "nd_clients (on_commit E m s) = nd_clients s"
  "nd_view (on_commit E m s) = nd_view s"
  "nd_seq_num (on_commit E m s) = nd_seq_num s"
  "nd_L (on_commit E m s) = nd_L s"
  "nd_K (on_commit E m s) = nd_K s"
  "nd_h (on_commit E m s) = nd_h s"
  "nd_H (on_commit E m s) = nd_H s"
  "nd_vc_timeout (on_commit E m s) = nd_vc_timeout s"
  "nd_view_changing (on_commit E m s) = nd_view_changing s"
  "nd_view_change_store (on_commit E m s) = nd_view_change_store s"
  "nd_view_change_timeout_count (on_commit E m s) = nd_view_change_timeout_count s"
  "nd_last_stable_digest (on_commit E m s) = nd_last_stable_digest s"
  by (simp_all add: on_commit_def Let_def)

section \<open>Requests and view changes\<close>

lemma assign_request_sel [simp]:
  "nd_id (assign_request E m s) = nd_id s"
  "nd_n (assign_request E m s) = nd_n s"
  "nd_f (assign_request E m s) = nd_f s"
  "nd_peers (assign_request E m s) = nd_peers s"
  "nd_conn_to_peer (assign_request E m s) = nd_conn_to_peer s"
  "nd_clients (assign_request E m s) = nd_clients s"
  "nd_view (assign_request E m s) = nd_view s"
  "nd_last_exec (assign_request E m s) = nd_last_exec s"
  "nd_L (assign_request E m s) = nd_L s"
  "nd_K (assign_request E m s) = nd_K s"
  "nd_h (assign_request E m s) = nd_h s"
  "nd_H (assign_request E m s) = nd_H s"
  "nd_last_replies (assign_request E m s) = nd_last_replies s"
  "nd_vc_timeout (assign_request E m s) = nd_vc_timeout s"
  "nd_view_changing (assign_request E m s) = nd_view_changing s"
  "nd_view_change_store (assign_request E m s) = nd_view_change_store s"
  "nd_view_change_timeout_count (assign_request E m s) = nd_view_change_timeout_count s"
  "nd_checkpoints (assign_request E m s) = nd_checkpoints s"
  "nd_last_stable_digest (assign_request E m s) = nd_last_stable_digest s"
  "nd_timer_running (assign_request E m s) = nd_timer_running s"
  "nd_service (assign_request E m s) = nd_service s"
  by (simp_all add: assign_request_def Let_def)

lemma on_request_sel [simp]:
  "nd_id (on_request E m s) = nd_id s"
  "nd_n (on_request E m s) = nd_n s"
  "nd_f (on_request E m s) = nd_f s"
  "nd_peers (on_request E m s) = nd_peers s"
  "nd_conn_to_peer (on_request E m s) = nd_conn_to_peer s"
  "nd_clients (on_request E m s) = nd_clients s"
  "nd_view (on_request E m s) = nd_view s"
  "nd_last_exec (on_request E m s) = nd_last_exec s"
  "nd_L (on_request E m s) = nd_L s"
  "nd_K (on_request E m s) = nd_K s"
  "nd_h (on_request E m s) = nd_h s"
  "nd_H (on_request E m s) = nd_H s"
  "nd_last_replies (on_request E m s) = nd_last_replies s"
  "nd_vc_timeout (on_request E m s) = nd_vc_timeout s"
  "nd_view_changing (on_request E m s) = nd_view_changing s"
  "nd_view_change_store (on_request E m s) = nd_view_change_store s"
  "nd_view_change_timeout_count (on_request E m s) = nd_view_change_timeout_count s"
  "nd_checkpoints (on_request E m s) = nd_checkpoints s"
  "nd_last_stable_digest (on_request E m s) = nd_last_stable_digest s"
  "nd_service (on_request E m s) = nd_service s"
  by (simp_all add: on_request_def Let_def send_to_client_def send_to_replica_def
      split: option.split)

lemma in_out_on_request [simp]:
  "is_vote a \<Longrightarrow> a \<in> set (nd_out (on_request E m s)) \<longleftrightarrow> a \<in> set (nd_out s)"
  by (auto simp: on_request_def assign_request_def Let_def send_to_client_def
      send_to_replica_def is_vote_not_timer split: option.split)

lemma enter_view_sel [simp]:
  "nd_id (enter_view E v V O' s) = nd_id s"
  "nd_n (enter_view E v V O' s) = nd_n s"
  "nd_f (enter_view E v V O' s) = nd_f s"
  "nd_peers (enter_view E v V O' s) = nd_peers s"
  "nd_conn_to_peer (enter_view E v V O' s) = nd_conn_to_peer s"
  "nd_clients (enter_view E v V O' s) = nd_clients s"
  "nd_last_exec (enter_view E v V O' s) = nd_last_exec s"
  "nd_L (enter_view E v V O' s) = nd_L s"
  "nd_K (enter_view E v V O' s) = nd_K s"
  "nd_h (enter_view E v V O' s) = nd_h s"
  "nd_H (enter_view E v V O' s) = nd_H s"
  "nd_reqlog (enter_view E v V O' s) = nd_reqlog s"
  "nd_last_replies (enter_view E v V O' s) = nd_last_replies s"
  "nd_vc_timeout (enter_view E v V O' s) = nd_vc_timeout s"
  "nd_view_change_store (enter_view E v V O' s) = nd_view_change_store s"
  "nd_checkpoints (enter_view E v V O' s) = nd_checkpoints s"
  "nd_last_stable_digest (enter_view E v V O' s) = nd_last_stable_digest s"
  "nd_service (enter_view E v V O' s) = nd_service s"
  by (simp_all add: enter_view_def Let_def)

lemma store_view_change_sel [simp]:
  "nd_id (store_view_change m s) = nd_id s"
  "nd_n (store_view_change m s) = nd_n s"
  "nd_f (store_view_change m s) = nd_f s"
  "nd_peers (store_view_change m s) = nd_peers s"
  "nd_conn_to_peer (store_view_change m s) = nd_conn_to_peer s"
  "nd_clients (store_view_change m s) = nd_clients s"
  "nd_view (store_view_change m s) = nd_view s"
  "nd_seq_num (store_view_change m s) = nd_seq_num s"
  "nd_last_exec (store_view_change m s) = nd_last_exec s"
  "nd_L (store_view_change m s) = nd_L s"
  "nd_K (store_view_change m s) = nd_K s"
  "nd_h (store_view_change m s) = nd_h s"
  "nd_H (store_view_change m s) = nd_H s"
  "nd_reqlog (store_view_change m s) = nd_reqlog s"
  "nd_last_replies (store_view_change m s) = nd_last_replies s"
  "nd_vc_timeout (store_view_change m s) = nd_vc_timeout s"
  "nd_view_changing (store_view_change m s) = nd_view_changing s"
  "nd_view_change_timeout_count (store_view_change m s) = nd_view_change_timeout_count s"
  "nd_checkpoints (store_view_change m s) = nd_checkpoints s"
  "nd_last_stable_digest (store_view_change m s) = nd_last_stable_digest s"
  "nd_timer_running (store_view_change m s) = nd_timer_running s"
  "nd_service (store_view_change m s) = nd_service s"
  "nd_out (store_view_change m s) = nd_out s"
  by (simp_all add: store_view_change_def Let_def)

lemma on_viewchange_sel [simp]:
  "nd_id (on_viewchange E m s) = nd_id s"
  "nd_n (on_viewchange E m s) = nd_n s"
  "nd_f (on_viewchange E m s) = nd_f s"
  "nd_peers (on_viewchange E m s) = nd_peers s"
  "nd_conn_to_peer (on_viewchange E m s) = nd_conn_to_peer s"
  "nd_clients (on_viewchange E m s) = nd_clients s"
  "nd_last_exec (on_viewchange E m s) = nd_last_exec s"
  "nd_L (on_viewchange E m s) = nd_L s"
  "nd_K (on_viewchange E m s) = nd_K s"
  "nd_h (on_viewchange E m s) = nd_h s"
  "nd_H (on_viewchange E m s) = nd_H s"
  "nd_reqlog (on_viewchange E m s) = nd_reqlog s"
  "nd_last_replies (on_viewchange E m s) = nd_last_replies s"
  "nd_vc_timeout (on_viewchange E m s) = nd_vc_timeout s"
  "nd_checkpoints (on_viewchange E m s) = nd_checkpoints s"
  "nd_last_stable_digest (on_viewchange E m s) = nd_last_stable_digest s"
  "nd_service (on_viewchange E m s) = nd_service s"
  by (simp_all add: on_viewchange_def Let_def split: option.split)

lemma start_view_change_sel [simp]:
  "nd_id (start_view_change E s) = nd_id s"
  "nd_n (start_view_change E s) = nd_n s"
  "nd_f (start_view_change E s) = nd_f s"
  "nd_peers (start_view_change E s) = nd_peers s"
  "nd_conn_to_peer (start_view_change E s) = nd_conn_to_peer s"
  "nd_clients (start_view_change E s) = nd_clients s"
  "nd_last_exec (start_view_change E s) = nd_last_exec s"
  "nd_L (start_view_change E s) = nd_L s"
  "nd_K (start_view_change E s) = nd_K s"
  "nd_h (start_view_change E s) = nd_h s"
  "nd_H (start_view_change E s) = nd_H s"
  "nd_reqlog (start_view_change E s) = nd_reqlog s"
  "nd_last_replies (start_view_change E s) = nd_last_replies s"
  "nd_vc_timeout (start_view_change E s) = nd_vc_timeout s"
  "nd_checkpoints (start_view_change E s) = nd_checkpoints s"
  "nd_last_stable_digest (start_view_change E s) = nd_last_stable_digest s"
  "nd_service (start_view_change E s) = nd_service s"
  by (simp_all add: start_view_change_def Let_def)

lemma in_out_enter_view [simp]:
  "is_vote a \<Longrightarrow> a \<in> set (nd_out (enter_view E v V O' s)) \<longleftrightarrow> a \<in> set (nd_out s)"
  by (auto simp: enter_view_def Let_def is_vote_not_timer)

lemma in_out_on_viewchange [simp]:
  "is_vote a \<Longrightarrow> a \<in> set (nd_out (on_viewchange E m s)) \<longleftrightarrow> a \<in> set (nd_out s)"
  by (auto simp: on_viewchange_def Let_def split: option.split)

lemma in_out_start_view_change [simp]:
  "is_vote a \<Longrightarrow> a \<in> set (nd_out (start_view_change E s)) \<longleftrightarrow> a \<in> set (nd_out s)"
  by (auto simp: start_view_change_def Let_def is_vote_not_timer)

lemma on_handshake_sel [simp]:
  "nd_id (on_handshake m c s) = nd_id s"
  "nd_n (on_handshake m c s) = nd_n s"
  "nd_f (on_handshake m c s) = nd_f s"
  "nd_peers (on_handshake m c s) = nd_peers s"
  "nd_clients (on_handshake m c s) = nd_clients s"
  "nd_view (on_handshake m c s) = nd_view s"
  "nd_seq_num (on_handshake m c s) = nd_seq_num s"
  "nd_last_exec (on_handshake m c s) = nd_last_exec s"
  "nd_L (on_handshake m c s) = nd_L s"
  "nd_K (on_handshake m c s) = nd_K s"
  "nd_h (on_handshake m c s) = nd_h s"
  "nd_H (on_handshake m c s) = nd_H s"
  "nd_reqlog (on_handshake m c s) = nd_reqlog s"
  "nd_last_replies (on_handshake m c s) = nd_last_replies s"
  "nd_vc_timeout (on_handshake m c s) = nd_vc_timeout s"
  "nd_view_changing (on_handshake m c s) = nd_view_changing s"
  "nd_view_change_store (on_handshake m c s) = nd_view_change_store s"
  "nd_view_change_timeout_count (on_handshake m c s) = nd_view_change_timeout_count s"
  "nd_checkpoints (on_handshake m c s) = nd_checkpoints s"
  "nd_last_stable_digest (on_handshake m c s) = nd_last_stable_digest s"
  "nd_timer_running (on_handshake m c s) = nd_timer_running s"
  "nd_service (on_handshake m c s) = nd_service s"
  by (simp_all add: on_handshake_def Let_def)

lemma on_connection_sel [simp]:
  "nd_id (on_connection E c b s) = nd_id s"
  "nd_n (on_connection E c b s) = nd_n s"
  "nd_f (on_connection E c b s) = nd_f s"
  "nd_peers (on_connection E c b s) = nd_peers s"
  "nd_conn_to_peer (on_connection E c b s) = nd_conn_to_peer s"
  "nd_clients (on_connection E c b s) = nd_clients s"
  "nd_view (on_connection E c b s) = nd_view s"
  "nd_seq_num (on_connection E c b s) = nd_seq_num s"
  "nd_last_exec (on_connection E c b s) = nd_last_exec s"
  "nd_L (on_connection E c b s) = nd_L s"
  "nd_K (on_connection E c b s) = nd_K s"
  "nd_h (on_connection E c b s) = nd_h s"
  "nd_H (on_connection E c b s) = nd_H s"
  "nd_reqlog (on_connection E c b s) = nd_reqlog s"
  "nd_last_replies (on_connection E c b s) = nd_last_replies s"
  "nd_vc_timeout (on_connection E c b s) = nd_vc_timeout s"
  "nd_view_changing (on_connection E c b s) = nd_view_changing s"
  "nd_view_change_store (on_connection E c b s) = nd_view_change_store s"
  "nd_view_change_timeout_count (on_connection E c b s) = nd_view_change_timeout_count s"
  "nd_checkpoints (on_connection E c b s) = nd_checkpoints s"
  "nd_last_stable_digest (on_connection E c b s) = nd_last_stable_digest s"
  "nd_timer_running (on_connection E c b s) = nd_timer_running s"
  "nd_service (on_connection E c b s) = nd_service s"
  by (simp_all add: on_connection_def)

lemma add_replica_sel [simp]:
  "nd_id (add_replica i c s) = nd_id s"
  "nd_n (add_replica i c s) = nd_n s"
  "nd_f (add_replica i c s) = nd_f s"
  "nd_conn_to_peer (add_replica i c s) = nd_conn_to_peer s"
  "nd_clients (add_replica i c s) = nd_clients s"
  "nd_view (add_replica i c s) = nd_view s"
  "nd_seq_num (add_replica i c s) = nd_seq_num s"
  "nd_last_exec (add_replica i c s) = nd_last_exec s"
  "nd_L (add_replica i c s) = nd_L s"
  "nd_K (add_replica i c s) = nd_K s"
  "nd_h (add_replica i c s) = nd_h s"
  "nd_H (add_replica i c s) = nd_H s"
  "nd_reqlog (add_replica i c s) = nd_reqlog s"
  "nd_last_replies (add_replica i c s) = nd_last_replies s"
  "nd_vc_timeout (add_replica i c s) = nd_vc_timeout s"
  "nd_view_changing (add_replica i c s) = nd_view_changing s"
  "nd_view_change_store (add_replica i c s) = nd_view_change_store s"
  "nd_view_change_timeout_count (add_replica i c s) = nd_view_change_timeout_count s"
  "nd_checkpoints (add_replica i c s) = nd_checkpoints s"
  "nd_last_stable_digest (add_replica i c s) = nd_last_stable_digest s"
  "nd_timer_running (add_replica i c s) = nd_timer_running s"
  "nd_service (add_replica i c s) = nd_service s"
  "nd_out (add_replica i c s) = nd_out s"
  by (simp_all add: add_replica_def)

lemma add_client_sel [simp]:
  "nd_id (add_client i c s) = nd_id s"
  "nd_n (add_client i c s) = nd_n s"
  "nd_f (add_client i c s) = nd_f s"
  "nd_peers (add_client i c s) = nd_peers s"
  "nd_conn_to_peer (add_client i c s) = nd_conn_to_peer s"
  "nd_view (add_client i c s) = nd_view s"
  "nd_seq_num (add_client i c s) = nd_seq_num s"
  "nd_last_exec (add_client i c s) = nd_last_exec s"
  "nd_L (add_client i c s) = nd_L s"
  "nd_K (add_client i c s) = nd_K s"
  "nd_h (add_client i c s) = nd_h s"
  "nd_H (add_client i c s) = nd_H s"
  "nd_reqlog (add_client i c s) = nd_reqlog s"
  "nd_last_replies (add_client i c s) = nd_last_replies s"
  "nd_vc_timeout (add_client i c s) = nd_vc_timeout s"
  "nd_view_changing (add_client i c s) = nd_view_changing s"
  "nd_view_change_store (add_client i c s) = nd_view_change_store s"
  "nd_view_change_timeout_count (add_client i c s) = nd_view_change_timeout_count s"
  "nd_checkpoints (add_client i c s) = nd_checkpoints s"
  "nd_last_stable_digest (add_client i c s) = nd_last_stable_digest s"
  "nd_timer_running (add_client i c s) = nd_timer_running s"
  "nd_service (add_client i c s) = nd_service s"
  "nd_out (add_client i c s) = nd_out s"
  by (simp_all add: add_client_def)

lemma in_out_connections [simp]:
  "is_vote a \<Longrightarrow> a \<in> set (nd_out (on_handshake hm c s)) \<longleftrightarrow> a \<in> set (nd_out s)"
  "is_vote a \<Longrightarrow> a \<in> set (nd_out (on_connection E c b s)) \<longleftrightarrow> a \<in> set (nd_out s)"
  by (auto simp: on_handshake_def on_connection_def Let_def)

text \<open>
  \<open>on_newview\<close>: the loop over the O set changes only what \<open>on_preprepare_impl\<close> changes.
\<close>

abbreviation replay :: "'svc env \<Rightarrow> conn \<Rightarrow> PrePrepareMsg list \<Rightarrow> 'svc node \<Rightarrow> 'svc node" where
  "replay E c \<equiv> fold (\<lambda>pp. on_preprepare_impl E pp c True)"

lemma kept_replay:
  "kept ((replay E c pps s)\<lparr>nd_reqlog := L\<rparr>) = kept (s\<lparr>nd_reqlog := L\<rparr>)"
  by (induction pps arbitrary: s) (simp_all add: kept_def)

lemma replay_sel [simp]:
  "nd_id (replay E c pps s) = nd_id s"
  "nd_n (replay E c pps s) = nd_n s"
  "nd_f (replay E c pps s) = nd_f s"
  "nd_peers (replay E c pps s) = nd_peers s"
  "nd_conn_to_peer (replay E c pps s) = nd_conn_to_peer s"
  "nd_clients (replay E c pps s) = nd_clients s"
  "nd_view (replay E c pps s) = nd_view s"
  "nd_seq_num (replay E c pps s) = nd_seq_num s"
  "nd_L (replay E c pps s) = nd_L s"
  "nd_K (replay E c pps s) = nd_K s"
  "nd_h (replay E c pps s) = nd_h s"
  "nd_H (replay E c pps s) = nd_H s"
  "nd_vc_timeout (replay E c pps s) = nd_vc_timeout s"
  "nd_view_changing (replay E c pps s) = nd_view_changing s"
  "nd_view_change_store (replay E c pps s) = nd_view_change_store s"
  "nd_view_change_timeout_count (replay E c pps s) = nd_view_change_timeout_count s"
  "nd_last_stable_digest (replay E c pps s) = nd_last_stable_digest s"
  using kept_replay [where E = E and c = c and pps = pps and s = s and L = "[]"] by (simp_all add: kept_def)

lemma on_newview_sel [simp]:
  "nd_id (on_newview E m c s) = nd_id s"
  "nd_n (on_newview E m c s) = nd_n s"
  "nd_f (on_newview E m c s) = nd_f s"
  "nd_peers (on_newview E m c s) = nd_peers s"
  "nd_conn_to_peer (on_newview E m c s) = nd_conn_to_peer s"
  "nd_clients (on_newview E m c s) = nd_clients s"
  "nd_L (on_newview E m c s) = nd_L s"
  "nd_K (on_newview E m c s) = nd_K s"
  "nd_h (on_newview E m c s) = nd_h s"
  "nd_H (on_newview E m c s) = nd_H s"
  "nd_vc_timeout (on_newview E m c s) = nd_vc_timeout s"
  "nd_view_change_store (on_newview E m c s) = nd_view_change_store s"
  "nd_last_stable_digest (on_newview E m c s) = nd_last_stable_digest s"
  by (simp_all add: on_newview_def Let_def)

lemma step_sel [simp]:
  "nd_id (step E ev s) = nd_id s"
  "nd_n (step E ev s) = nd_n s"
  "nd_f (step E ev s) = nd_f s"
  "nd_L (step E ev s) = nd_L s"
  "nd_K (step E ev s) = nd_K s"
  "nd_vc_timeout (step E ev s) = nd_vc_timeout s"
  by (cases ev; cases "case ev of Deliver c w \<Rightarrow> w | _ \<Rightarrow> undefined"; simp add: on_preprepare_def)+

section \<open>The output only grows\<close>

definition appends :: "'svc node \<Rightarrow> 'svc node \<Rightarrow> bool" where
  "appends s t \<longleftrightarrow> (\<exists>acts. nd_out t = nd_out s @ acts)"

lemma appends_refl [simp]: "appends s s"
  by (simp add: appends_def)

lemma appends_trans: "appends s t \<Longrightarrow> appends t u \<Longrightarrow> appends s u"
  by (auto simp: appends_def)

lemma appends_same: "nd_out t = nd_out s \<Longrightarrow> appends s t"
  by (simp add: appends_def)

lemma appends_upd [simp]:
  "appends s (t\<lparr>nd_conn_to_peer := x1\<rparr>) = appends s t"
  "appends s (t\<lparr>nd_view := x2\<rparr>) = appends s t"
  "appends s (t\<lparr>nd_seq_num := x3\<rparr>) = appends s t"
  "appends s (t\<lparr>nd_last_exec := x3\<rparr>) = appends s t"
  "appends s (t\<lparr>nd_h := x3\<rparr>) = appends s t"
  "appends s (t\<lparr>nd_H := x3\<rparr>) = appends s t"
  "appends s (t\<lparr>nd_reqlog := x4\<rparr>) = appends s t"
  "appends s (t\<lparr>nd_last_replies := x5\<rparr>) = appends s t"
  "appends s (t\<lparr>nd_view_changing := x6\<rparr>) = appends s t"
  "appends s (t\<lparr>nd_view_change_store := x7\<rparr>) = appends s t"
  "appends s (t\<lparr>nd_view_change_timeout_count := x2\<rparr>) = appends s t"
  "appends s (t\<lparr>nd_checkpoints := x8\<rparr>) = appends s t"
  "appends s (t\<lparr>nd_last_stable_digest := x9\<rparr>) = appends s t"
  "appends s (t\<lparr>nd_timer_running := x6\<rparr>) = appends s t"
  "appends s (t\<lparr>nd_service := x10\<rparr>) = appends s t"
  by (simp_all add: appends_def)

lemma appends_emit [simp]: "appends s t \<Longrightarrow> appends s (emit acts t)"
  by (auto simp: appends_def)

lemma appends_basic [simp]:
  assumes "appends s t"
  shows "appends s (broadcast E w t)" and "appends s (send_via E co w t)"
    and "appends s (start_timer_if_not_running t)" and "appends s (stop_timer t)"
    and "appends s (update_entry E n g t)" and "appends s (touch_entry E n t)"
  using assms
  by (simp_all add: broadcast_def send_via_def start_timer_if_not_running_def stop_timer_def
      update_entry_def touch_entry_def)

lemma appends_manage_timer [simp]: "appends s t \<Longrightarrow> appends s (manage_timer t)"
  by (simp add: manage_timer_def)

lemma appends_checkpoints [simp]:
  assumes "appends s t"
  shows "appends s (make_checkpoint E t)" and "appends s (stabilise n d t)"
  using assms
  by (simp_all add: make_checkpoint_def stable_defs
      Let_def)

lemma appends_execute_entry [simp]: "appends s t \<Longrightarrow> appends s (execute_entry E e t)"
  by (simp add: execute_entry_def send_to_client_def Let_def split: prod.split)

lemma appends_execute_loop: "appends s t \<Longrightarrow> appends s (execute_loop k E t)"
  by (induction k E t rule: execute_loop.induct) (simp_all split: option.split)

lemma appends_try_execute [simp]: "appends s t \<Longrightarrow> appends s (try_execute E t)"
  unfolding try_execute_def by (rule appends_execute_loop)

lemma appends_try_commit [simp]: "appends s t \<Longrightarrow> appends s (try_commit E n t)"
  by (simp add: try_commit_def Let_def)

lemma appends_try_prepare [simp]: "appends s t \<Longrightarrow> appends s (try_prepare E n t)"
  by (simp add: try_prepare_def Let_def)

lemma appends_preprepare_impl [simp]:
  "appends s t \<Longrightarrow> appends s (on_preprepare_impl E m c b t)"
  by (simp add: on_preprepare_impl_def accept_preprepare_def Let_def)

lemma appends_replay [simp]: "appends s t \<Longrightarrow> appends s (replay E c pps t)"
  by (induction pps arbitrary: t) simp_all

lemma appends_on_viewchange [simp]: "appends s t \<Longrightarrow> appends s (on_viewchange E m t)"
  by (simp add: viewchange_defs Let_def split: option.split)

lemma appends_handlers [simp]:
  "appends s (on_request E rm s)" "appends s (on_prepare E pm c s)" "appends s (on_commit E cm s)"
  "appends s (on_checkpoint km s)" "appends s (start_view_change E s)"
  "appends s (on_newview E nm c s)" "appends s (on_handshake hm c s)"
  "appends s (on_connection E c b s)" 
  by (simp_all add: request_defs
      on_prepare_def on_commit_def on_checkpoint_def start_view_change_def on_newview_def
      on_handshake_def on_connection_def Let_def split: option.split)

lemma appends_step: "appends s (step E ev s)"
proof (cases ev)
  case (Deliver c w)
  then show ?thesis by (cases w) (simp_all add: on_preprepare_def)
qed (simp_all add: appends_same)

section \<open>Runs\<close>

text \<open>The environment of one step: the same library, hash and service, other connections.\<close>

definition same_env :: "'svc env \<Rightarrow> 'svc env \<Rightarrow> bool" where
  "same_env E E' \<longleftrightarrow> (\<exists>ok el. E' = E\<lparr>env_conn_ok := ok, env_elapsed := el\<rparr>)"

lemma same_env_refl [simp]: "same_env E E"
  unfolding same_env_def by (intro exI [of _ "env_conn_ok E"] exI [of _ "env_elapsed E"]) simp

lemma same_env_entry: "same_env E E' \<Longrightarrow> entry E' = entry E"
  by (auto simp: same_env_def entry_def new_entry_def fun_eq_iff)

lemma same_env_sel:
  assumes "same_env E E'"
  shows "env_stream E' = env_stream E" and "env_hash_request E' = env_hash_request E"
    and "env_hash_string E' = env_hash_string E" and "env_null_digest E' = env_null_digest E"
    and "env_service E' = env_service E"
  using assms by (auto simp: same_env_def)

text \<open>Everything that can happen to one node: any events in any order.\<close>

inductive run :: "'svc env \<Rightarrow> 'svc node \<Rightarrow> 'svc node \<Rightarrow> bool" for E :: "'svc env" and s :: "'svc node" where
  run_refl: "run E s s"
| run_step: "run E s t \<Longrightarrow> same_env E E' \<Longrightarrow> run E s (step E' ev t)"

lemma run_fold: "run E s (fold (step E) evs s)"
proof (induction evs rule: rev_induct)
  case Nil
  show ?case by (simp add: run.run_refl)
next
  case (snoc ev evs)
  then show ?case using run.run_step [OF _ same_env_refl] by simp
qed

text \<open>
  The contract of an invariant: it holds of a freshly constructed node, does not depend on
  connections and clocks, and every event keeps it.
\<close>

locale node_invariant =
  fixes I :: "'svc env \<Rightarrow> 'svc node \<Rightarrow> bool"
  assumes init: "I E (Node_ctor E i cfg svc b)"
    and same_env: "same_env E E' \<Longrightarrow> I E' s = I E s"
    and kept: "I E s \<Longrightarrow> I E (step E ev s)"
begin

lemma along_run: "run E s t \<Longrightarrow> I E s \<Longrightarrow> I E t"
proof (induction rule: run.induct)
  case (run_step t E' ev)
  then have "I E' t" by (simp add: same_env [OF run_step.hyps(2)])
  then have "I E' (step E' ev t)" by (rule kept)
  then show ?case by (simp add: same_env [OF run_step.hyps(2)])
qed

lemma holds: "run E (Node_ctor E i cfg svc b) s \<Longrightarrow> I E s"
  using along_run init by blast

end

end
