(* ===== verification/Node_Log.thy ===== *)
theory Node_Log
  imports Node_Frames
begin

text \<open>
  The request log \<open>reqlog_\<close>: its well-formedness (\<open>reqlog_ok\<close>: keys strictly increasing, an
  entry without a pre-prepare still in its initial stage with the default digest, an entry with
  one filed under its own sequence number), kept by every event; and the effect of \<open>try_commit\<close>
  and \<open>try_prepare\<close> on the log and on the output, which the later theories build on.
\<close>

section \<open>Entries of the request log\<close>

definition entry_ok :: "'svc env \<Rightarrow> u64 \<Rightarrow> ReqLogEntry \<Rightarrow> bool" where
  "entry_ok E n e \<longleftrightarrow>
     (if re_has_preprepare e then re_seq e = n \<and> re_stage e \<noteq> NONE
      else re_digest e = env_null_digest E \<and> re_stage e = NONE)"

definition reqlog_ok :: "'svc env \<Rightarrow> (u64, ReqLogEntry) std_map \<Rightarrow> bool" where
  "reqlog_ok E L \<longleftrightarrow> std_wf L \<and> (\<forall>n e. std_find L n = Some e \<longrightarrow> entry_ok E n e)"

lemma entry_ok_new [simp]: "entry_ok E n (new_entry E)"
  by (simp add: entry_ok_def new_entry_def)

lemma reqlog_ok_Nil [simp]: "reqlog_ok E []"
  by (simp add: reqlog_ok_def)

lemma reqlog_ok_set [intro]: "reqlog_ok E L \<Longrightarrow> entry_ok E n e \<Longrightarrow> reqlog_ok E (std_set n e L)"
  by (simp add: reqlog_ok_def)

lemma reqlog_ok_erase [intro]: "reqlog_ok E L \<Longrightarrow> reqlog_ok E (std_erase_if P L)"
  by (auto simp: reqlog_ok_def restrict_map_def split: if_splits)

lemma entry_ok_entry [simp, intro]: "reqlog_ok E (nd_reqlog s) \<Longrightarrow> entry_ok E n (entry E n s)"
  by (cases "std_find (nd_reqlog s) n") (auto simp: entry_def reqlog_ok_def)

lemma entry_ok_votes [simp]:
  "entry_ok E n (e\<lparr>re_commits := A\<rparr>) = entry_ok E n e"
  "entry_ok E n (e\<lparr>re_prepares := A\<rparr>) = entry_ok E n e"
  by (simp_all add: entry_ok_def)

lemma entry_ok_stage:
  "entry_ok E n e \<Longrightarrow> re_stage e \<noteq> NONE \<Longrightarrow> st \<noteq> NONE \<Longrightarrow> entry_ok E n (e\<lparr>re_stage := st\<rparr>)"
  by (auto simp: entry_ok_def split: if_splits)

lemma entry_ok_install [simp]:
  "entry_ok E n (e\<lparr>re_view := v, re_seq := n, re_digest := d, re_req := r,
     re_has_preprepare := True, re_stage := PRE_PREPARED\<rparr>)"
  "entry_ok E n (e\<lparr>re_view := v, re_seq := n, re_req := r, re_digest := d,
     re_has_preprepare := True, re_stage := PRE_PREPARED\<rparr>)"
  by (simp_all add: entry_ok_def)

section \<open>Effect on the log\<close>

definition commit_ready :: "'svc env \<Rightarrow> u64 \<Rightarrow> 'svc node \<Rightarrow> bool" where
  "commit_ready E n s \<longleftrightarrow>
     re_stage (entry E n s) = PREPARED \<and> unat (2 * nd_f s + 1) \<le> card (re_commits (entry E n s))"

definition prepare_ready :: "'svc env \<Rightarrow> u64 \<Rightarrow> 'svc node \<Rightarrow> bool" where
  "prepare_ready E n s \<longleftrightarrow>
     re_stage (entry E n s) = PRE_PREPARED \<and> re_has_preprepare (entry E n s) \<and>
     unat (2 * nd_f s) \<le> card (re_prepares (entry E n s))"

lemma nd_reqlog_try_commit:
  "nd_reqlog (try_commit E n s) =
     (if commit_ready E n s then std_set n ((entry E n s)\<lparr>re_stage := COMMITTED\<rparr>) (nd_reqlog s)
      else nd_reqlog s)"
  by (simp add: try_commit_def commit_ready_def Let_def)

lemma in_out_try_commit:
  "is_vote a \<Longrightarrow> a \<in> set (nd_out (try_commit E n s)) \<longleftrightarrow> a \<in> set (nd_out s) \<or>
     commit_ready E n s \<and> a = Log (LogCommitted (re_view (entry E n s))
       (rq_operation (re_req (entry E n s))) (re_seq (entry E n s)) (re_digest (entry E n s)))"
  by (auto simp: try_commit_def commit_ready_def Let_def)

text \<open>The state in which \<open>try_prepare\<close> calls \<open>try_commit\<close>.\<close>

definition prepared_state :: "'svc env \<Rightarrow> u64 \<Rightarrow> 'svc node \<Rightarrow> 'svc node" where
  "prepared_state E n s =
     (let e = entry E n s;
          s = emit [Log (LogPrepared (re_view e) (rq_operation (re_req e)) (re_seq e)
                (re_digest e)),
              Metric (ObservePhase ''prepared'' (env_elapsed E ''prepared'' n))] s;
          s = update_entry E n (\<lambda>e. e\<lparr>re_stage := PREPARED\<rparr>) s;
          s = broadcast E (WCommit (CommitMsg_ctor (env_stream E) (nd_view s) (re_seq e)
                (re_digest e) (nd_id s))) s
      in update_entry E n (\<lambda>e. e\<lparr>re_commits := insert (nd_id s) (re_commits e)\<rparr>) s)"

lemma try_prepare_eq:
  "try_prepare E n s = (if prepare_ready E n s then try_commit E n (prepared_state E n s) else s)"
  by (simp add: try_prepare_def prepare_ready_def prepared_state_def Let_def)


lemma prepared_state_sel [simp]:
  "nd_reqlog (prepared_state E n s) = std_set n ((entry E n s)\<lparr>re_stage := PREPARED,
     re_commits := insert (nd_id s) (re_commits (entry E n s))\<rparr>) (std_set n
       ((entry E n s)\<lparr>re_stage := PREPARED\<rparr>) (nd_reqlog s))"
  "nd_id (prepared_state E n s) = nd_id s"
  "nd_h (prepared_state E n s) = nd_h s"
  "nd_f (prepared_state E n s) = nd_f s"
  by (simp_all add: prepared_state_def Let_def)

lemma entry_prepared_state [simp]:
  "entry E m (prepared_state E n s) =
     (if m = n then (entry E n s)\<lparr>re_stage := PREPARED,
        re_commits := insert (nd_id s) (re_commits (entry E n s))\<rparr> else entry E m s)"
  by (simp add: prepared_state_def Let_def)

lemma in_out_prepared_state:
  "is_vote a \<Longrightarrow> a \<in> set (nd_out (prepared_state E n s)) \<longleftrightarrow> a \<in> set (nd_out s) \<or>
     a = Log (LogPrepared (re_view (entry E n s)) (rq_operation (re_req (entry E n s)))
           (re_seq (entry E n s)) (re_digest (entry E n s))) \<or>
     (\<exists>i c. (i, c) \<in> set (nd_peers s) \<and> i \<noteq> nd_id s \<and> env_conn_ok E c \<and>
       a = Send c (WCommit (CommitMsg_ctor (env_stream E) (nd_view s) (re_seq (entry E n s))
           (re_digest (entry E n s)) (nd_id s))))"
  by (auto simp: prepared_state_def Let_def)

section \<open>The log stays well formed\<close>

lemma reqlog_ok_try_commit:
  "reqlog_ok E (nd_reqlog s) \<Longrightarrow> reqlog_ok E (nd_reqlog (try_commit E n s))"
  by (auto simp: nd_reqlog_try_commit commit_ready_def intro!: entry_ok_stage)

lemma reqlog_ok_prepared_state:
  "reqlog_ok E (nd_reqlog s) \<Longrightarrow> prepare_ready E n s \<Longrightarrow>
     reqlog_ok E (nd_reqlog (prepared_state E n s))"
  by (auto simp: prepare_ready_def intro!: reqlog_ok_set entry_ok_stage)

lemma reqlog_ok_try_prepare:
  "reqlog_ok E (nd_reqlog s) \<Longrightarrow> reqlog_ok E (nd_reqlog (try_prepare E n s))"
  unfolding try_prepare_eq by (auto intro: reqlog_ok_try_commit reqlog_ok_prepared_state)

lemma reqlog_ok_update_entry:
  "reqlog_ok E (nd_reqlog s) \<Longrightarrow> (entry_ok E n (entry E n s) \<Longrightarrow> entry_ok E n (g (entry E n s))) \<Longrightarrow>
     reqlog_ok E (nd_reqlog (update_entry E n g s))"
  by (auto intro!: reqlog_ok_set)

lemma reqlog_ok_touch:
  "reqlog_ok E (nd_reqlog s) \<Longrightarrow> reqlog_ok E (nd_reqlog (touch_entry E n s))"
  by (auto intro!: reqlog_ok_set)

lemma reqlog_ok_accept:
  "reqlog_ok E (nd_reqlog s) \<Longrightarrow> reqlog_ok E (nd_reqlog (accept_preprepare E m s))"
  unfolding accept_preprepare_def Let_def
  by (auto intro!: reqlog_ok_try_prepare reqlog_ok_set)

lemma reqlog_ok_preprepare_impl:
  "reqlog_ok E (nd_reqlog s) \<Longrightarrow> reqlog_ok E (nd_reqlog (on_preprepare_impl E m c b s))"
  by (auto simp: on_preprepare_impl_def Let_def intro!: reqlog_ok_accept)

lemma reqlog_ok_prepare:
  "reqlog_ok E (nd_reqlog s) \<Longrightarrow> reqlog_ok E (nd_reqlog (on_prepare E m c s))"
  by (auto simp: on_prepare_def Let_def intro!: reqlog_ok_try_prepare reqlog_ok_set)

lemma reqlog_ok_commit:
  "reqlog_ok E (nd_reqlog s) \<Longrightarrow> reqlog_ok E (nd_reqlog (on_commit E m s))"
  by (auto simp: on_commit_def Let_def intro!: reqlog_ok_try_commit reqlog_ok_set)


lemma nd_reqlog_assign:
  "nd_reqlog (assign_request E m s) =
     (let n = nd_seq_num s + 1;
          e = (entry E n s)\<lparr>re_view := nd_view s, re_seq := n, re_req := m,
                re_digest := env_hash_request E m, re_has_preprepare := True,
                re_stage := PRE_PREPARED\<rparr>
      in std_set n (e\<lparr>re_prepares := insert (nd_id s) (re_prepares e)\<rparr>)
           (std_set n e (nd_reqlog s)))"
  by (simp add: assign_request_def Let_def entry_def)

lemma reqlog_ok_assign:
  "reqlog_ok E (nd_reqlog s) \<Longrightarrow> reqlog_ok E (nd_reqlog (assign_request E m s))"
  unfolding nd_reqlog_assign Let_def by (intro reqlog_ok_set) (simp_all only: entry_ok_votes entry_ok_install)

lemma reqlog_ok_request:
  "reqlog_ok E (nd_reqlog s) \<Longrightarrow> reqlog_ok E (nd_reqlog (on_request E m s))"
  by (auto simp: on_request_def Let_def send_to_client_def send_to_replica_def reqlog_ok_assign
      split: option.split)

lemma reqlog_ok_checkpoint:
  "reqlog_ok E (nd_reqlog s) \<Longrightarrow> reqlog_ok E (nd_reqlog (on_checkpoint m s))"
  by (auto simp: on_checkpoint_def Let_def)

lemma reqlog_ok_replay:
  "reqlog_ok E (nd_reqlog s) \<Longrightarrow> reqlog_ok E (nd_reqlog (replay E c pps s))"
  by (induction pps arbitrary: s) (simp_all add: reqlog_ok_preprepare_impl)

lemma reqlog_ok_newview:
  "reqlog_ok E (nd_reqlog s) \<Longrightarrow> reqlog_ok E (nd_reqlog (on_newview E m c s))"
  by (auto simp: on_newview_def Let_def intro!: reqlog_ok_replay)

lemmas reqlog_ok_handlers =
  reqlog_ok_request reqlog_ok_preprepare_impl reqlog_ok_prepare reqlog_ok_commit
  reqlog_ok_checkpoint reqlog_ok_newview

lemma reqlog_ok_step:
  assumes "reqlog_ok E (nd_reqlog s)"
  shows "reqlog_ok E (nd_reqlog (step E ev s))"
proof (cases ev)
  case (Deliver c w)
  with assms show ?thesis
    by (cases w) (simp_all add: on_preprepare_def reqlog_ok_handlers)
qed (use assms in simp_all)

lemma reqlog_inv_env: "same_env E E' \<Longrightarrow> reqlog_ok E' L = reqlog_ok E L"
  by (simp add: reqlog_ok_def entry_ok_def same_env_sel)

interpretation reqlog: node_invariant "\<lambda>E s. reqlog_ok E (nd_reqlog s)"
  by unfold_locales (simp_all add: reqlog_ok_step reqlog_inv_env, simp add: Node_ctor_def)

section \<open>The ways through a handler\<close>

text \<open>The state in which \<open>on_preprepare_impl\<close> calls \<open>try_prepare\<close>.\<close>

definition accepted_state :: "'svc env \<Rightarrow> PrePrepareMsg \<Rightarrow> 'svc node \<Rightarrow> 'svc node" where
  "accepted_state E m s =
     (let n = pp_seq_num m; s = touch_entry E n s; e = entry E n s;
          s = emit [Log (LogPrePrepareAccepted (re_digest e) (pp_req_digest m))] s;
          s = start_timer_if_not_running s;
          s = update_entry E n (\<lambda>e. e\<lparr>re_view := pp_view m, re_seq := pp_seq_num m,
                re_digest := pp_req_digest m, re_req := pp_req m,
                re_has_preprepare := True, re_stage := PRE_PREPARED\<rparr>) s;
          s = broadcast E (WPrepare (PrepareMsg_ctor (env_stream E) (nd_view s)
                (pp_seq_num m) (pp_req_digest m) (nd_id s))) s
      in update_entry E n (\<lambda>e. e\<lparr>re_prepares := insert (nd_id s) (re_prepares e)\<rparr>) s)"

lemma accept_preprepare_eq:
  "accept_preprepare E m s =
     (if re_has_preprepare (entry E (pp_seq_num m) s) \<and>
         re_digest (entry E (pp_seq_num m) s) \<noteq> pp_req_digest m
      then touch_entry E (pp_seq_num m) s
      else try_prepare E (pp_seq_num m) (accepted_state E m s))"
  by (simp add: accept_preprepare_def accepted_state_def Let_def)

lemma reqlog_ok_accepted_state:
  "reqlog_ok E (nd_reqlog s) \<Longrightarrow> reqlog_ok E (nd_reqlog (accepted_state E m s))"
  by (auto simp: accepted_state_def Let_def intro!: reqlog_ok_set)

lemma nd_h_accepted_state [simp]: "nd_h (accepted_state E m s) = nd_h s"
  by (simp add: accepted_state_def Let_def)

lemma comes_from_primary_emit [simp]:
  "comes_from_primary c (emit acts s) = comes_from_primary c s"
  by (simp add: comes_from_primary_def primary_def split: option.split)

lemma on_preprepare_impl_cases:
  obtains acts where "on_preprepare_impl E m c b s = emit acts s" "\<forall>a \<in> set acts. noise a"
  | acts where "on_preprepare_impl E m c b s = accept_preprepare E m (emit acts s)"
    "\<forall>a \<in> set acts. noise a" "in_window (pp_seq_num m) s" "pp_view m = nd_view s"
    "\<not> nd_view_changing s" "b \<or> comes_from_primary c s"
proof -
  let ?acts = "if b then [] else [count_msg (WPrePrepare m) False]"
  have "on_preprepare_impl E m c b s = emit ?acts s \<or>
      on_preprepare_impl E m c b s = emit (?acts @ [Trap DivisionByZero]) s \<or>
      on_preprepare_impl E m c b s = accept_preprepare E m (emit ?acts s) \<and>
      in_window (pp_seq_num m) s \<and> pp_view m = nd_view s \<and> \<not> nd_view_changing s \<and>
      (b \<or> comes_from_primary c s)"
    by (cases b) (simp_all add: on_preprepare_impl_def Let_def in_window_def emit_Nil emit_emit)
  then consider "on_preprepare_impl E m c b s = emit ?acts s"
    | "on_preprepare_impl E m c b s = emit (?acts @ [Trap DivisionByZero]) s"
    | "on_preprepare_impl E m c b s = accept_preprepare E m (emit ?acts s)"
      "in_window (pp_seq_num m) s" "pp_view m = nd_view s" "\<not> nd_view_changing s"
      "b \<or> comes_from_primary c s"
    by blast
  then show thesis
  proof cases
    case 1
    show thesis by (rule that(1) [OF 1]) simp
  next
    case 2
    show thesis by (rule that(1) [OF 2]) simp
  next
    case 3
    show thesis by (rule that(2) [OF 3(1) _ 3(2-5)]) simp
  qed
qed

text \<open>The state in which \<open>on_newview\<close> replays the O set.\<close>

definition entered_state :: "NewViewMsg \<Rightarrow> 'svc node \<Rightarrow> 'svc node" where
  "entered_state m s =
     (let s = emit [count_msg (WNewView m) False] s;
          s = s\<lparr>nd_view_changing := False, nd_view := trunc (nv_next_view m)\<rparr>;
          s = emit [Metric (SetView (nd_view s))] s
      in s\<lparr>nd_view_change_timeout_count := 0\<rparr>)"

lemma comes_from_primary_of_emit:
  "comes_from_primary_of c v (emit acts s) = comes_from_primary_of c v s"
  by (simp add: comes_from_primary_of_def split: option.split)

lemma on_newview_cases:
  obtains acts where "on_newview E m c s = emit acts s" "\<forall>a \<in> set acts. noise a"
  | t where "comes_from_primary_of c (trunc (nv_next_view m)) s" "nd_view_changing s"
    "zext (nd_view s) < nv_next_view m" "unat (2 * nd_f s + 1) \<le> length (nv_view_changes m)"
    "t = replay E c (nv_pre_prepares m) (entered_state m s)"
    "on_newview E m c s = manage_timer (t\<lparr>nd_seq_num := recompute_highest_sequence t\<rparr>)"
proof -
  let ?c = "count_msg (WNewView m) False"
  define t where "t = replay E c (nv_pre_prepares m) (entered_state m s)"
  have "on_newview E m c s = emit [?c] s \<or>
      on_newview E m c s = emit [?c, Trap DivisionByZero] s \<or>
      comes_from_primary_of c (trunc (nv_next_view m)) s \<and> nd_view_changing s \<and>
      zext (nd_view s) < nv_next_view m \<and> unat (2 * nd_f s + 1) \<le> length (nv_view_changes m) \<and>
      on_newview E m c s = manage_timer (t\<lparr>nd_seq_num := recompute_highest_sequence t\<rparr>)"
    by (simp add: on_newview_def t_def entered_state_def Let_def comes_from_primary_of_emit
        not_le not_less)
  then show thesis using that t_def by fastforce
qed

lemma entered_state_sel [simp]:
  "nd_id (entered_state m s) = nd_id s"
  "nd_n (entered_state m s) = nd_n s"
  "nd_h (entered_state m s) = nd_h s"
  "nd_reqlog (entered_state m s) = nd_reqlog s"
  "nd_conn_to_peer (entered_state m s) = nd_conn_to_peer s"
  "nd_view (entered_state m s) = trunc (nv_next_view m)"
  "is_vote a \<Longrightarrow> a \<in> set (nd_out (entered_state m s)) \<longleftrightarrow> a \<in> set (nd_out s)"
  by (auto simp: entered_state_def Let_def)

lemma appends_entered_state [simp]: "appends s (entered_state m s)"
  by (simp add: entered_state_def Let_def)

section \<open>Votes are never taken back\<close>

definition grows :: "ReqLogEntry \<Rightarrow> ReqLogEntry \<Rightarrow> bool" where
  "grows e e' \<longleftrightarrow> re_view e' = re_view e \<and> re_seq e' = re_seq e \<and> re_digest e' = re_digest e \<and>
     re_req e' = re_req e \<and> re_has_preprepare e' = re_has_preprepare e \<and> re_stage e \<le> re_stage e' \<and>
     re_prepares e \<subseteq> re_prepares e' \<and> re_commits e \<subseteq> re_commits e'"

definition log_grows :: "'svc node \<Rightarrow> 'svc node \<Rightarrow> bool" where
  "log_grows s t \<longleftrightarrow> (\<forall>n e. std_find (nd_reqlog s) n = Some e \<longrightarrow>
     (\<exists>e'. std_find (nd_reqlog t) n = Some e' \<and> grows e e'))"

lemma grows_refl [simp]: "grows e e"
  by (simp add: grows_def)

lemma grows_trans: "grows a b \<Longrightarrow> grows b c \<Longrightarrow> grows a c"
  by (auto simp: grows_def)

lemma log_grows_trans: "log_grows s t \<Longrightarrow> log_grows t u \<Longrightarrow> log_grows s u"
  unfolding log_grows_def by (meson grows_trans)

lemma log_grows_same: "nd_reqlog t = nd_reqlog s \<Longrightarrow> log_grows s t"
  by (auto simp: log_grows_def)

lemma log_grows_set:
  assumes "grows (entry E n s) e" and "nd_reqlog t = std_set n e (nd_reqlog s)"
  shows "log_grows s t"
  using assms by (auto simp: log_grows_def entry_def std_ref_def)

lemma log_grows_update: "grows (entry E n s) (g (entry E n s)) \<Longrightarrow> log_grows s (update_entry E n g s)"
  by (rule log_grows_set) (simp_all add: update_entry_def)

lemma log_grows_touch: "log_grows s (touch_entry E n s)"
  by (rule log_grows_set [of E n s "entry E n s"]) simp_all

lemma log_grows_try_commit: "log_grows s (try_commit E n s)"
proof (cases "commit_ready E n s")
  case True
  then show ?thesis
    by (intro log_grows_set [of E n s "(entry E n s)\<lparr>re_stage := COMMITTED\<rparr>"])
      (simp_all add: nd_reqlog_try_commit commit_ready_def grows_def less_eq_ReqStage_def)
qed (simp add: log_grows_same nd_reqlog_try_commit)

lemma log_grows_try_prepare: "log_grows s (try_prepare E n s)"
proof (cases "prepare_ready E n s")
  case True
  then have "log_grows s (prepared_state E n s)"
    by (auto simp: log_grows_def entry_def std_ref_def prepare_ready_def grows_def less_eq_ReqStage_def)
  with True log_grows_trans [OF _ log_grows_try_commit] show ?thesis by (simp add: try_prepare_eq)
qed (simp add: log_grows_same try_prepare_eq)

lemma log_grows_prepare: "log_grows s (on_prepare E m c s)"
proof -
  let ?s = "emit [count_msg (WPrepare m) False] s" and ?n = "pr_seq_num m"
  let ?t = "touch_entry E ?n ?s"
  let ?u = "update_entry E ?n (\<lambda>e. e\<lparr>re_prepares := insert (pr_replica_id m) (re_prepares e)\<rparr>)
     (emit [Log (LogPrepareAccepted (re_digest (entry E ?n ?t)) (pr_req_digest m))] ?t)"
  have t: "log_grows s ?t" by (rule log_grows_trans [OF log_grows_same log_grows_touch]) simp
  have "log_grows ?t ?u"
    by (rule log_grows_set [of E ?n ?t]) (simp_all add: update_entry_def grows_def subset_insertI)
  then have "log_grows s (try_prepare E ?n ?u)"
    using t log_grows_trans log_grows_try_prepare by blast
  with t show ?thesis by (auto simp: on_prepare_def Let_def log_grows_same)
qed

lemma log_grows_commit: "log_grows s (on_commit E m s)"
proof -
  let ?s = "emit [count_msg (WCommit m) False] s" and ?n = "cm_seq_num m"
  let ?t = "touch_entry E ?n ?s"
  let ?u = "update_entry E ?n (\<lambda>e. e\<lparr>re_commits := insert (cm_replica_id m) (re_commits e)\<rparr>) ?t"
  have t: "log_grows s ?t" by (rule log_grows_trans [OF log_grows_same log_grows_touch]) simp
  have "log_grows ?t ?u"
    by (rule log_grows_update) (simp add: grows_def subset_insertI)
  then have "log_grows s (try_commit E ?n ?u)"
    using t log_grows_trans log_grows_try_commit by blast
  with t show ?thesis by (auto simp: on_commit_def Let_def log_grows_same)
qed

end
