(* ===== verification/Node_Votes.thy ===== *)
theory Node_Votes
  imports Node_Log
begin

text \<open>
  What a node commits itself to. The lines LOCALLY PREPARED and LOCALLY COMMITTED and the commit
  messages it sends are read off its output; \<open>vote_ok\<close> ties them to the log, \<open>vote_step\<close> is the
  shape of a step that keeps it, and every event is such a step. The primary's half of the
  argument is \<open>primary_ok\<close>: it never proposes two requests under one sequence number.
\<close>

section \<open>What a node has said\<close>

text \<open>Sequence number and digest of the lines LOCALLY PREPARED and LOCALLY COMMITTED.\<close>

definition voted :: "'svc node \<Rightarrow> (u64 \<times> u256) set" where
  "voted s = {(n, d). \<exists>v op. Log (LogPrepared v op n d) \<in> set (nd_out s)}"

definition committed :: "'svc node \<Rightarrow> (u64 \<times> u256) set" where
  "committed s = {(n, d). \<exists>v op. Log (LogCommitted v op n d) \<in> set (nd_out s)}"

definition agreed :: "'svc node \<Rightarrow> u64 set" where
  "agreed s = {n. \<exists>v d. Log (LogCheckpointAgreed v n d) \<in> set (nd_out s)}"

definition sent_commits :: "'svc node \<Rightarrow> CommitMsg set" where
  "sent_commits s = {m. \<exists>c. Send c (WCommit m) \<in> set (nd_out s)}"

text \<open>
  The sequence numbers the node has prepared again after its own stable checkpoint at them. The
  garbage collection erases the entry at the low watermark, and the window test \<open>seq < h_\<close> lets
  a new pre-prepare for that number in.
\<close>

definition reopened :: "'svc node \<Rightarrow> u64 set" where
  "reopened s = {n. \<exists>pre post v d v' op d'.
     nd_out s = pre @ Log (LogCheckpointAgreed v n d) # post \<and>
     Log (LogPrepared v' op n d') \<in> set post}"

lemma said_mono:
  assumes "appends s t"
  shows "voted s \<subseteq> voted t" "committed s \<subseteq> committed t" "agreed s \<subseteq> agreed t"
    "sent_commits s \<subseteq> sent_commits t" "reopened s \<subseteq> reopened t"
proof -
  from assms obtain acts where out: "nd_out t = nd_out s @ acts" by (auto simp: appends_def)
  then show "voted s \<subseteq> voted t" "committed s \<subseteq> committed t" "agreed s \<subseteq> agreed t"
    "sent_commits s \<subseteq> sent_commits t"
    by (auto simp: voted_def committed_def agreed_def sent_commits_def)
  show "reopened s \<subseteq> reopened t"
  proof
    fix n assume "n \<in> reopened s"
    then obtain pre post v d v' op d' where
      "nd_out s = pre @ Log (LogCheckpointAgreed v n d) # post"
      "Log (LogPrepared v' op n d') \<in> set post" by (auto simp: reopened_def)
    with out have "nd_out t = pre @ Log (LogCheckpointAgreed v n d) # (post @ acts)"
      "Log (LogPrepared v' op n d') \<in> set (post @ acts)" by simp_all
    then show "n \<in> reopened t" unfolding reopened_def by blast
  qed
qed

lemma reopened_now:
  assumes "n \<in> agreed s" and "nd_out t = nd_out s @ acts" and "Log (LogPrepared v op n d) \<in> set acts"
  shows "n \<in> reopened t"
proof -
  from assms(1) obtain v' d' where "Log (LogCheckpointAgreed v' n d') \<in> set (nd_out s)"
    by (auto simp: agreed_def)
  then obtain pre post where "nd_out s = pre @ Log (LogCheckpointAgreed v' n d') # post"
    by (meson split_list)
  with assms(2,3) have "nd_out t = pre @ Log (LogCheckpointAgreed v' n d') # (post @ acts)"
    "Log (LogPrepared v op n d) \<in> set (post @ acts)" by simp_all
  then show ?thesis unfolding reopened_def by blast
qed

lemmas said_defs = voted_def committed_def agreed_def sent_commits_def

text \<open>Two states whose outputs agree on votes agree on all four.\<close>

lemma said_cong:
  assumes "\<And>a. is_vote a \<Longrightarrow> a \<in> set (nd_out s) \<longleftrightarrow> a \<in> set (nd_out t)"
  shows "voted s = voted t" "committed s = committed t" "agreed s = agreed t"
    "sent_commits s = sent_commits t"
  using assms by (simp_all add: said_defs)

definition holds_digest :: "u64 \<Rightarrow> u256 \<Rightarrow> 'svc node \<Rightarrow> bool" where
  "holds_digest n d s \<longleftrightarrow>
     (\<exists>e. std_find (nd_reqlog s) n = Some e \<and> re_has_preprepare e \<and> re_digest e = d)"

lemma holds_digest_entry:
  "holds_digest n d s \<longleftrightarrow>
     re_has_preprepare (entry E n s) \<and> re_digest (entry E n s) = d"
  by (cases "std_find (nd_reqlog s) n")
    (auto simp: holds_digest_def entry_def new_entry_def)

lemma holds_digest_unique: "holds_digest n d s \<Longrightarrow> holds_digest n d' s \<Longrightarrow> d = d'"
  by (auto simp: holds_digest_def)

section \<open>The vote invariant\<close>

text \<open>The digest \<open>d\<close> is the one for \<open>n\<close> in the log, or a checkpoint has made \<open>n\<close> history.\<close>

definition settled :: "u64 \<Rightarrow> u256 \<Rightarrow> 'svc node \<Rightarrow> bool" where
  "settled n d s \<longleftrightarrow> n < nd_h s \<or> n \<in> agreed s \<or> holds_digest n d s"

definition vote_ok :: "'svc node \<Rightarrow> bool" where
  "vote_ok s \<longleftrightarrow>
     (\<forall>n d. (n, d) \<in> voted s \<longrightarrow> settled n d s) \<and>
     (\<forall>n d d'. (n, d) \<in> voted s \<longrightarrow> (n, d') \<in> voted s \<longrightarrow> d' = d \<or> n \<in> reopened s) \<and>
     (\<forall>m \<in> sent_commits s.
        cm_replica_id m = nd_id s \<and> (cm_seq_num m, cm_req_digest m) \<in> voted s)"

text \<open>
  The shape of every step: what was settled stays settled, and a new vote is for a digest
  that is settled afterwards and contradicts nothing that was settled before.
\<close>

definition vote_step :: "'svc node \<Rightarrow> 'svc node \<Rightarrow> bool" where
  "vote_step s t \<longleftrightarrow>
     nd_id t = nd_id s \<and> appends s t \<and>
     (\<forall>n d. settled n d s \<longrightarrow> settled n d t) \<and>
     (\<forall>n d. (n, d) \<in> voted t - voted s \<longrightarrow> settled n d t \<and>
        (\<forall>d'. settled n d' s \<or> (n, d') \<in> voted t - voted s \<longrightarrow> d' = d \<or> n \<in> reopened t)) \<and>
     (\<forall>m \<in> sent_commits t. m \<in> sent_commits s \<or>
        cm_replica_id m = nd_id t \<and> (cm_seq_num m, cm_req_digest m) \<in> voted t)"

lemma vote_step_refl [simp]: "vote_step s s"
  by (simp add: vote_step_def)

lemma vote_stepD:
  assumes "vote_step s t"
  shows "nd_id t = nd_id s" and "p \<in> voted s \<Longrightarrow> p \<in> voted t"
    and "n \<in> reopened s \<Longrightarrow> n \<in> reopened t" and "settled n d s \<Longrightarrow> settled n d t"
  using assms said_mono [of s t] by (auto simp: vote_step_def)

lemma vote_step_new:
  assumes "vote_step s t" and "(n, d) \<in> voted t" and "(n, d) \<notin> voted s"
  shows "settled n d t" and "settled n d' s \<Longrightarrow> n \<notin> reopened t \<Longrightarrow> d' = d"
    and "(n, d') \<in> voted t \<Longrightarrow> (n, d') \<notin> voted s \<Longrightarrow> n \<notin> reopened t \<Longrightarrow> d' = d"
  using assms unfolding vote_step_def by blast+

lemma vote_step_sent:
  assumes "vote_step s t" and "m \<in> sent_commits t"
  obtains "m \<in> sent_commits s"
  | "cm_replica_id m = nd_id t" "(cm_seq_num m, cm_req_digest m) \<in> voted t"
  using assms by (auto simp: vote_step_def)

lemma vote_stepI:
  assumes "nd_id t = nd_id s" and "appends s t"
    and "\<And>n d. settled n d s \<Longrightarrow> settled n d t"
    and "\<And>n d. (n, d) \<in> voted t \<Longrightarrow> (n, d) \<notin> voted s \<Longrightarrow> settled n d t"
    and "\<And>n d d'. (n, d) \<in> voted t \<Longrightarrow> (n, d) \<notin> voted s \<Longrightarrow> n \<notin> reopened t \<Longrightarrow>
           settled n d' s \<or> (n, d') \<in> voted t \<and> (n, d') \<notin> voted s \<Longrightarrow> d' = d"
    and "\<And>m. m \<in> sent_commits t \<Longrightarrow> m \<in> sent_commits s \<or>
           cm_replica_id m = nd_id t \<and> (cm_seq_num m, cm_req_digest m) \<in> voted t"
  shows "vote_step s t"
  unfolding vote_step_def using assms(1-3,6) assms(4,5) by blast

lemma vote_step_trans:
  assumes st: "vote_step s t" and tu: "vote_step t u"
  shows "vote_step s u"
proof (rule vote_stepI)
  note mono = vote_stepD [OF st] vote_stepD [OF tu]
  fix n d assume new: "(n, d) \<in> voted u" "(n, d) \<notin> voted s"
  show "settled n d u"
    using new vote_step_new(1) [OF st] vote_step_new(1) [OF tu] mono by blast
  fix d' assume n: "n \<notin> reopened u"
    and d': "settled n d' s \<or> (n, d') \<in> voted u \<and> (n, d') \<notin> voted s"
  show "d' = d"
  proof (cases "(n, d) \<in> voted t")
    case True
    with new have "settled n d t" by (auto intro: vote_step_new(1) [OF st])
    with True new n d' show ?thesis
      using vote_step_new(2,3) [OF st, of n d d'] vote_step_new(2) [OF tu, of n d' d] mono by blast
  next
    case False
    from d' have "settled n d' t \<or> (n, d') \<in> voted u \<and> (n, d') \<notin> voted t"
      using vote_step_new(1) [OF st, of n d'] mono by blast
    with False new n show ?thesis
      using vote_step_new(2,3) [OF tu, of n d d'] by blast
  qed
next
  show "m \<in> sent_commits s \<or> cm_replica_id m = nd_id u \<and> (cm_seq_num m, cm_req_digest m) \<in> voted u"
    if "m \<in> sent_commits u" for m
    using tu that
  proof (cases rule: vote_step_sent)
    case 1
    with st show ?thesis
      by (cases rule: vote_step_sent) (auto dest: vote_stepD(2) [OF tu] simp: vote_stepD(1) [OF tu])
  qed auto
qed (use st tu in \<open>auto simp: vote_step_def intro: appends_trans\<close>)

lemma vote_ok_settled: "vote_ok s \<Longrightarrow> (n, d) \<in> voted s \<Longrightarrow> settled n d s"
  by (simp add: vote_ok_def)

lemma vote_ok_unique:
  "vote_ok s \<Longrightarrow> (n, d) \<in> voted s \<Longrightarrow> (n, d') \<in> voted s \<Longrightarrow> n \<notin> reopened s \<Longrightarrow> d' = d"
  unfolding vote_ok_def by blast

lemma vote_ok_step:
  assumes st: "vote_step s t" and ok: "vote_ok s"
  shows "vote_ok t"
proof -
  note mono = vote_stepD [OF st]
  have "settled n d t" if "(n, d) \<in> voted t" for n d
    using that vote_step_new(1) [OF st] vote_ok_settled [OF ok] mono by blast
  moreover have "d' = d \<or> n \<in> reopened t" if "(n, d) \<in> voted t" "(n, d') \<in> voted t" for n d d'
    using that vote_step_new(2,3) [OF st, of n d d'] vote_step_new(2) [OF st, of n d' d]
      vote_ok_settled [OF ok, of n] vote_ok_unique [OF ok, of n d d'] mono by blast
  moreover have "cm_replica_id m = nd_id t \<and> (cm_seq_num m, cm_req_digest m) \<in> voted t"
    if "m \<in> sent_commits t" for m
    using st that
  proof (cases rule: vote_step_sent)
    case 1
    with ok mono show ?thesis by (auto simp: vote_ok_def)
  qed simp
  ultimately show ?thesis unfolding vote_ok_def by blast
qed

text \<open>A step that casts no vote and keeps the accepted digests.\<close>

lemma vote_step_quiet:
  assumes "\<And>a. is_vote a \<Longrightarrow> a \<in> set (nd_out t) \<longleftrightarrow> a \<in> set (nd_out s)"
    and "appends s t" and "nd_id t = nd_id s" and "nd_h t = nd_h s"
    and "\<And>n. re_has_preprepare (entry E n s) \<Longrightarrow>
           re_has_preprepare (entry E n t) \<and> re_digest (entry E n t) = re_digest (entry E n s)"
  shows "vote_step s t"
  using assms said_cong [of t s]
  by (auto simp: vote_step_def settled_def holds_digest_entry [where E = E])

section \<open>Every operation is such a step\<close>

lemma entry_try_commit:
  "entry E m (try_commit E n s) =
     (if m = n \<and> commit_ready E n s then (entry E n s)\<lparr>re_stage := COMMITTED\<rparr> else entry E m s)"
  by (simp add: entry_def nd_reqlog_try_commit)

lemma vote_step_try_commit: "vote_step s (try_commit E n s)"
proof -
  have "voted (try_commit E n s) = voted s" "agreed (try_commit E n s) = agreed s"
    "sent_commits (try_commit E n s) = sent_commits s"
    by (auto simp: said_defs in_out_try_commit)
  then show ?thesis
    by (auto simp: vote_step_def settled_def holds_digest_entry [where E = E] entry_try_commit)
qed

lemma appends_prepared_state: "appends s (prepared_state E n s)"
  by (simp add: prepared_state_def Let_def)

lemma vote_step_prepared_state:
  assumes "reqlog_ok E (nd_reqlog s)" and "nd_h s \<le> n" and "prepare_ready E n s"
  shows "vote_step s (prepared_state E n s)"
proof -
  let ?t = "prepared_state E n s"
  from assms have seq: "re_seq (entry E n s) = n" and pp: "re_has_preprepare (entry E n s)"
    using entry_ok_entry [of E s n] by (simp_all add: prepare_ready_def entry_ok_def)
  have said: "voted ?t = insert (n, re_digest (entry E n s)) (voted s)" "agreed ?t = agreed s"
    by (auto simp: said_defs in_out_prepared_state seq)
  have sent: "m \<in> sent_commits s \<or>
      cm_replica_id m = nd_id s \<and> cm_seq_num m = n \<and> cm_req_digest m = re_digest (entry E n s)"
    if "m \<in> sent_commits ?t" for m
    using that by (auto simp: sent_commits_def in_out_prepared_state seq)
  have now: "holds_digest n (re_digest (entry E n s)) ?t"
    by (simp add: holds_digest_entry [where E = E] pp)
  have "holds_digest n' d ?t" if "holds_digest n' d s" for n' d
    using that by (auto simp: holds_digest_entry [where E = E])
  with said have keep: "settled n' d ?t" if "settled n' d s" for n' d
    using that by (auto simp: settled_def)
  have "n \<in> reopened ?t" if "n \<in> agreed s"
    using that by (rule reopened_now [where acts = "drop (length (nd_out s)) (nd_out ?t)"])
      (simp_all add: prepared_state_def seq Let_def)
  with assms(2) have old: "d' = re_digest (entry E n s) \<or> n \<in> reopened ?t" if "settled n d' s" for d'
    using that by (auto simp: settled_def holds_digest_entry [where E = E])
  from now have "settled n (re_digest (entry E n s)) ?t" by (simp add: settled_def)
  with said sent keep old appends_prepared_state [of s E n] show ?thesis
    by (intro vote_stepI) auto
qed

lemma vote_step_try_prepare:
  assumes "reqlog_ok E (nd_reqlog s)" and "nd_h s \<le> n"
  shows "vote_step s (try_prepare E n s)"
  using assms
  by (auto simp: try_prepare_eq intro: vote_step_trans vote_step_prepared_state vote_step_try_commit)


lemma vote_step_accept:
  assumes "reqlog_ok E (nd_reqlog s)" and "nd_h s \<le> pp_seq_num m"
  shows "vote_step s (accept_preprepare E m s)"
proof -
  have "vote_step s (touch_entry E (pp_seq_num m) s)"
    by (rule vote_step_quiet [where E = E]) simp_all
  moreover have "vote_step s (accepted_state E m s)"
    if "re_has_preprepare (entry E (pp_seq_num m) s) \<longrightarrow>
        re_digest (entry E (pp_seq_num m) s) = pp_req_digest m"
    using that
    by (intro vote_step_quiet [where E = E])
      (auto simp: accepted_state_def Let_def is_vote_not_timer)
  ultimately show ?thesis
    using vote_step_try_prepare [OF reqlog_ok_accepted_state [OF assms(1)]] assms(2)
    by (auto simp: accept_preprepare_eq intro: vote_step_trans)
qed

lemma vote_step_emit: "(\<And>a. a \<in> set acts \<Longrightarrow> \<not> is_vote a) \<Longrightarrow> vote_step s (emit acts s)"
  for s :: "'svc node"
  by (rule vote_step_quiet) auto

lemma vote_step_preprepare_impl:
  assumes "reqlog_ok E (nd_reqlog s)"
  shows "vote_step s (on_preprepare_impl E m c b s)"
proof (cases rule: on_preprepare_impl_cases [of E m c b s])
  case (1 acts)
  then show ?thesis by (simp add: vote_step_emit)
next
  case (2 acts)
  have "vote_step s (emit acts s)" using 2(2) by (simp add: vote_step_emit)
  moreover have "vote_step (emit acts s) (accept_preprepare E m (emit acts s))"
    using assms 2(3) by (intro vote_step_accept) (simp_all add: in_window_def not_less)
  ultimately show ?thesis unfolding 2(1) by (rule vote_step_trans)
qed

lemma vote_step_vote:
  assumes "reqlog_ok E (nd_reqlog s)" and "\<forall>a \<in> set acts. \<not> is_vote a"
    and "\<And>e. re_has_preprepare (g e) = re_has_preprepare e \<and> re_digest (g e) = re_digest e"
  shows "vote_step s (update_entry E n g (emit acts (touch_entry E n s)))"
  using assms by (intro vote_step_quiet [where E = E]) auto

lemma vote_step_prepare:
  assumes "reqlog_ok E (nd_reqlog s)"
  shows "vote_step s (on_prepare E m c s)"
proof -
  let ?n = "pr_seq_num m" and ?s = "emit [count_msg (WPrepare m) False] s"
  let ?t = "touch_entry E ?n ?s"
  let ?u = "update_entry E ?n (\<lambda>e. e\<lparr>re_prepares := insert (pr_replica_id m) (re_prepares e)\<rparr>)
     (emit [Log (LogPrepareAccepted (re_digest (entry E ?n ?t)) (pr_req_digest m))] ?t)"
  have "vote_step s ?s" "vote_step s (emit [Trap DivisionByZero] ?s)" "vote_step s ?t" "vote_step s ?u"
    by (rule vote_step_quiet [where E = E]; auto)+
  moreover have "vote_step ?u (try_prepare E ?n ?u)" if "in_window ?n ?s"
    using assms that by (intro vote_step_try_prepare reqlog_ok_update_entry) (auto simp: in_window_def intro!: reqlog_ok_set)
  ultimately show ?thesis
    by (auto simp: on_prepare_def Let_def intro: vote_step_trans)
qed

lemma vote_step_commit:
  assumes "reqlog_ok E (nd_reqlog s)"
  shows "vote_step s (on_commit E m s)"
proof -
  let ?n = "cm_seq_num m" and ?s = "emit [count_msg (WCommit m) False] s"
  let ?t = "touch_entry E ?n ?s"
  let ?u = "update_entry E ?n (\<lambda>e. e\<lparr>re_commits := insert (cm_replica_id m) (re_commits e)\<rparr>) ?t"
  have "vote_step s ?s" "vote_step s ?t" "vote_step s ?u"
    by (rule vote_step_quiet [where E = E]; auto)+
  then show ?thesis
    using vote_step_try_commit [of ?u E ?n]
    by (auto simp: on_commit_def Let_def intro: vote_step_trans)
qed

lemma agreed_stabilise: "agreed (stabilise n d s) = insert n (agreed s)"
  by (auto simp: said_defs stable_defs Let_def)

lemma said_stabilise [simp]:
  "voted (stabilise n d s) = voted s" "committed (stabilise n d s) = committed s"
  "sent_commits (stabilise n d s) = sent_commits s"
  by (auto simp: said_defs stable_defs Let_def)

lemma vote_step_stabilise:
  assumes "nd_h s \<le> n"
  shows "vote_step s (stabilise n d s)"
proof -
  have "settled k d' (stabilise n d s)" if "settled k d' s" for k d'
    using that assms
    by (cases "k < n"; cases "k = n")
      (auto simp: settled_def agreed_stabilise holds_digest_def restrict_map_def)
  then show ?thesis by (intro vote_stepI) (auto simp: agreed_stabilise)
qed

lemma vote_step_checkpoint: "vote_step s (on_checkpoint m s)"
proof -
  let ?s = "emit [count_msg (WCheckpoint m) False] s"
  let ?t = "\<lambda>cps. ?s\<lparr>nd_checkpoints := cps\<rparr>"
  have "vote_step s ?s" and t: "\<And>cps. vote_step s (?t cps)"
    by (rule vote_step_quiet; simp add: entry_def; auto)+
  moreover have "vote_step s (stabilise (ck_seq_num m) (ck_state_digest m) (?t cps))"
    if "\<not> ck_seq_num m < nd_h s" for cps
    using that by (intro vote_step_trans [OF t vote_step_stabilise]) simp
  ultimately show ?thesis by (simp add: on_checkpoint_def Let_def)
qed


section \<open>The primary never reuses a sequence number\<close>

definition proposed :: "'svc node \<Rightarrow> u64 set" where
  "proposed s = {n. \<exists>e. std_find (nd_reqlog s) n = Some e \<and> re_has_preprepare e}"

lemma proposed_entry: "n \<in> proposed s \<longleftrightarrow> re_has_preprepare (entry E n s)"
  by (cases "std_find (nd_reqlog s) n") (auto simp: proposed_def entry_def new_entry_def)

text \<open>
  No connection passes for the node itself, and while the node is primary every accepted
  pre-prepare lies at or below the last assigned number.
\<close>

definition primary_ok :: "'svc node \<Rightarrow> bool" where
  "primary_ok s \<longleftrightarrow>
     (\<forall>c. nd_conn_to_peer s c \<noteq> Some (nd_id s)) \<and>
     (is_primary s \<longrightarrow> (\<forall>n \<in> proposed s. n \<le> nd_seq_num s))"

lemma primary_ok_cong:
  assumes "primary_ok s" and "nd_conn_to_peer t = nd_conn_to_peer s" and "nd_id t = nd_id s"
    and "nd_n t = nd_n s" and "nd_view t = nd_view s" and "nd_seq_num t = nd_seq_num s"
    and "is_primary s \<Longrightarrow> proposed t \<subseteq> proposed s"
  shows "primary_ok t"
  using assms by (auto simp: primary_ok_def is_primary_def)

lemma proposed_le_recompute:
  assumes "std_wf (nd_reqlog s)" and "n \<in> proposed s"
  shows "n \<le> recompute_highest_sequence s"
proof -
  from assms(2) obtain e where e: "std_find (nd_reqlog s) n = Some e"
    by (auto simp: proposed_def)
  then have "n \<le> fst (last (nd_reqlog s))" by (rule std.last_key_max [OF assms(1)])
  moreover from e have "nd_reqlog s \<noteq> []" by auto
  ultimately show ?thesis
    by (simp add: recompute_highest_sequence_def Let_def le_max_iff_disj)
qed

lemma proposed_cong:
  assumes "\<And>n. re_has_preprepare (entry E n t) = re_has_preprepare (entry E n s)"
  shows "proposed t = proposed s"
  using assms by (auto simp: proposed_entry [where E = E])

lemma has_preprepare_try [simp]:
  "re_has_preprepare (entry E m (try_commit E n s)) = re_has_preprepare (entry E m s)"
  "re_has_preprepare (entry E m (try_prepare E n s)) = re_has_preprepare (entry E m s)"
  by (simp_all add: entry_try_commit try_prepare_eq)

lemma proposed_on_prepare: "proposed (on_prepare E m c s) = proposed s"
  by (rule proposed_cong [where E = E]) (simp add: on_prepare_def Let_def)

lemma proposed_on_commit: "proposed (on_commit E m s) = proposed s"
  by (rule proposed_cong [where E = E]) (simp add: on_commit_def Let_def)

lemma preprepare_at_primary:
  assumes "primary_ok s" and "is_primary s"
  shows "proposed (on_preprepare E m c s) = proposed s"
proof -
  from assms have "\<not> comes_from_primary c s"
    by (auto simp: comes_from_primary_def primary_ok_def is_primary_def primary_def
        split: option.splits)
  then show ?thesis
    by (auto simp: on_preprepare_def on_preprepare_impl_def Let_def proposed_def)
qed

lemma fresh_sequence_number:
  assumes "primary_ok s" and "is_primary s" and "nd_seq_num s < nd_H s"
  shows "nd_seq_num s < nd_seq_num s + 1" and "nd_seq_num s + 1 \<notin> proposed s"
proof -
  show "nd_seq_num s < nd_seq_num s + 1" using assms(3) by (rule u64_succ_gt)
  then show "nd_seq_num s + 1 \<notin> proposed s"
    using assms(1,2) by (auto simp: primary_ok_def)
qed

lemma proposed_assign:
  "proposed (assign_request E m s) = insert (nd_seq_num s + 1) (proposed s)"
  by (auto simp: proposed_def nd_reqlog_assign Let_def)

lemma nd_seq_num_assign [simp]: "nd_seq_num (assign_request E m s) = nd_seq_num s + 1"
  by (simp add: assign_request_def Let_def)

lemma on_request_orders:
  assumes "\<And>info. nd_last_replies s (rq_client_id m) = Some info \<Longrightarrow> cri_timestamp info \<noteq> rq_timestamp m"
    and "\<not> nd_view_changing s" and "nd_n s \<noteq> 0" and "is_primary s"
    and "nd_h s \<le> nd_seq_num s" and "nd_seq_num s < nd_H s" and "\<not> in_progress m s"
  shows "on_request E m s = assign_request E m (emit [count_msg (WRequest m) False] s)"
proof (cases "nd_last_replies s (rq_client_id m)")
  case None
  with assms(2-) show ?thesis by (simp add: on_request_def in_progress_def is_primary_def Let_def not_less not_le)
next
  case (Some info)
  with assms(1) [OF this] assms(2-) show ?thesis
    by (simp add: on_request_def in_progress_def is_primary_def Let_def not_less not_le)
qed

lemma on_request_cases:
  obtains "nd_reqlog (on_request E m s) = nd_reqlog s" "nd_seq_num (on_request E m s) = nd_seq_num s"
  | "is_primary s" "nd_h s \<le> nd_seq_num s" "nd_seq_num s < nd_H s"
    "on_request E m s = assign_request E m (emit [count_msg (WRequest m) False] s)"
proof -
  have "on_request E m s = assign_request E m (emit [count_msg (WRequest m) False] s) \<and>
      is_primary s \<and> nd_h s \<le> nd_seq_num s \<and> nd_seq_num s < nd_H s \<or>
     nd_reqlog (on_request E m s) = nd_reqlog s \<and> nd_seq_num (on_request E m s) = nd_seq_num s"
    by (cases "nd_last_replies s (rq_client_id m)")
      (simp_all add: on_request_def Let_def send_to_client_def send_to_replica_def is_primary_def not_less not_le)
  with that show thesis by blast
qed

lemma primary_ok_request:
  assumes "primary_ok s"
  shows "primary_ok (on_request E m s)"
proof (cases rule: on_request_cases [of E m s])
  case 1
  with assms show ?thesis by (intro primary_ok_cong [OF assms]) (simp_all add: proposed_def)
next
  case 2
  let ?s = "emit [count_msg (WRequest m) False] s"
  from 2(1,3) have "nd_seq_num s < nd_seq_num s + 1"
    using fresh_sequence_number(1) [OF assms] by simp
  moreover have "proposed ?s = proposed s" by (simp add: proposed_def)
  ultimately show ?thesis
    using assms 2(1) unfolding 2(4)
    by (auto simp: primary_ok_def proposed_assign is_primary_def intro: order_trans less_imp_le)
qed

lemma vote_step_request:
  assumes "reqlog_ok E (nd_reqlog s)" and "primary_ok s"
  shows "vote_step s (on_request E m s)"
proof (cases rule: on_request_cases [of E m s])
  case 1
  then show ?thesis by (intro vote_step_quiet [where E = E]) (simp_all add: entry_def)
next
  case 2
  let ?n = "nd_seq_num s + 1"
  have "?n \<notin> proposed s"
    by (rule fresh_sequence_number(2) [OF assms(2) 2(1) 2(3)])
  then have "\<not> re_has_preprepare (entry E ?n s)" by (simp add: proposed_entry [where E = E])
  then show ?thesis
    by (intro vote_step_quiet [where E = E])
      (simp_all, auto simp: 2(4) nd_reqlog_assign entry_def Let_def)
qed

lemma vote_step_viewchange: "vote_step s (on_viewchange E m s)"
  by (rule vote_step_quiet) (simp_all add: entry_def)

lemma vote_step_start: "vote_step s (start_view_change E s)"
  by (rule vote_step_quiet) (simp_all add: entry_def)

lemma vote_step_replay:
  "reqlog_ok E (nd_reqlog s) \<Longrightarrow> vote_step s (replay E c pps s)"
proof (induction pps arbitrary: s)
  case (Cons pp pps)
  from Cons.prems have "reqlog_ok E (nd_reqlog (on_preprepare_impl E pp c True s))"
    by (rule reqlog_ok_preprepare_impl)
  from vote_step_trans [OF vote_step_preprepare_impl [OF Cons.prems] Cons.IH [OF this]]
  show ?case by simp
qed simp

lemma vote_step_newview:
  assumes "reqlog_ok E (nd_reqlog s)"
  shows "vote_step s (on_newview E m c s)"
proof (cases rule: on_newview_cases [of E m c s])
  case (1 acts)
  then show ?thesis by (auto intro: vote_step_emit)
next
  case (2 t)
  let ?u = "t\<lparr>nd_seq_num := recompute_highest_sequence t\<rparr>"
  have "vote_step s (entered_state m s)"
    by (rule vote_step_quiet) (simp_all add: entry_def)
  moreover have "vote_step (entered_state m s) t"
    unfolding 2(5) using assms by (intro vote_step_replay) simp
  moreover have "vote_step t (manage_timer ?u)"
    by (rule vote_step_quiet) (simp_all add: entry_def is_vote_not_timer)
  ultimately show ?thesis unfolding 2(6) by (blast intro: vote_step_trans)
qed

section \<open>The invariant of a node\<close>

text \<open>
  The events a node is exposed to: a peer that has completed the TLS handshake does not
  introduce itself under the node's own identity.
\<close>

fun admissible :: "u32 \<Rightarrow> event \<Rightarrow> bool" where
  "admissible i (Deliver c (WHandshake m)) = (hs_id m \<noteq> i)"
| "admissible i _ = True"

lemma primary_ok_preprepare:
  assumes "primary_ok s"
  shows "primary_ok (on_preprepare E m c s)"
  using preprepare_at_primary [OF assms]
  by (intro primary_ok_cong [OF assms]) (simp_all add: on_preprepare_def)

lemma primary_ok_recomputed:
  assumes "primary_ok s" and "std_wf (nd_reqlog u)" and "nd_seq_num t = recompute_highest_sequence u"
    and "proposed t \<subseteq> proposed u" and "nd_conn_to_peer t = nd_conn_to_peer s" and "nd_id t = nd_id s"
  shows "primary_ok t"
  using assms proposed_le_recompute [OF assms(2)] by (auto simp: primary_ok_def)

lemma primary_ok_checkpoint:
  assumes "primary_ok s" and "std_wf (nd_reqlog s)"
  shows "primary_ok (on_checkpoint m s)"
proof -
  let ?s = "emit [count_msg (WCheckpoint m) False] s"
  let ?t = "\<lambda>cps. ?s\<lparr>nd_checkpoints := cps\<rparr>"
  have "primary_ok ?s" "primary_ok (?t cps)" for cps
    by (rule primary_ok_cong [OF assms(1)]; simp add: proposed_def)+
  moreover have "primary_ok (stabilise n d (?t cps))" for n d cps
    using assms
    by (intro primary_ok_recomputed [OF assms(1), where u = "advance_watermarks n (?t cps)"])
      (auto simp: stable_defs
        recompute_highest_sequence_def proposed_def restrict_map_def Let_def split: if_splits)
  ultimately show ?thesis by (simp add: on_checkpoint_def Let_def)
qed

lemma primary_ok_enter:
  assumes "primary_ok s" and "std_wf (nd_reqlog s)"
  shows "primary_ok (enter_view E v V O' s)"
  by (rule primary_ok_recomputed [OF assms(1), where u = s])
    (auto simp: assms enter_view_def recompute_highest_sequence_def proposed_def Let_def)

lemma primary_ok_viewchange:
  assumes "primary_ok s" and "std_wf (nd_reqlog s)"
  shows "primary_ok (on_viewchange E m s)"
proof -
  let ?s = "emit [count_msg (WViewChange m) False] s"
  have "primary_ok ?s" "primary_ok (emit acts ?s)" "primary_ok (store_view_change m ?s)"
    "primary_ok (emit acts (store_view_change m ?s))" for acts
    by (rule primary_ok_cong [OF assms(1)]; simp add: proposed_def)+
  with assms show ?thesis
    by (simp add: on_viewchange_def Let_def primary_ok_enter split: option.split)
qed

lemma primary_ok_start:
  assumes "primary_ok s" and "std_wf (nd_reqlog s)"
  shows "primary_ok (start_view_change E s)"
  unfolding start_view_change_def Let_def
  by (rule primary_ok_viewchange, (rule primary_ok_cong [OF assms(1)]; simp add: proposed_def))
    (simp add: assms)

lemma primary_ok_newview:
  assumes "primary_ok s"
  shows "primary_ok (on_newview E m c s)"
proof (cases rule: on_newview_cases [of E m c s])
  case (1 acts)
  then show ?thesis by (intro primary_ok_cong [OF assms]) (simp_all add: proposed_def)
next
  case (2 t)
  then have "\<not> is_primary (on_newview E m c s)"
    using assms
    by (auto simp: comes_from_primary_of_def is_primary_def primary_ok_def split: option.splits)
  moreover have "nd_conn_to_peer (on_newview E m c s) = nd_conn_to_peer s"
    "nd_id (on_newview E m c s) = nd_id s"
    using 2 by simp_all
  ultimately show ?thesis using assms by (simp add: primary_ok_def)
qed

definition node_ok :: "'svc env \<Rightarrow> 'svc node \<Rightarrow> bool" where
  "node_ok E s \<longleftrightarrow> reqlog_ok E (nd_reqlog s) \<and> primary_ok s"

lemma node_ok_ctor: "node_ok E (Node_ctor E i cfg svc b)"
  by (simp add: node_ok_def Node_ctor_def primary_ok_def proposed_def)

lemma primary_ok_step:
  assumes "primary_ok s" and "std_wf (nd_reqlog s)" and "admissible (nd_id s) ev"
  shows "primary_ok (step E ev s)"
proof (cases ev)
  case (Deliver c w)
  show ?thesis
  proof (cases w)
    case (WHandshake m)
    with Deliver assms show ?thesis
      by (auto simp: primary_ok_def on_handshake_def Let_def is_primary_def proposed_def)
  next
    case (WPrepare m)
    with Deliver show ?thesis
      by (intro primary_ok_cong [OF assms(1)]) (simp_all add: proposed_on_prepare)
  next
    case (WCommit m)
    with Deliver show ?thesis
      by (intro primary_ok_cong [OF assms(1)]) (simp_all add: proposed_on_commit)
  qed (use assms Deliver in \<open>simp_all add: primary_ok_request primary_ok_preprepare
      primary_ok_checkpoint primary_ok_viewchange primary_ok_newview\<close>)
next
  case Timeout
  with assms show ?thesis by (simp add: primary_ok_start)
qed (rule primary_ok_cong [OF assms(1)]; simp add: proposed_def)+

lemma node_ok_step:
  "node_ok E s \<Longrightarrow> admissible (nd_id s) ev \<Longrightarrow> node_ok E (step E ev s)"
  using primary_ok_step [of s ev E] reqlog_ok_step [of E s ev]
  by (simp add: node_ok_def) (simp add: reqlog_ok_def)

lemma vote_step_step:
  assumes "node_ok E s"
  shows "vote_step s (step E ev s)"
proof (cases ev)
  case (Deliver c w)
  show ?thesis
  proof (cases w)
    case (WHandshake m)
    with Deliver show ?thesis by (intro vote_step_quiet) (simp_all add: entry_def)
  qed (use assms Deliver in \<open>simp_all add: node_ok_def on_preprepare_def vote_step_request
      vote_step_preprepare_impl vote_step_prepare vote_step_commit vote_step_checkpoint
      vote_step_viewchange vote_step_newview\<close>)
next
  case Timeout
  then show ?thesis by (simp add: vote_step_start)
qed (rule vote_step_quiet; simp add: entry_def appends_same)+

end
