(* ===== verification/Node_Certificates.thy ===== *)
theory Node_Certificates
  imports Node_Votes
begin

text \<open>
  What stands behind a commit. \<open>V r n d\<close> is any record of votes ("replica r has voted for digest d
  at n"); if it contains the node's own votes and the votes of the commit messages delivered to
  it, then every line LOCALLY COMMITTED of the node is backed by a quorum of recorded votes. A
  commit message that arrives before the pre-prepare is compared with the default digest, so a
  vote for that digest also counts, and \<open>backed\<close> says so.
\<close>

type_synonym vote_record = "u32 \<Rightarrow> u64 \<Rightarrow> u256 \<Rightarrow> bool"

definition backed :: "vote_record \<Rightarrow> 'svc env \<Rightarrow> u64 \<Rightarrow> u256 \<Rightarrow> u32 set" where
  "backed V E n d = {r. V r n d \<or> V r n (env_null_digest E)}"

definition certified :: "vote_record \<Rightarrow> 'svc env \<Rightarrow> 'svc node \<Rightarrow> bool" where
  "certified V E s \<longleftrightarrow>
     (\<forall>n. re_commits (entry E n s) \<subseteq> backed V E n (re_digest (entry E n s))) \<and>
     (\<forall>n d. (n, d) \<in> committed s \<longrightarrow> unat (2 * nd_f s + 1) \<le> card (backed V E n d))"

definition own :: "vote_record \<Rightarrow> 'svc node \<Rightarrow> bool" where
  "own V s \<longleftrightarrow> (\<forall>n d. (n, d) \<in> voted s \<longrightarrow> V (nd_id s) n d)"

lemma backed_mono:
  assumes "\<And>r n d. V r n d \<Longrightarrow> V' r n d"
  shows "backed V E n d \<subseteq> backed V' E n d"
  using assms by (auto simp: backed_def)

lemma certified_mono:
  assumes "\<And>r n d. V r n d \<Longrightarrow> V' r n d" and "certified V E s"
  shows "certified V' E s"
proof -
  have *: "backed V E n d \<subseteq> backed V' E n d" for n d using assms(1) by (rule backed_mono)
  then have "card (backed V E n d) \<le> card (backed V' E n d)" for n d by (simp add: card_mono)
  with * assms(2) show ?thesis unfolding certified_def by (meson order_trans)
qed

lemma backed_null: "backed V E n (env_null_digest E) \<subseteq> backed V E n d"
  by (auto simp: backed_def)

lemma certified_quiet:
  assumes "certified V E s" and "committed t = committed s" and "nd_f t = nd_f s"
    and "\<And>n. re_commits (entry E n t) \<subseteq> backed V E n (re_digest (entry E n t))"
  shows "certified V E t"
  using assms by (simp add: certified_def)

lemma certified_entry:
  "certified V E s \<Longrightarrow> re_commits (entry E n s) \<subseteq> backed V E n (re_digest (entry E n s))"
  by (simp add: certified_def)

text \<open>A step that casts no vote and changes no entry.\<close>

lemma certified_same:
  assumes "certified V E s" and "nd_f t = nd_f s" and "nd_reqlog t = nd_reqlog s"
    and "\<And>a. is_vote a \<Longrightarrow> a \<in> set (nd_out t) \<longleftrightarrow> a \<in> set (nd_out s)"
  shows "certified V E t"
  using assms said_cong(2) [of t s]
  by (intro certified_quiet [OF assms(1)]) (simp_all add: certified_entry entry_cong [of t s])

section \<open>Every operation keeps the certificates\<close>

lemma certified_try_commit:
  assumes "certified V E s" and "reqlog_ok E (nd_reqlog s)"
  shows "certified V E (try_commit E n s)"
proof -
  let ?e = "entry E n s"
  have entries: "re_commits (entry E k (try_commit E n s)) \<subseteq>
      backed V E k (re_digest (entry E k (try_commit E n s)))" for k
    using certified_entry [OF assms(1)] by (simp add: entry_try_commit)
  have seq: "re_seq ?e = n" if "commit_ready E n s"
    using that entry_ok_entry [OF assms(2), of n]
    by (auto simp: commit_ready_def entry_ok_def split: if_splits)
  have "unat (2 * nd_f s + 1) \<le> card (backed V E n (re_digest ?e))" if "commit_ready E n s"
    using that card_mono [OF _ certified_entry [OF assms(1), of n]]
    by (auto simp: commit_ready_def intro: order_trans)
  note * = this
  have "unat (2 * nd_f s + 1) \<le> card (backed V E k d)"
    if "(k, d) \<in> committed (try_commit E n s)" for k d
  proof -
    have "(k, d) \<in> committed s \<or> commit_ready E n s \<and> k = n \<and> d = re_digest ?e"
      using that seq by (auto simp: committed_def in_out_try_commit)
    with * assms(1) show ?thesis by (auto simp: certified_def)
  qed
  with entries show ?thesis by (simp add: certified_def)
qed

lemma voted_prepared_state:
  assumes "reqlog_ok E (nd_reqlog s)" and "prepare_ready E n s"
  shows "(n, re_digest (entry E n s)) \<in> voted (prepared_state E n s)"
  using assms entry_ok_entry [of E s n]
  by (auto simp: voted_def in_out_prepared_state prepare_ready_def entry_ok_def)

lemma certified_try_prepare:
  assumes "certified V E s" and "reqlog_ok E (nd_reqlog s)" and "own V (try_prepare E n s)"
  shows "certified V E (try_prepare E n s)"
proof (cases "prepare_ready E n s")
  case True
  let ?t = "prepared_state E n s"
  from True have "V (nd_id s) n (re_digest (entry E n s))"
    using assms(3) voted_prepared_state [OF assms(2) True]
      vote_stepD(2) [OF vote_step_try_commit [of ?t E n]]
    by (simp add: own_def try_prepare_eq)
  then have "certified V E ?t"
    using certified_entry [OF assms(1)]
    by (intro certified_quiet [OF assms(1)])
      (auto simp: committed_def in_out_prepared_state backed_def)
  from certified_try_commit [OF this reqlog_ok_prepared_state [OF assms(2) True]] True
  show ?thesis by (simp add: try_prepare_eq)
qed (simp add: try_prepare_eq assms)

lemma certified_accept:
  assumes "certified V E s" and "reqlog_ok E (nd_reqlog s)" and "own V (accept_preprepare E m s)"
  shows "certified V E (accept_preprepare E m s)"
proof -
  let ?n = "pp_seq_num m"
  have "certified V E (touch_entry E ?n s)"
    using certified_entry [OF assms(1)]
    by (intro certified_quiet [OF assms(1)]) (simp_all add: committed_def)
  moreover have "certified V E (accepted_state E m s)"
    if "re_has_preprepare (entry E ?n s) \<longrightarrow> re_digest (entry E ?n s) = pp_req_digest m"
  proof (rule certified_quiet [OF assms(1)])
    have "re_commits (entry E ?n s) \<subseteq> backed V E ?n (pp_req_digest m)"
      using certified_entry [OF assms(1), of ?n] that entry_ok_entry [OF assms(2), of ?n]
        backed_null [of V E ?n "pp_req_digest m"]
      by (auto simp: entry_ok_def split: if_splits)
    then show "re_commits (entry E k (accepted_state E m s)) \<subseteq>
        backed V E k (re_digest (entry E k (accepted_state E m s)))" for k
      using certified_entry [OF assms(1)] by (simp add: accepted_state_def Let_def)
  qed (auto simp: accepted_state_def committed_def is_vote_not_timer Let_def)
  ultimately show ?thesis
    using assms(3) certified_try_prepare [OF _ reqlog_ok_accepted_state [OF assms(2)]]
    by (auto simp: accept_preprepare_eq)
qed

lemma certified_emit:
  "certified V E s \<Longrightarrow> \<forall>a \<in> set acts. \<not> is_vote a \<Longrightarrow> certified V E (emit acts s)"
  by (rule certified_same) auto

lemma certified_preprepare_impl:
  assumes "certified V E s" and "reqlog_ok E (nd_reqlog s)" and "own V (on_preprepare_impl E m c b s)"
  shows "certified V E (on_preprepare_impl E m c b s)"
proof (cases rule: on_preprepare_impl_cases [of E m c b s])
  case (1 acts)
  with assms(1) show ?thesis by (simp add: certified_emit)
next
  case (2 acts)
  with assms show ?thesis by (simp add: certified_accept certified_emit)
qed

lemma certified_vote:
  assumes "certified V E s" and "V r n (re_digest (entry E n s))"
  shows "certified V E (update_entry E n (\<lambda>e. e\<lparr>re_commits := insert r (re_commits e)\<rparr>) s)"
  using assms certified_entry [OF assms(1)]
  by (intro certified_quiet [OF assms(1)]) (auto simp: committed_def backed_def)

lemma certified_touch: "certified V E s \<Longrightarrow> certified V E (touch_entry E n s)"
  by (rule certified_quiet) (simp_all add: committed_def certified_entry)

lemma certified_commit:
  assumes "certified V E s" and "reqlog_ok E (nd_reqlog s)"
    and "V (cm_replica_id m) (cm_seq_num m) (cm_req_digest m)"
  shows "certified V E (on_commit E m s)"
proof -
  let ?n = "cm_seq_num m" and ?s = "emit [count_msg (WCommit m) False] s"
  let ?t = "touch_entry E ?n ?s"
  let ?u = "update_entry E ?n (\<lambda>e. e\<lparr>re_commits := insert (cm_replica_id m) (re_commits e)\<rparr>) ?t"
  have s: "certified V E ?s" using assms(1) by (simp add: certified_emit)
  then have t: "certified V E ?t" by (rule certified_touch)
  have "certified V E ?u" if "re_digest (entry E ?n ?t) = cm_req_digest m"
    using t assms(3) that by (intro certified_vote) simp_all
  moreover have "reqlog_ok E (nd_reqlog ?u)"
    using assms(2) by (intro reqlog_ok_update_entry reqlog_ok_touch) simp_all
  ultimately show ?thesis
    using s t by (auto simp: on_commit_def Let_def intro!: certified_try_commit)
qed

lemma certified_prepare:
  assumes "certified V E s" and "reqlog_ok E (nd_reqlog s)" and "own V (on_prepare E m c s)"
  shows "certified V E (on_prepare E m c s)"
proof -
  let ?n = "pr_seq_num m" and ?s = "emit [count_msg (WPrepare m) False] s"
  let ?t = "touch_entry E ?n ?s"
  let ?u = "update_entry E ?n (\<lambda>e. e\<lparr>re_prepares := insert (pr_replica_id m) (re_prepares e)\<rparr>)
     (emit [Log (LogPrepareAccepted (re_digest (entry E ?n ?t)) (pr_req_digest m))] ?t)"
  have s: "certified V E ?s" "certified V E (emit [Trap DivisionByZero] ?s)"
    using assms(1) by (simp_all add: certified_emit)
  then have t: "certified V E ?t" by (intro certified_touch)
  have "certified V E ?u"
    using certified_entry [OF assms(1)]
    by (intro certified_quiet [OF assms(1)]) (simp_all add: committed_def)
  moreover have "reqlog_ok E (nd_reqlog ?u)"
    using assms(2) by (auto intro!: reqlog_ok_set)
  ultimately show ?thesis
    using s t assms(3) by (auto simp: on_prepare_def Let_def intro!: certified_try_prepare split: if_splits)
qed

lemma certified_request:
  assumes "certified V E s" and "node_ok E s"
  shows "certified V E (on_request E m s)"
proof (cases rule: on_request_cases [of E m s])
  case 1
  with assms(1) show ?thesis by (intro certified_same [OF assms(1)]) simp_all
next
  case 2
  let ?n = "nd_seq_num s + 1"
  from assms(2) have "?n \<notin> proposed s"
    using fresh_sequence_number(2) 2(1,3) by (auto simp: node_ok_def)
  with assms(2) have "re_digest (entry E ?n s) = env_null_digest E"
    using entry_ok_entry [of E s ?n]
    by (simp add: proposed_entry [where E = E] node_ok_def entry_ok_def)
  then have "re_commits (entry E ?n s) \<subseteq> backed V E ?n d" for d
    using certified_entry [OF assms(1), of ?n] backed_null [of V E ?n d] by auto
  then have "re_commits (entry E k (assign_request E m s)) \<subseteq>
      backed V E k (re_digest (entry E k (assign_request E m s)))" for k
    using certified_entry [OF assms(1), of k]
    by (auto simp: entry_def nd_reqlog_assign Let_def)
  moreover have "committed (on_request E m s) = committed s"
    by (rule said_cong) simp
  ultimately show ?thesis
    using 2(4) by (intro certified_quiet [OF assms(1)])
      (simp_all add: entry_def nd_reqlog_assign Let_def)
qed

lemma certified_checkpoint:
  assumes "certified V E s"
  shows "certified V E (on_checkpoint m s)"
proof -
  let ?s = "emit [count_msg (WCheckpoint m) False] s"
  have "certified V E ?s" "\<And>cps. certified V E (?s\<lparr>nd_checkpoints := cps\<rparr>)"
    by (rule certified_same [OF assms]; auto)+
  moreover have "certified V E (stabilise n d t)" if t: "certified V E t" for n d and t :: "'a node"
    using certified_entry [OF t]
    by (intro certified_quiet [OF t])
      (auto simp: entry_def std_ref_def restrict_map_def new_entry_def split: option.splits if_splits)
  ultimately show ?thesis by (simp add: on_checkpoint_def Let_def)
qed

lemma own_mono: "own V t \<Longrightarrow> vote_step s t \<Longrightarrow> own V s"
  using vote_stepD(1,2) [of s t] by (auto simp: own_def)

lemma certified_replay:
  assumes "certified V E s" and "reqlog_ok E (nd_reqlog s)" and "own V (replay E c pps s)"
  shows "certified V E (replay E c pps s)"
  using assms
proof (induction pps arbitrary: s)
  case (Cons pp pps)
  let ?t = "on_preprepare_impl E pp c True s"
  have "reqlog_ok E (nd_reqlog ?t)" using Cons.prems(2) by (rule reqlog_ok_preprepare_impl)
  moreover have "own V ?t"
    using Cons.prems(3) own_mono [OF _ vote_step_replay [OF calculation]] by simp
  ultimately show ?case
    using Cons.prems by (auto intro!: Cons.IH certified_preprepare_impl)
qed simp

lemma certified_newview:
  assumes "certified V E s" and "reqlog_ok E (nd_reqlog s)" and "own V (on_newview E m c s)"
  shows "certified V E (on_newview E m c s)"
proof (cases rule: on_newview_cases [of E m c s])
  case (1 acts)
  with assms(1) show ?thesis by (simp add: certified_emit)
next
  case (2 t)
  let ?u = "t\<lparr>nd_seq_num := recompute_highest_sequence t\<rparr>"
  have "certified V E (entered_state m s)"
    by (rule certified_same [OF assms(1)]) (simp_all add: entered_state_def Let_def, auto)
  moreover have "own V t"
    using assms(3) by (simp add: 2(6) own_def voted_def)
  ultimately have "certified V E t"
    using assms(2) unfolding 2(5) by (intro certified_replay) simp_all
  then show ?thesis unfolding 2(6)
    by (rule certified_same) (simp_all add: is_vote_not_timer)
qed

text \<open>The one event that brings votes of others is the delivery of a commit message.\<close>

fun vouched :: "vote_record \<Rightarrow> event \<Rightarrow> bool" where
  "vouched V (Deliver c (WCommit m)) = V (cm_replica_id m) (cm_seq_num m) (cm_req_digest m)"
| "vouched V _ = True"

lemma certified_step:
  assumes "certified V E s" and "node_ok E s" and "vouched V ev" and "own V (step E ev s)"
  shows "certified V E (step E ev s)"
proof (cases ev)
  case (Deliver c w)
  have ok: "reqlog_ok E (nd_reqlog s)" using assms(2) by (simp add: node_ok_def)
  show ?thesis
  proof (cases w)
    case (WHandshake m)
    with Deliver show ?thesis by (intro certified_same [OF assms(1)]) simp_all
  next
    case (WViewChange m)
    with Deliver show ?thesis by (intro certified_same [OF assms(1)]) simp_all
  qed (use assms Deliver ok in \<open>simp_all add: on_preprepare_def certified_request
      certified_preprepare_impl certified_prepare certified_commit certified_checkpoint
      certified_newview\<close>)
qed (rule certified_same [OF assms(1)]; simp)+

end
