(* ===== verification/Cluster.thy ===== *)
theory Cluster
  imports Quorum Node_Certificates
begin

text \<open>
  A group of \<open>3 f + 1\<close> replicas of which at most \<open>f\<close>, the set \<open>F\<close>, behave arbitrarily. The state
  maps the id of each correct replica to its node. In a step some correct replica handles some
  event; connections may be up or down and the clock may show any time. Events are arbitrary
  (messages may be forged, reordered, repeated or lost, timers may fire at any moment) except
  for two points, on which the code relies and which it does not check:

  \<^item> the handler of a commit message trusts the field \<open>replica_id\<close>; a commit message with the id
    of a correct replica is one that this replica has sent, and other commit messages carry the
    id of a member of \<open>F\<close> (what mutual TLS with one certificate per replica is meant to give);
  \<^item> no peer introduces itself in a handshake with the id of the receiver.
\<close>

type_synonym 'svc cluster = "u32 \<Rightarrow> 'svc node"

definition correct :: "nat \<Rightarrow> u32 set \<Rightarrow> u32 set" where
  "correct f F = replicas f - F"

fun authentic :: "nat \<Rightarrow> u32 set \<Rightarrow> 'svc cluster \<Rightarrow> event \<Rightarrow> bool" where
  "authentic f F C (Deliver c (WCommit m)) =
     (if cm_replica_id m \<in> correct f F
      then \<exists>m' \<in> sent_commits (C (cm_replica_id m)). cm_view m' = cm_view m \<and>
             cm_seq_num m' = cm_seq_num m \<and> cm_req_digest m' = cm_req_digest m
      else cm_replica_id m \<in> F)"
| "authentic f F C ev = True"

inductive cluster_step :: "'svc env \<Rightarrow> nat \<Rightarrow> u32 set \<Rightarrow> 'svc cluster \<Rightarrow> 'svc cluster \<Rightarrow> bool"
  for E :: "'svc env" and f :: nat and F :: "u32 set" where
  handle: "i \<in> correct f F \<Longrightarrow> same_env E E' \<Longrightarrow> admissible i ev \<Longrightarrow> authentic f F C ev \<Longrightarrow>
     cluster_step E f F C (C(i := step E' ev (C i)))"

definition started :: "'svc env \<Rightarrow> nat \<Rightarrow> NodeConfig \<Rightarrow> 'svc cluster \<Rightarrow> bool" where
  "started E f cfg C \<longleftrightarrow> cfg_num_replicas cfg = of_nat (3 * f + 1) \<and>
     (\<forall>i. \<exists>svc b. C i = Node_ctor E i cfg svc b)"

inductive reachable ::
  "'svc env \<Rightarrow> nat \<Rightarrow> u32 set \<Rightarrow> NodeConfig \<Rightarrow> 'svc cluster \<Rightarrow> bool"
  for E :: "'svc env" and f :: nat and F :: "u32 set" and cfg :: NodeConfig where
  start: "started E f cfg C \<Longrightarrow> reachable E f F cfg C"
| more: "reachable E f F cfg C \<Longrightarrow> cluster_step E f F C C' \<Longrightarrow> reachable E f F cfg C'"

inductive_cases cluster_stepE: "cluster_step E f F C C'"

section \<open>The environment of a step\<close>

lemma same_env_ok:
  assumes "same_env E E'"
  shows "node_ok E' s = node_ok E s" and "certified V E' s = certified V E s"
proof -
  have null: "env_null_digest E' = env_null_digest E" using assms by (auto simp: same_env_def)
  then show "node_ok E' s = node_ok E s"
    by (simp add: node_ok_def reqlog_ok_def entry_ok_def)
  show "certified V E' s = certified V E s"
    by (simp add: certified_def backed_def null same_env_entry [OF assms])
qed

section \<open>The invariant of the group\<close>

definition vote_of :: "nat \<Rightarrow> u32 set \<Rightarrow> 'svc cluster \<Rightarrow> vote_record" where
  "vote_of f F C r n d \<longleftrightarrow> r \<in> F \<or> r \<in> correct f F \<and> (n, d) \<in> voted (C r)"

definition member_ok :: "'svc env \<Rightarrow> nat \<Rightarrow> u32 set \<Rightarrow> 'svc cluster \<Rightarrow> u32 \<Rightarrow> bool" where
  "member_ok E f F C i \<longleftrightarrow> nd_id (C i) = i \<and> nd_f (C i) = of_nat f \<and> node_ok E (C i) \<and>
     vote_ok (C i) \<and> certified (vote_of f F C) E (C i)"

lemma vote_ok_ctor: "vote_ok (Node_ctor E i cfg svc b)"
  by (simp add: vote_ok_def said_defs Node_ctor_def)

lemma certified_ctor: "certified V E (Node_ctor E i cfg svc b)"
  by (simp add: certified_def entry_def new_entry_def committed_def Node_ctor_def)

lemma member_ok_start:
  assumes "started E f cfg C" and "3 * f + 1 < 2 ^ 32"
  shows "member_ok E f F C i"
proof -
  from assms(1) obtain svc b where C: "C i = Node_ctor E i cfg svc b"
    and n: "cfg_num_replicas cfg = of_nat (3 * f + 1)" unfolding started_def by metis
  have "nd_f (C i) = of_nat f"
    using tolerated_faults [OF assms(2)] by (simp add: C Node_ctor_def n)
  moreover have "nd_id (C i) = i" by (simp add: C Node_ctor_def)
  ultimately show ?thesis
    by (simp add: member_ok_def C node_ok_ctor vote_ok_ctor certified_ctor)
qed

text \<open>A commit message that is authentic carries a recorded vote.\<close>

lemma vouched_authentic:
  assumes ok: "\<And>j. j \<in> correct f F \<Longrightarrow> vote_ok (C j)" and "authentic f F C ev"
  shows "vouched (vote_of f F C) ev"
proof (cases "\<exists>c m. ev = Deliver c (WCommit m)")
  case True
  then obtain c m where ev: "ev = Deliver c (WCommit m)" by blast
  let ?r = "cm_replica_id m"
  show ?thesis
  proof (cases "?r \<in> correct f F")
    case True
    with assms(2) ev obtain m' where m': "m' \<in> sent_commits (C ?r)"
      "cm_seq_num m' = cm_seq_num m" "cm_req_digest m' = cm_req_digest m" by auto
    from ok [OF True] m' have "(cm_seq_num m, cm_req_digest m) \<in> voted (C ?r)"
      unfolding vote_ok_def by metis
    with True show ?thesis by (simp add: ev vote_of_def)
  next
    case False
    with assms(2) ev show ?thesis by (simp add: vote_of_def)
  qed
next
  case False
  then show ?thesis
    by (cases "(vote_of f F C, ev)" rule: vouched.cases) auto
qed

lemma vouched_mono:
  "(\<And>r n d. V r n d \<Longrightarrow> V' r n d) \<Longrightarrow> vouched V ev \<Longrightarrow> vouched V' ev"
  by (cases "(V, ev)" rule: vouched.cases) auto

lemma member_ok_step:
  assumes ok: "\<And>i. i \<in> correct f F \<Longrightarrow> member_ok E f F C i"
    and step: "cluster_step E f F C C'" and i: "i \<in> correct f F"
  shows "member_ok E f F C' i"
proof -
  from step obtain k E' ev where k: "k \<in> correct f F" and E': "same_env E E'"
    and adm: "admissible k ev" and auth: "authentic f F C ev"
    and C': "C' = C(k := step E' ev (C k))" by (auto elim: cluster_stepE)
  let ?t = "step E' ev (C k)" and ?V = "vote_of f F C'"
  note env = same_env_ok [OF E']
  have Ck: "nd_id (C k) = k" "node_ok E' (C k)" "vote_ok (C k)"
    using ok [OF k] by (simp_all add: member_ok_def env)
  have vs: "vote_step (C k) ?t" by (rule vote_step_step [OF Ck(2)])
  have mono: "?V r n d" if "vote_of f F C r n d" for r n d
    using that vote_stepD(2) [OF vs] by (auto simp: vote_of_def C')
  have cert: "certified ?V E (C j)" if "j \<in> correct f F" for j
    by (rule certified_mono [of "vote_of f F C"]) (use mono ok [OF that] in \<open>simp_all add: member_ok_def\<close>)
  have "vouched (vote_of f F C) ev"
    using ok by (intro vouched_authentic [OF _ auth]) (simp add: member_ok_def)
  then have "vouched ?V ev" using mono by (auto intro: vouched_mono [of "vote_of f F C" ?V])
  moreover have "own ?V ?t" using k Ck(1) by (simp add: own_def vote_of_def C')
  ultimately have "certified ?V E ?t"
    using cert [OF k] Ck(2) certified_step [of ?V E' "C k" ev] by (simp add: env)
  moreover have "node_ok E ?t" using node_ok_step [OF Ck(2)] adm Ck(1) by (simp add: env)
  moreover have "vote_ok ?t" by (rule vote_ok_step [OF vs Ck(3)])
  ultimately have "member_ok E f F C' k"
    using Ck(1) ok [OF k] by (simp add: member_ok_def C')
  moreover have "member_ok E f F C' i" if "i \<noteq> k"
    using that ok [OF i] cert [OF i] by (simp add: member_ok_def C')
  ultimately show ?thesis by blast
qed

lemma member_ok_reachable:
  assumes "reachable E f F cfg C" and "3 * f + 1 < 2 ^ 32" and "i \<in> correct f F"
  shows "member_ok E f F C i"
  using assms(1,3)
proof (induction arbitrary: i)
  case (start C)
  from member_ok_start [OF start(1) assms(2)] show ?case .
next
  case (more C C')
  from member_ok_step [OF more.IH more.hyps(2) more.prems] show ?case .
qed

lemma commit_quorum:
  assumes "reachable E f F cfg C" and "3 * f + 1 < 2 ^ 32" and "i \<in> correct f F" and "F \<subseteq> replicas f"
    and "(n, d) \<in> committed (C i)"
  shows "backed (vote_of f F C) E n d \<subseteq> replicas f"
    and "2 * f + 1 \<le> card (backed (vote_of f F C) E n d)"
proof -
  show "backed (vote_of f F C) E n d \<subseteq> replicas f"
    using assms(4) by (auto simp: backed_def vote_of_def correct_def)
  show "2 * f + 1 \<le> card (backed (vote_of f F C) E n d)"
    using member_ok_reachable [OF assms(1-3)] assms(5) quorum_threshold [OF assms(2)]
    unfolding member_ok_def certified_def by metis
qed

lemma committed_digest_unique:
  assumes "reachable E f F cfg C" and "3 * f + 1 < 2 ^ 32" and "F \<subseteq> replicas f" and "card F \<le> f"
    and "i \<in> correct f F" and "k \<in> correct f F"
    and "(n, d) \<in> committed (C i)" and "(n, d') \<in> committed (C k)"
    and "\<And>j. j \<in> correct f F \<Longrightarrow> (n, env_null_digest E) \<notin> voted (C j) \<and> n \<notin> reopened (C j)"
  shows "d = d'"
proof -
  let ?B = "backed (vote_of f F C) E n"
  note i = commit_quorum [OF assms(1,2,5,3,7)] and k = commit_quorum [OF assms(1,2,6,3,8)]
  from pbft.common_correct_member [OF i(1) k(1) i(2) k(2) assms(3,4)]
  obtain r where r: "r \<in> ?B d" "r \<in> ?B d'" "r \<notin> F" .
  with assms(9) have "r \<in> correct f F" "(n, d) \<in> voted (C r)" "(n, d') \<in> voted (C r)"
    by (auto simp: backed_def vote_of_def)
  with assms(9) show ?thesis
    using vote_ok_unique member_ok_reachable [OF assms(1,2)] by (metis member_ok_def)
qed

end
