(* ===== verification/Node_Window.thy ===== *)
theory Node_Window
  imports Node_Votes
begin

text \<open>
  The watermarks. \<open>H_\<close> is always \<open>h_ + L_\<close> (in 64-bit arithmetic), \<open>h_\<close> never moves back, and every
  key of the request log lies at a distance of at most \<open>L_\<close> above \<open>h_\<close>, so the log holds at most
  \<open>L_ + 1\<close> entries whatever messages arrive.
\<close>

definition log_keys :: "'svc node \<Rightarrow> u64 set" where
  "log_keys s = dom (map_of (nd_reqlog s))"

lemma log_keys_same: "nd_reqlog t = nd_reqlog s \<Longrightarrow> log_keys t = log_keys s"
  by (simp add: log_keys_def)

definition near :: "u64 \<Rightarrow> 'svc node \<Rightarrow> bool" where
  "near k s \<longleftrightarrow> nd_h s \<le> k \<and> k - nd_h s \<le> zext (nd_L s)"

definition window_ok :: "'svc node \<Rightarrow> bool" where
  "window_ok s \<longleftrightarrow> nd_H s = nd_h s + zext (nd_L s) \<and> (\<forall>k \<in> log_keys s. near k s)"

lemma in_window_near:
  assumes "nd_H s = nd_h s + zext (nd_L s)" and "in_window k s"
  shows "near k s"
proof -
  from assms(2) have "nd_h s \<le> k" "k \<le> nd_H s" by (auto simp: in_window_def)
  then have "k - nd_h s \<le> nd_H s - nd_h s" by unat_arith
  with \<open>nd_h s \<le> k\<close> assms(1) show ?thesis by (simp add: near_def)
qed

text \<open>A step that leaves the window alone and adds only keys inside it.\<close>

definition fits :: "'svc node \<Rightarrow> 'svc node \<Rightarrow> bool" where
  "fits s t \<longleftrightarrow> nd_h t = nd_h s \<and> nd_H t = nd_H s \<and> nd_L t = nd_L s \<and>
     (\<forall>k \<in> log_keys t. k \<in> log_keys s \<or> in_window k s)"

lemma fits_refl [simp]: "fits s s"
  by (simp add: fits_def)

lemma fits_trans: "fits s t \<Longrightarrow> fits t u \<Longrightarrow> fits s u"
  by (auto simp: fits_def in_window_def)

lemma window_ok_within: "fits s t \<Longrightarrow> window_ok s \<Longrightarrow> window_ok t"
  unfolding fits_def window_ok_def by (auto simp: near_def dest: in_window_near [unfolded near_def])

lemma fits_same:
  "nd_h t = nd_h s \<Longrightarrow> nd_H t = nd_H s \<Longrightarrow> nd_L t = nd_L s \<Longrightarrow> nd_reqlog t = nd_reqlog s \<Longrightarrow> fits s t"
  by (simp add: fits_def log_keys_def)

lemma log_keys_try_commit: "log_keys (try_commit E n s) \<subseteq> insert n (log_keys s)"
  by (auto simp: nd_reqlog_try_commit log_keys_def)

lemma log_keys_try_prepare: "log_keys (try_prepare E n s) \<subseteq> insert n (log_keys s)"
proof -
  have "log_keys (prepared_state E n s) = insert n (log_keys s)" by (simp add: log_keys_def)
  then show ?thesis
    using log_keys_try_commit [of E n "prepared_state E n s"] by (auto simp: try_prepare_eq)
qed

lemma fits_accept:
  assumes "in_window (pp_seq_num m) s"
  shows "fits s (accept_preprepare E m s)"
proof -
  have "log_keys (accepted_state E m s) \<subseteq> insert (pp_seq_num m) (log_keys s)"
    by (auto simp: accepted_state_def log_keys_def Let_def)
  moreover have "log_keys (touch_entry E (pp_seq_num m) s) = insert (pp_seq_num m) (log_keys s)"
    by (simp add: log_keys_def)
  ultimately have "log_keys (accept_preprepare E m s) \<subseteq> insert (pp_seq_num m) (log_keys s)"
    using log_keys_try_prepare [of E "pp_seq_num m" "accepted_state E m s"]
    by (auto simp: accept_preprepare_eq)
  with assms show ?thesis by (auto simp: fits_def)
qed

lemma fits_preprepare_impl: "fits s (on_preprepare_impl E m c b s)"
proof (cases rule: on_preprepare_impl_cases [of E m c b s])
  case (1 acts)
  then show ?thesis by (intro fits_same) simp_all
next
  case (2 acts)
  have "fits s (emit acts s)" by (rule fits_same) simp_all
  moreover have "fits (emit acts s) (accept_preprepare E m (emit acts s))"
    using 2(3) by (intro fits_accept) (simp add: in_window_def)
  ultimately show ?thesis unfolding 2(1) by (rule fits_trans)
qed

lemma log_keys_touch [simp]: "log_keys (touch_entry E n s) = insert n (log_keys s)"
  by (simp add: log_keys_def)

lemma log_keys_update [simp]: "log_keys (update_entry E n g s) = insert n (log_keys s)"
  by (simp add: log_keys_def)

lemma log_keys_emit [simp]: "log_keys (emit acts s) = log_keys s"
  by (simp add: log_keys_def)

lemma fits_prepare: "fits s (on_prepare E m c s)"
proof -
  let ?n = "pr_seq_num m"
  have *: "log_keys (try_prepare E ?n t) \<subseteq> insert ?n (log_keys s)" if "log_keys t = insert ?n (log_keys s)"
    for t :: "'a node"
    using log_keys_try_prepare [of E ?n t] that by simp
  have "log_keys (on_prepare E m c s) \<subseteq> insert ?n (log_keys s)"
    by (simp add: on_prepare_def Let_def * subset_insertI)
  moreover have "nd_reqlog (on_prepare E m c s) = nd_reqlog s" if "\<not> in_window ?n s"
    using that by (simp add: on_prepare_def in_window_def Let_def)
  ultimately show ?thesis by (cases "in_window ?n s") (auto simp: fits_def dest: log_keys_same)
qed

lemma fits_commit: "fits s (on_commit E m s)"
proof -
  let ?n = "cm_seq_num m"
  have *: "log_keys (try_commit E ?n t) \<subseteq> insert ?n (log_keys s)" if "log_keys t = insert ?n (log_keys s)"
    for t :: "'a node"
    using log_keys_try_commit [of E ?n t] that by simp
  have "log_keys (on_commit E m s) \<subseteq> insert ?n (log_keys s)"
    by (simp add: on_commit_def Let_def * subset_insertI)
  moreover have "nd_reqlog (on_commit E m s) = nd_reqlog s" if "\<not> in_window ?n s"
    using that by (simp add: on_commit_def in_window_def Let_def)
  ultimately show ?thesis by (cases "in_window ?n s") (auto simp: fits_def dest: log_keys_same)
qed

lemma fits_request: "fits s (on_request E m s)"
proof (cases rule: on_request_cases [of E m s])
  case 1
  then show ?thesis by (intro fits_same) simp_all
next
  case 2
  from 2(2,3) have "nd_h s \<le> nd_seq_num s + 1" "nd_seq_num s + 1 \<le> nd_H s"
    by unat_arith+
  then have "in_window (nd_seq_num s + 1) s" by (simp add: in_window_def not_less)
  then show ?thesis
    by (auto simp: fits_def 2(4) log_keys_def nd_reqlog_assign Let_def)
qed

lemma fits_replay: "fits s (replay E c pps s)"
proof (induction pps arbitrary: s)
  case (Cons pp pps)
  have "fits s (on_preprepare_impl E pp c True s)" by (rule fits_preprepare_impl)
  with Cons.IH [of "on_preprepare_impl E pp c True s"] show ?case by (auto intro: fits_trans)
qed simp

lemma fits_newview: "fits s (on_newview E m c s)"
proof (cases rule: on_newview_cases [of E m c s])
  case (1 acts)
  then show ?thesis by (intro fits_same) simp_all
next
  case (2 t)
  have "fits s (entered_state m s)"
    by (rule fits_same) (simp_all add: entered_state_def Let_def)
  moreover have "fits (entered_state m s) t" unfolding 2(5) by (rule fits_replay)
  moreover have "fits t (on_newview E m c s)"
    unfolding 2(6) by (rule fits_same) simp_all
  ultimately show ?thesis by (blast intro: fits_trans)
qed

lemma nd_h_stabilise: "nd_h (stabilise n d s) = n" "nd_H (stabilise n d s) = n + zext (nd_L s)"
  by simp_all

lemma word_distance_anti: "a \<le> b \<Longrightarrow> b \<le> k \<Longrightarrow> k - b \<le> k - a" for a b k :: u64
  by unat_arith

lemma near_later:
  "near k s \<Longrightarrow> nd_h s \<le> nd_h t \<Longrightarrow> nd_h t \<le> k \<Longrightarrow> nd_L t = nd_L s \<Longrightarrow> near k t"
  using word_distance_anti [of "nd_h s" "nd_h t" k] by (auto simp: near_def)

lemma window_ok_stabilise:
  assumes "window_ok s" and "nd_h s \<le> n"
  shows "window_ok (stabilise n d s)"
proof -
  have "near k (stabilise n d s)" if "k \<in> log_keys (stabilise n d s)" for k
  proof -
    from that have k: "k \<in> log_keys s" "n \<le> k"
      by (auto simp: log_keys_def restrict_map_def split: if_splits)
    with assms(1) have "near k s" by (simp add: window_ok_def)
    then show ?thesis by (rule near_later) (simp_all add: assms(2) k(2))
  qed
  then show ?thesis by (simp add: window_ok_def)
qed

lemma window_ok_checkpoint:
  assumes "window_ok s"
  shows "window_ok (on_checkpoint m s)"
proof -
  let ?s = "emit [count_msg (WCheckpoint m) False] s"
  have "window_ok ?s" and cps: "\<And>cps. window_ok (?s\<lparr>nd_checkpoints := cps\<rparr>)"
    by (rule window_ok_within [OF fits_same assms]; simp)+
  then show ?thesis
    by (simp add: on_checkpoint_def Let_def window_ok_stabilise not_less)
qed

lemma window_ok_step:
  assumes "window_ok s"
  shows "window_ok (step E ev s)"
proof (cases ev)
  case (Deliver c w)
  with assms show ?thesis
    by (cases w) (simp_all add: on_preprepare_def window_ok_checkpoint
        window_ok_within [OF fits_request] window_ok_within [OF fits_preprepare_impl]
        window_ok_within [OF fits_prepare] window_ok_within [OF fits_commit]
        window_ok_within [OF fits_newview] window_ok_within [OF fits_same])
qed (rule window_ok_within [OF fits_same assms]; simp)+

interpretation window: node_invariant "\<lambda>E s. window_ok s"
  by unfold_locales (simp_all add: window_ok_step, simp add: window_ok_def log_keys_def Node_ctor_def)

lemma nd_h_mono: "nd_h s \<le> nd_h (step E ev s)"
proof (cases ev)
  case (Deliver c w)
  then show ?thesis
    by (cases w) (simp_all add: on_preprepare_def on_checkpoint_def Let_def not_less)
qed simp_all

lemma card_near: "card {k. near k s} \<le> Suc (unat (nd_L s))"
proof -
  have "{k. near k s} \<subseteq> (\<lambda>i. nd_h s + of_nat i) ` {..unat (nd_L s)}"
  proof
    fix k assume "k \<in> {k. near k s}"
    then have "unat (k - nd_h s) \<le> unat (nd_L s)"
      by (simp add: near_def word_le_nat_alt)
    moreover have "k = nd_h s + of_nat (unat (k - nd_h s))" by simp
    ultimately show "k \<in> (\<lambda>i. nd_h s + of_nat i) ` {..unat (nd_L s)}" by blast
  qed
  then have "card {k. near k s} \<le> card ((\<lambda>i. nd_h s + of_nat i) ` {..unat (nd_L s)})"
    by (rule card_mono [rotated]) simp
  also have "\<dots> \<le> Suc (unat (nd_L s))"
    using card_image_le [of "{..unat (nd_L s)}" "\<lambda>i. nd_h s + of_nat i"] by simp
  finally show ?thesis .
qed

lemma length_log_bound:
  assumes "window_ok s" and "std_wf (nd_reqlog s)"
  shows "length (nd_reqlog s) \<le> Suc (unat (nd_L s))"
proof -
  have "length (nd_reqlog s) = card (log_keys s)" by (simp add: length_std_wf [OF assms(2)] log_keys_def)
  also have "\<dots> \<le> card {k. near k s}"
    using assms(1) by (intro card_mono) (auto simp: window_ok_def)
  also note card_near
  finally show ?thesis .
qed

end
