(* ===== verification/Node_Execution.thy ===== *)
theory Node_Execution
  imports Node_Window
begin

text \<open>
  Execution. The lines EXECUTED of the output are the history of the replica: sequence numbers
  1, 2, 3, ... without a gap, each line preceded by the matching line LOCALLY COMMITTED, the
  service in the state that the operations of the lines produce from the initial one. The loop
  of \<open>try_execute\<close> ends.
\<close>

section \<open>The history\<close>

record executed =
  ex_view :: u32
  ex_op :: string
  ex_seq :: u64
  ex_digest :: u256

definition exec_of :: "action \<Rightarrow> executed list" where
  "exec_of a = (case a of Log (LogExecuted v op n d) \<Rightarrow>
     [\<lparr>ex_view = v, ex_op = op, ex_seq = n, ex_digest = d\<rparr>] | _ \<Rightarrow> [])"

definition execs :: "action list \<Rightarrow> executed list" where
  "execs acts = concat (map exec_of acts)"

abbreviation history :: "'svc node \<Rightarrow> executed list" where
  "history s \<equiv> execs (nd_out s)"

lemma execs_simps [simp]:
  "execs [] = []" "execs (a # acts) = exec_of a @ execs acts"
  "execs (acts @ acts') = execs acts @ execs acts'"
  by (simp_all add: execs_def)

lemma exec_of_simps [simp]:
  "exec_of (Send c w) = []" "exec_of (TimerAdd x) = []" "exec_of TimerDel = []"
  "exec_of (Metric mc) = []" "exec_of (Trap t) = []" "exec_of (count_msg w b) = []"
  "exec_of (Log (LogRequestAccepted v op n)) = []" "exec_of (Log (LogPrePrepareAccepted d d')) = []"
  "exec_of (Log (LogPrepareAccepted d d')) = []" "exec_of (Log (LogPrepared v op n d)) = []"
  "exec_of (Log (LogCommitted v op n d)) = []" "exec_of (Log (LogStartCheckpoint d)) = []"
  "exec_of (Log (LogCheckpointAgreed v n d)) = []" "exec_of (Log (LogViewChange n)) = []"
  "exec_of (Log (LogExecuted v op n d)) =
     [\<lparr>ex_view = v, ex_op = op, ex_seq = n, ex_digest = d\<rparr>]"
  by (simp_all add: exec_of_def count_msg_def)

lemma execs_sends [simp]: "execs (broadcast_sends E w s) = []" "execs (via_sends E co w) = []"
  by (auto simp: execs_def via_sends_def split: option.split)

lemma history_timer [simp]:
  "history (start_timer_if_not_running s) = history s" "history (stop_timer s) = history s"
  "history (manage_timer s) = history s"
  by (simp_all add: timer_defs)

lemma history_make_checkpoint [simp]: "history (make_checkpoint E s) = history s"
  by (simp add: make_checkpoint_def Let_def)

lemma history_stabilise [simp]: "history (stabilise n d s) = history s"
  by (simp add: stable_defs Let_def)

section \<open>One turn of the loop\<close>

lemma history_execute_entry [simp]:
  "history (execute_entry E e s) = history s @
     [\<lparr>ex_view = re_view e, ex_op = rq_operation (re_req e), ex_seq = re_seq e,
       ex_digest = re_digest e\<rparr>]"
  by (simp add: execute_entry_def send_to_client_def Let_def split: prod.split)

lemma nd_service_execute_entry [simp]:
  "nd_service (execute_entry E e s) =
     fst (svc_execute (env_service E) (nd_service s) (rq_operation (re_req e)))"
  by (simp add: execute_entry_def send_to_client_def Let_def split: prod.split)

text \<open>A committed entry has its line in the output.\<close>

definition committed_line :: "ReqLogEntry \<Rightarrow> action" where
  "committed_line e = Log (LogCommitted (re_view e) (rq_operation (re_req e)) (re_seq e) (re_digest e))"

definition logged :: "'svc node \<Rightarrow> bool" where
  "logged s \<longleftrightarrow> (\<forall>n e. std_find (nd_reqlog s) n = Some e \<longrightarrow> re_stage e = COMMITTED \<longrightarrow>
     re_has_preprepare e \<and> re_seq e = n \<and> committed_line e \<in> set (nd_out s))"

definition history_ok :: "'svc service \<Rightarrow> 'svc \<Rightarrow> 'svc node \<Rightarrow> bool" where
  "history_ok S svc s \<longleftrightarrow>
     map ex_seq (history s) = map of_nat [1 ..< Suc (length (history s))] \<and>
     nd_last_exec s = of_nat (length (history s)) \<and>
     nd_service s = run_ops S svc (map ex_op (history s)) \<and>
     (\<forall>x \<in> set (history s).
        Log (LogCommitted (ex_view x) (ex_op x) (ex_seq x) (ex_digest x)) \<in> set (nd_out s))"

lemma logged_cong:
  assumes "logged s" and "nd_reqlog t = nd_reqlog s" and "appends s t"
  shows "logged t"
  using assms by (auto simp: logged_def appends_def)

lemma history_ok_execute_entry:
  assumes "logged s" and "history_ok (env_service E) svc s"
    and "std_find (nd_reqlog s) (nd_last_exec s + 1) = Some e" and "re_stage e = COMMITTED"
  shows "history_ok (env_service E) svc (execute_entry E e s)"
proof -
  let ?k = "length (history s)"
  from assms(1,3,4) have e: "re_seq e = nd_last_exec s + 1" "committed_line e \<in> set (nd_out s)"
    by (auto simp: logged_def)
  have app: "set (nd_out s) \<subseteq> set (nd_out (execute_entry E e s))"
    using appends_execute_entry [of s s E e] by (auto simp: appends_def)
  have last: "nd_last_exec s = of_nat ?k" using assms(2) by (simp add: history_ok_def)
  have seq: "re_seq e = of_nat (Suc ?k)" by (simp add: e(1) last)
  have "map ex_seq (history (execute_entry E e s)) = map of_nat [1 ..< Suc (Suc ?k)]"
    using assms(2) by (simp add: history_ok_def seq)
  moreover have "nd_service (execute_entry E e s) =
      run_ops (env_service E) svc (map ex_op (history (execute_entry E e s)))"
    using assms(2) by (simp add: history_ok_def)
  moreover have "Log (LogCommitted (ex_view x) (ex_op x) (ex_seq x) (ex_digest x))
      \<in> set (nd_out (execute_entry E e s))" if "x \<in> set (history (execute_entry E e s))" for x
    using that assms(2) e(2) app by (auto simp: history_ok_def committed_line_def)
  ultimately show ?thesis by (simp add: history_ok_def last)
qed

lemma history_ok_execute_loop:
  assumes "logged s" and "history_ok (env_service E) svc s"
  shows "history_ok (env_service E) svc (execute_loop k E s)"
  using assms
proof (induction k E s rule: execute_loop.induct)
  case (2 k E s)
  have "logged (execute_entry E e s)" for e
    by (rule logged_cong [OF "2.prems"(1)]) simp_all
  then show ?case
    using "2.IH" "2.prems" history_ok_execute_entry [of s E svc] by (auto split: option.split)
qed simp

section \<open>The loop ends\<close>

lemma execute_loop_progress:
  "execute_loop k E s = t \<Longrightarrow>
     (\<exists>j < k. nd_last_exec t = nd_last_exec s + of_nat j \<and>
        (\<forall>i. i < j \<longrightarrow> nd_last_exec s + of_nat (Suc i) \<in> log_keys s) \<and>
        (case std_find (nd_reqlog s) (nd_last_exec t + 1) of
           None \<Rightarrow> True | Some e \<Rightarrow> re_stage e \<noteq> COMMITTED)) \<or>
     (\<forall>i. i < k \<longrightarrow> nd_last_exec s + of_nat (Suc i) \<in> log_keys s)"
proof (induction k E s arbitrary: t rule: execute_loop.induct)
  case (2 k E s)
  show ?case
  proof (cases "\<exists>e. std_find (nd_reqlog s) (nd_last_exec s + 1) = Some e \<and> re_stage e = COMMITTED")
    case False
    with "2.prems" have "t = s" by (auto split: option.splits)
    with False show ?thesis by (intro disjI1 exI [of _ 0]) (auto split: option.split)
  next
    case True
    then obtain e where e: "std_find (nd_reqlog s) (nd_last_exec s + 1) = Some e"
      "re_stage e = COMMITTED" by blast
    let ?u = "execute_entry E e s"
    have keys: "log_keys ?u = log_keys s" by (simp add: log_keys_def)
    have t: "execute_loop k E ?u = t" using e "2.prems" by simp
    have first: "nd_last_exec s + 1 \<in> log_keys s" using e by (auto simp: log_keys_def)
    have shift: "(\<forall>i. i < Suc j \<longrightarrow> nd_last_exec s + of_nat (Suc i) \<in> log_keys s)"
      if "\<forall>i. i < j \<longrightarrow> nd_last_exec ?u + of_nat (Suc i) \<in> log_keys s" for j
      using that first by (auto simp: less_Suc_eq_0_disj add.assoc)
    from e(2) have "\<not> re_stage e \<noteq> COMMITTED" by simp
    from "2.IH" [OF e(1) this t, unfolded keys]
    consider (stop) j where "j < k" "nd_last_exec t = nd_last_exec ?u + of_nat j"
        "\<forall>i. i < j \<longrightarrow> nd_last_exec ?u + of_nat (Suc i) \<in> log_keys s"
        "case std_find (nd_reqlog s) (nd_last_exec t + 1) of
           None \<Rightarrow> True | Some e \<Rightarrow> re_stage e \<noteq> COMMITTED"
      | (all) "\<forall>i. i < k \<longrightarrow> nd_last_exec ?u + of_nat (Suc i) \<in> log_keys s"
      by auto
    then show ?thesis
    proof cases
      case (stop j)
      then show ?thesis
        using shift [OF stop(3)] by (intro disjI1 exI [of _ "Suc j"]) (simp add: add.assoc)
    next
      case all
      then show ?thesis using shift by blast
    qed
  qed
qed simp

lemma card_consecutive:
  assumes "k \<le> 2 ^ 64"
  shows "card ((\<lambda>i. x + of_nat (Suc i) :: u64) ` {..< k}) = k"
proof -
  have "inj_on (\<lambda>i. x + of_nat (Suc i) :: u64) {..< k}"
  proof (rule inj_onI)
    fix i j assume ij: "i \<in> {..< k}" "j \<in> {..< k}" "x + of_nat (Suc i) = x + of_nat (Suc j)"
    then have "(of_nat i :: u64) = of_nat j" by simp
    moreover have "unat (of_nat i :: u64) = i" "unat (of_nat j :: u64) = j"
      using ij(1,2) assms by (simp_all add: unat_of_nat)
    ultimately show "i = j" by metis
  qed
  then show ?thesis by (simp add: card_image)
qed

lemma try_execute_stops:
  assumes "std_wf (nd_reqlog s)" and "length (nd_reqlog s) < 2 ^ 64"
  shows "case std_find (nd_reqlog s) (nd_last_exec (try_execute E s) + 1) of
    None \<Rightarrow> True | Some e \<Rightarrow> re_stage e \<noteq> COMMITTED"
proof -
  let ?k = "Suc (length (nd_reqlog s))" and ?f = "\<lambda>i. nd_last_exec s + of_nat (Suc i)"
  have "\<not> (\<forall>i. i < ?k \<longrightarrow> ?f i \<in> log_keys s)"
  proof
    assume "\<forall>i. i < ?k \<longrightarrow> ?f i \<in> log_keys s"
    then have "?f ` {..< ?k} \<subseteq> log_keys s" by auto
    then have "card (?f ` {..< ?k}) \<le> card (log_keys s)"
      by (rule card_mono [rotated]) (simp add: log_keys_def finite_dom_map_of)
    also have "\<dots> = length (nd_reqlog s)"
      by (simp add: log_keys_def length_std_wf [OF assms(1)])
    finally show False using card_consecutive [of ?k "nd_last_exec s"] assms(2) by simp
  qed
  with execute_loop_progress [of ?k E s "try_execute E s"] show ?thesis
    by (auto simp: try_execute_def)
qed

text \<open>More fuel changes nothing.\<close>

lemma execute_loop_stable:
  "(case std_find (nd_reqlog s) (nd_last_exec (execute_loop k E s) + 1) of
      None \<Rightarrow> True | Some e \<Rightarrow> re_stage e \<noteq> COMMITTED) \<Longrightarrow>
   execute_loop (k + j) E s = execute_loop k E s"
proof (induction k E s rule: execute_loop.induct)
  case (1 E s)
  then show ?case by (cases j) (auto split: option.splits)
next
  case (2 k E s)
  show ?case
  proof (cases "\<exists>e. std_find (nd_reqlog s) (nd_last_exec s + 1) = Some e \<and> re_stage e = COMMITTED")
    case True
    then obtain e where e: "std_find (nd_reqlog s) (nd_last_exec s + 1) = Some e"
      "re_stage e = COMMITTED" by blast
    with "2.IH" [OF e(1)] "2.prems" show ?thesis by simp
  qed (auto split: option.split)
qed

section \<open>Every event keeps the history\<close>

definition exec_ok :: "'svc service \<Rightarrow> 'svc \<Rightarrow> 'svc node \<Rightarrow> bool" where
  "exec_ok S svc s \<longleftrightarrow> logged s \<and> history_ok S svc s"

lemma history_ok_cong:
  assumes "history_ok S svc s" and "history t = history s" and "nd_last_exec t = nd_last_exec s"
    and "nd_service t = nd_service s" and "appends s t"
  shows "history_ok S svc t"
  using assms by (auto simp: history_ok_def appends_def)

text \<open>A step that executes nothing and moves no entry to the stage \<open>COMMITTED\<close>.\<close>

definition idle :: "'svc node \<Rightarrow> 'svc node \<Rightarrow> bool" where
  "idle s t \<longleftrightarrow> history t = history s \<and> nd_last_exec t = nd_last_exec s \<and>
     nd_service t = nd_service s \<and> appends s t \<and>
     (\<forall>n e. std_find (nd_reqlog t) n = Some e \<longrightarrow> re_stage e = COMMITTED \<longrightarrow>
        (\<exists>e'. std_find (nd_reqlog s) n = Some e' \<and> re_stage e' = COMMITTED \<and>
           re_has_preprepare e = re_has_preprepare e' \<and> re_seq e = re_seq e' \<and>
           committed_line e = committed_line e'))"

lemma exec_ok_idle: "idle s t \<Longrightarrow> exec_ok S svc s \<Longrightarrow> exec_ok S svc t"
proof -
  assume idle: "idle s t" and ok: "exec_ok S svc s"
  then have "history_ok S svc t"
    by (intro history_ok_cong [of S svc s t]) (simp_all add: idle_def exec_ok_def)
  moreover have "set (nd_out s) \<subseteq> set (nd_out t)" using idle by (auto simp: idle_def appends_def)
  with idle ok have "logged t" unfolding idle_def exec_ok_def logged_def by (metis subsetD)
  ultimately show ?thesis by (simp add: exec_ok_def)
qed

lemma idle_refl [simp]: "idle s s"
  by (auto simp: idle_def)

lemma idle_same:
  "history t = history s \<Longrightarrow> nd_last_exec t = nd_last_exec s \<Longrightarrow> nd_service t = nd_service s \<Longrightarrow>
   appends s t \<Longrightarrow> nd_reqlog t = nd_reqlog s \<Longrightarrow> idle s t"
  by (auto simp: idle_def)

lemma idle_emit: "execs acts = [] \<Longrightarrow> idle s (emit acts s)"
  by (rule idle_same) simp_all

lemma re_stage_find:
  "re_stage (entry E n s) = COMMITTED \<Longrightarrow> std_find (nd_reqlog s) n = Some (entry E n s)"
  by (cases "std_find (nd_reqlog s) n") (simp_all add: entry_def new_entry_def)

lemma exec_ok_try_commit:
  assumes "exec_ok (env_service E) svc s" and "reqlog_ok E (nd_reqlog s)"
  shows "exec_ok (env_service E) svc (try_commit E n s)"
proof (cases "commit_ready E n s")
  case True
  let ?e = "entry E n s"
  let ?t = "update_entry E n (\<lambda>e. e\<lparr>re_stage := COMMITTED\<rparr>) (emit [committed_line ?e,
     Metric (ObservePhase ''commit'' (env_elapsed E ''commit'' n))] s)"
  from True assms(2) have e: "re_has_preprepare ?e" "re_seq ?e = n"
    using entry_ok_entry [of E s n] by (auto simp: commit_ready_def entry_ok_def split: if_splits)
  have "logged ?t"
    using assms(1) e by (auto simp: exec_ok_def logged_def committed_line_def)
  moreover have "history_ok (env_service E) svc ?t"
    using assms(1) by (intro history_ok_cong [of _ _ s ?t]) (simp_all add: exec_ok_def committed_line_def)
  ultimately have "history_ok (env_service E) svc (try_execute E ?t)"
    unfolding try_execute_def by (rule history_ok_execute_loop)
  moreover have "logged (try_execute E ?t)"
    by (rule logged_cong [OF \<open>logged ?t\<close>]) simp_all
  moreover have "try_commit E n s = try_execute E ?t"
    using True by (simp add: try_commit_def commit_ready_def committed_line_def Let_def)
  ultimately show ?thesis by (simp add: exec_ok_def)
next
  case False
  then have "try_commit E n s = s" by (auto simp: try_commit_def commit_ready_def Let_def)
  with assms show ?thesis by simp
qed

lemma exec_ok_try_prepare:
  assumes "exec_ok (env_service E) svc s" and "reqlog_ok E (nd_reqlog s)"
  shows "exec_ok (env_service E) svc (try_prepare E n s)"
proof (cases "prepare_ready E n s")
  case True
  have "idle s (prepared_state E n s)"
    using appends_prepared_state [of s E n]
    by (auto simp: idle_def prepared_state_def Let_def)
  then have "exec_ok (env_service E) svc (prepared_state E n s)"
    using assms(1) by (rule exec_ok_idle)
  from exec_ok_try_commit [OF this reqlog_ok_prepared_state [OF assms(2) True]] True
  show ?thesis by (simp add: try_prepare_eq)
qed (simp add: try_prepare_eq assms)

lemma idle_touch: "idle s (touch_entry E n s)"
  using re_stage_find [of E n s] by (auto simp: idle_def)

lemma exec_ok_accept:
  assumes "exec_ok (env_service E) svc s" and "reqlog_ok E (nd_reqlog s)"
  shows "exec_ok (env_service E) svc (accept_preprepare E m s)"
proof -
  have "idle s (accepted_state E m s)"
    by (auto simp: idle_def accepted_state_def Let_def)
  from exec_ok_idle [OF this assms(1)] reqlog_ok_accepted_state [OF assms(2)]
  have "exec_ok (env_service E) svc (try_prepare E (pp_seq_num m) (accepted_state E m s))"
    by (rule exec_ok_try_prepare)
  with exec_ok_idle [OF idle_touch assms(1)] show ?thesis by (simp add: accept_preprepare_eq)
qed

lemma execs_noise: "\<forall>a \<in> set acts. noise a \<Longrightarrow> execs acts = []"
  by (auto simp: execs_def exec_of_def noise_def split: action.splits)

lemma exec_ok_preprepare_impl:
  assumes "exec_ok (env_service E) svc s" and "reqlog_ok E (nd_reqlog s)"
  shows "exec_ok (env_service E) svc (on_preprepare_impl E m c b s)"
proof (cases rule: on_preprepare_impl_cases [of E m c b s])
  case (1 acts)
  then show ?thesis using exec_ok_idle [OF idle_emit assms(1)] by (simp add: execs_noise)
next
  case (2 acts)
  then have "exec_ok (env_service E) svc (emit acts s)"
    using exec_ok_idle [OF idle_emit assms(1)] by (simp add: execs_noise)
  with 2(1) assms(2) show ?thesis by (simp add: exec_ok_accept)
qed

lemma exec_ok_replay:
  "exec_ok (env_service E) svc s \<Longrightarrow> reqlog_ok E (nd_reqlog s) \<Longrightarrow>
     exec_ok (env_service E) svc (replay E c pps s)"
  by (induction pps arbitrary: s) (simp_all add: exec_ok_preprepare_impl reqlog_ok_preprepare_impl)

lemma exec_ok_prepare:
  assumes "exec_ok (env_service E) svc s" and "reqlog_ok E (nd_reqlog s)"
  shows "exec_ok (env_service E) svc (on_prepare E m c s)"
proof -
  let ?n = "pr_seq_num m" and ?s = "emit [count_msg (WPrepare m) False] s"
  let ?t = "touch_entry E ?n ?s"
  let ?u = "update_entry E ?n (\<lambda>e. e\<lparr>re_prepares := insert (pr_replica_id m) (re_prepares e)\<rparr>)
     (emit [Log (LogPrepareAccepted (re_digest (entry E ?n ?t)) (pr_req_digest m))] ?t)"
  have "idle s ?s" "idle s (emit [Trap DivisionByZero] ?s)" by (rule idle_same; simp)+
  moreover have "idle s ?t" "idle s ?u"
    using re_stage_find [of E ?n s] by (auto simp: idle_def committed_line_def)
  moreover have "reqlog_ok E (nd_reqlog ?u)"
    using assms(2) by (auto intro!: reqlog_ok_set)
  ultimately show ?thesis
    using exec_ok_idle [OF _ assms(1)] exec_ok_try_prepare [of E svc ?u ?n]
    by (simp add: on_prepare_def Let_def)
qed

lemma exec_ok_commit:
  assumes "exec_ok (env_service E) svc s" and "reqlog_ok E (nd_reqlog s)"
  shows "exec_ok (env_service E) svc (on_commit E m s)"
proof -
  let ?n = "cm_seq_num m" and ?s = "emit [count_msg (WCommit m) False] s"
  let ?t = "touch_entry E ?n ?s"
  let ?u = "update_entry E ?n (\<lambda>e. e\<lparr>re_commits := insert (cm_replica_id m) (re_commits e)\<rparr>) ?t"
  have "idle s ?s" by (rule idle_same) simp_all
  moreover have "idle s ?t" "idle s ?u"
    using re_stage_find [of E ?n s] by (auto simp: idle_def committed_line_def)
  moreover have "reqlog_ok E (nd_reqlog ?u)"
    using assms(2) by (auto intro!: reqlog_ok_set)
  ultimately show ?thesis
    using exec_ok_idle [OF _ assms(1)] exec_ok_try_commit [of E svc ?u ?n]
    by (simp add: on_commit_def Let_def)
qed

lemma history_request [simp]: "history (on_request E m s) = history s"
  by (simp add: request_defs Let_def
      split: option.split)

lemma idle_request: "idle s (on_request E m s)"
proof (cases rule: on_request_cases [of E m s])
  case 1
  then show ?thesis by (intro idle_same) simp_all
next
  case 2
  have *: "idle s t" if "nd_reqlog t = nd_reqlog (assign_request E m s)" "history t = history s"
    "nd_last_exec t = nd_last_exec s" "nd_service t = nd_service s" "appends s t" for t
    using that by (auto simp: idle_def nd_reqlog_assign Let_def)
  show ?thesis
    by (rule *) (simp_all, simp add: 2(4) nd_reqlog_assign Let_def)
qed

lemma idle_checkpoint: "idle s (on_checkpoint m s)"
  by (auto simp: idle_def on_checkpoint_def restrict_map_def Let_def split: if_splits)

lemma history_viewchange [simp]: "history (on_viewchange E m s) = history s"
  by (simp add: on_viewchange_def enter_view_def store_view_change_def Let_def split: option.split)

lemma idle_viewchange: "idle s (on_viewchange E m s)"
  by (rule idle_same) simp_all

lemma idle_start: "idle s (start_view_change E s)"
proof (rule idle_same)
  show "history (start_view_change E s) = history s"
    by (simp add: start_view_change_def Let_def)
qed simp_all

lemma exec_ok_newview:
  assumes "exec_ok (env_service E) svc s" and "reqlog_ok E (nd_reqlog s)"
  shows "exec_ok (env_service E) svc (on_newview E m c s)"
proof (cases rule: on_newview_cases [of E m c s])
  case (1 acts)
  then show ?thesis using exec_ok_idle [OF idle_emit assms(1)] by (simp add: execs_noise)
next
  case (2 t)
  let ?u = "t\<lparr>nd_seq_num := recompute_highest_sequence t\<rparr>"
  have "idle s (entered_state m s)"
    by (rule idle_same) (simp_all add: entered_state_def Let_def)
  from exec_ok_idle [OF this assms(1)] assms(2) have "exec_ok (env_service E) svc t"
    unfolding 2(5) by (intro exec_ok_replay) simp_all
  moreover have "idle t (manage_timer ?u)" by (rule idle_same) simp_all
  ultimately show ?thesis unfolding 2(6) by (rule exec_ok_idle [rotated])
qed

lemma exec_ok_step:
  assumes "exec_ok (env_service E) svc s" and "reqlog_ok E (nd_reqlog s)"
  shows "exec_ok (env_service E) svc (step E ev s)"
proof (cases ev)
  case (Deliver c w)
  note idle = exec_ok_idle [OF _ assms(1)]
  show ?thesis
  proof (cases w)
    case (WHandshake m)
    with Deliver show ?thesis by (simp add: idle idle_same on_handshake_def Let_def)
  qed (use assms Deliver in \<open>simp_all add: on_preprepare_def idle idle_request idle_checkpoint
      idle_viewchange exec_ok_preprepare_impl exec_ok_prepare exec_ok_commit exec_ok_newview\<close>)
next
  case Timeout
  then show ?thesis using exec_ok_idle [OF idle_start assms(1)] by simp
qed (rule exec_ok_idle [OF idle_same assms(1)]; simp add: on_connection_def appends_same)+

text \<open>The initial state of the service is that of the constructor.\<close>

lemma exec_ok_run:
  assumes "run E (Node_ctor E i cfg svc b) s"
  shows "exec_ok (env_service E) (svc_initialize (env_service E) svc) s"
  using assms
proof (induction rule: run.induct)
  case run_refl
  show ?case by (simp add: exec_ok_def logged_def history_ok_def Node_ctor_def)
next
  case (run_step t E' ev)
  have "reqlog_ok E (nd_reqlog t)" using run_step.hyps(1) by (rule reqlog.holds)
  then have "reqlog_ok E' (nd_reqlog t)" by (simp add: reqlog_inv_env [OF run_step.hyps(2)])
  with run_step show ?case
    using exec_ok_step [of E' _ t ev] by (simp add: same_env_sel [OF run_step.hyps(2)])
qed

end
