(* ===== verification/Node_Handlers.thy ===== *)
theory Node_Handlers
  imports Node_Execution
begin

text \<open>
  The handlers, seen from a property of the state that only a few of their actions can touch.
  What a client of this theory proves is how its property fares under the execution of an entry,
  under a reply from the cache, under a checkpoint message and under harmless output; that
  every event keeps the property is then a lemma of the locale.
\<close>

section \<open>Runs with their events\<close>

inductive trace :: "'svc env \<Rightarrow> 'svc node \<Rightarrow> event list \<Rightarrow> 'svc node \<Rightarrow> bool"
  for E :: "'svc env" and s :: "'svc node" where
  trace_refl: "trace E s [] s"
| trace_step: "trace E s evs t \<Longrightarrow> same_env E E' \<Longrightarrow> trace E s (evs @ [ev]) (step E' ev t)"

lemma trace_run: "trace E s evs t \<Longrightarrow> run E s t"
  by (induction rule: trace.induct) (auto intro: run.intros)

abbreviation operations :: "'svc node \<Rightarrow> string list" where
  "operations s \<equiv> map ex_op (history s)"

section \<open>Harmless output\<close>

text \<open>Output that neither answers a client nor concerns executions and checkpoints.\<close>

definition harmless :: "action \<Rightarrow> bool" where
  "harmless a \<longleftrightarrow> (\<forall>c m. a \<noteq> Send c (WReply m)) \<and> (\<forall>c m. a \<noteq> Send c (WCheckpoint m)) \<and>
     (\<forall>v op n d. a \<noteq> Log (LogExecuted v op n d)) \<and> (\<forall>v n d. a \<noteq> Log (LogCheckpointAgreed v n d))"

lemma harmless_simps [simp]:
  "harmless (Metric mc)" "harmless (TimerAdd x)" "harmless TimerDel" "harmless (Trap t)"
  "harmless (count_msg w b)"
  "harmless (Log (LogRequestAccepted v op n))" "harmless (Log (LogPrePrepareAccepted d d'))"
  "harmless (Log (LogPrepareAccepted d d'))" "harmless (Log (LogPrepared v op n d))"
  "harmless (Log (LogCommitted v op n d))" "harmless (Log (LogStartCheckpoint d))"
  "harmless (Log (LogViewChange n))"
  "harmless (Send c (WRequest m1))" "harmless (Send c (WPrePrepare m2))" "harmless (Send c (WPrepare m3))"
  "harmless (Send c (WCommit m4))" "harmless (Send c (WViewChange m5))" "harmless (Send c (WNewView m6))"
  "harmless (Send c (WHandshake m7))"
  by (simp_all add: harmless_def count_msg_def)

lemma send_not_count [simp]: "Send c w \<noteq> count_msg w' b"
  by (simp add: count_msg_def)

lemma execs_harmless: "\<forall>a \<in> set acts. harmless a \<Longrightarrow> execs acts = []"
  by (auto simp: execs_def exec_of_def harmless_def split: action.splits log_event.splits)

section \<open>Where the requests of the log come from\<close>

text \<open>The requests that an event brings to a node.\<close>

fun requests_in :: "event \<Rightarrow> RequestMsg set" where
  "requests_in (Deliver c (WRequest m)) = {m}"
| "requests_in (Deliver c (WPrePrepare m)) = {pp_req m}"
| "requests_in (Deliver c (WNewView m)) = pp_req ` set (nv_pre_prepares m)"
| "requests_in ev = {}"

definition sourced :: "RequestMsg set \<Rightarrow> ReqLogEntry \<Rightarrow> bool" where
  "sourced R e \<longleftrightarrow> re_stage e = NONE \<or> re_req e \<in> R"

definition log_sourced :: "RequestMsg set \<Rightarrow> (u64, ReqLogEntry) std_map \<Rightarrow> bool" where
  "log_sourced R l \<longleftrightarrow> (\<forall>n e. std_find l n = Some e \<longrightarrow> sourced R e)"

lemma log_sourced_UNIV [simp]: "log_sourced UNIV l"
  by (simp add: log_sourced_def sourced_def)

lemma log_sourced_Nil [simp]: "log_sourced R []"
  by (simp add: log_sourced_def)

lemma log_sourced_set [simp]: "log_sourced R l \<Longrightarrow> sourced R e \<Longrightarrow> log_sourced R (std_set n e l)"
  by (simp add: log_sourced_def)

lemma log_sourced_erase [simp]: "log_sourced R l \<Longrightarrow> log_sourced R (std_erase_if P l)"
  by (simp add: log_sourced_def restrict_map_def)

lemma log_sourced_mono: "log_sourced R l \<Longrightarrow> R \<subseteq> R' \<Longrightarrow> log_sourced R' l"
  by (auto simp: log_sourced_def sourced_def)

lemma sourced_new [simp]: "sourced R (new_entry E)"
  by (simp add: sourced_def new_entry_def)

lemma sourced_entry: "log_sourced R (nd_reqlog s) \<Longrightarrow> sourced R (entry E n s)"
  by (simp add: entry_def std_ref_def log_sourced_def split: option.split)

section \<open>The interface\<close>

text \<open>
  \<open>I\<close> is the property, \<open>heard\<close> and \<open>R\<close> say which checkpoint messages and which requests have
  arrived. A property that does not ask for the origin of requests takes \<open>UNIV\<close> for \<open>R\<close>.
\<close>

locale handler_invariant =
  fixes E :: "'svc env" and I :: "'svc node \<Rightarrow> bool" and heard :: "CheckpointMsg \<Rightarrow> bool"
    and R :: "RequestMsg set"
  assumes frame:
      "I (s\<lparr>nd_conn_to_peer := x1\<rparr>) = I s" "I (s\<lparr>nd_view := x2\<rparr>) = I s"
      "I (s\<lparr>nd_seq_num := x3\<rparr>) = I s"
      "I (s\<lparr>nd_view_changing := x6\<rparr>) = I s" "I (s\<lparr>nd_view_change_store := x7\<rparr>) = I s"
      "I (s\<lparr>nd_view_change_timeout_count := x2\<rparr>) = I s" "I (s\<lparr>nd_timer_running := x6\<rparr>) = I s"
      "I (s\<lparr>nd_peers := x10\<rparr>) = I s" "I (s\<lparr>nd_clients := x10\<rparr>) = I s"
    and log: "I s \<Longrightarrow> log_sourced R (nd_reqlog s)"
    and relog: "I s \<Longrightarrow> log_sourced R x4 \<Longrightarrow> I (s\<lparr>nd_reqlog := x4\<rparr>)"
    and emitted: "I s \<Longrightarrow> \<forall>a \<in> set acts. harmless a \<Longrightarrow> I (emit acts s)"
    and execute: "I s \<Longrightarrow> re_req e \<in> R \<Longrightarrow> I (execute_entry E e s)"
    and checkpoint: "I s \<Longrightarrow> heard km \<Longrightarrow> I (on_checkpoint km s)"
    and cached: "\<And>s rm info. I s \<Longrightarrow> nd_last_replies s (rq_client_id (rm :: RequestMsg)) = Some info \<Longrightarrow>
      cri_timestamp info = rq_timestamp rm \<Longrightarrow> I (send_to_client E (rq_client_id rm) (WReply (ReplyMsg_ctor (env_stream E) (nd_view s)
        (rq_timestamp rm) (rq_client_id rm) (nd_id s) (cri_result info))) s)"
begin

declare frame [simp] emitted [simp] execute [simp]

lemma entry_sourced: "I s \<Longrightarrow> sourced R (entry E n s)"
  by (rule sourced_entry [OF log])

lemma updated:
  assumes "I s" and "sourced R (entry E n s) \<Longrightarrow> sourced R (g (entry E n s))"
  shows "I (update_entry E n g s)"
  unfolding update_entry_def by (intro relog log_sourced_set log) (simp_all add: assms entry_sourced)

lemma touched [simp]: "I s \<Longrightarrow> I (touch_entry E n s)"
  unfolding touch_entry_def std_touch_def by (intro relog log_sourced_set log)
    (simp_all add: entry_sourced [unfolded entry_def])

lemma voted [simp]:
  assumes "I s"
  shows "I (update_entry E n (\<lambda>e. e\<lparr>re_prepares := A e\<rparr>) s)"
    and "I (update_entry E n (\<lambda>e. e\<lparr>re_commits := A e\<rparr>) s)"
  using assms by (intro updated; simp add: sourced_def)+

lemma send [simp]:
  assumes "I s"
  shows "(\<And>c. harmless (Send c w)) \<Longrightarrow> I (broadcast E w s)"
    and "(\<And>c. harmless (Send c w)) \<Longrightarrow> I (send_via E co w s)"
proof -
  assume w: "\<And>c. harmless (Send c w)"
  show "I (broadcast E w s)"
    unfolding broadcast_def by (rule emitted [OF assms]) (auto simp: w)
  show "I (send_via E co w s)"
    unfolding send_via_def by (rule emitted [OF assms]) (auto simp: w split: option.split)
qed

lemma timer [simp]:
  assumes "I s"
  shows "I (start_timer_if_not_running s)" and "I (stop_timer s)" and "I (manage_timer s)"
proof -
  show start: "I (start_timer_if_not_running s)" and stop: "I (stop_timer s)"
    using assms by (simp_all add: start_timer_if_not_running_def stop_timer_def)
  have "I (start_timer_if_not_running (stop_timer s))"
    using stop by (simp add: start_timer_if_not_running_def)
  with assms stop show "I (manage_timer s)" by (simp add: manage_timer_def)
qed

lemma try_execute [simp]: "I s \<Longrightarrow> I (try_execute E s)"
proof -
  have "I s \<Longrightarrow> I (execute_loop k E s)" for k
  proof (induction k arbitrary: s)
    case (Suc k)
    have "re_req e \<in> R" if "std_find (nd_reqlog s) (nd_last_exec s + 1) = Some e" "re_stage e = COMMITTED" for e
      using log [OF Suc.prems] that unfolding log_sourced_def sourced_def by (metis ReqStage.distinct(5))
    with Suc show ?case by (auto split: option.split)
  qed simp
  then show "I s \<Longrightarrow> I (try_execute E s)" by (simp only: try_execute_def)
qed

lemma staged [simp]:
  assumes "I s" and "re_stage (entry E n s) \<noteq> NONE"
  shows "I (update_entry E n (\<lambda>e. e\<lparr>re_stage := st\<rparr>) s)"
  using assms by (intro updated) (simp_all add: sourced_def)

lemma try_commit [simp]: "I s \<Longrightarrow> I (try_commit E n s)"
  by (auto simp: try_commit_def Let_def)

lemma try_prepare [simp]: "I s \<Longrightarrow> I (try_prepare E n s)"
  by (auto simp: try_prepare_def Let_def)

lemma filed [simp]:
  assumes "I s" and "m \<in> R"
  shows "I (update_entry E n (\<lambda>e. e\<lparr>re_view := v, re_seq := k, re_digest := d, re_req := m,
      re_has_preprepare := True, re_stage := PRE_PREPARED\<rparr>) s)"
    and "I (update_entry E n (\<lambda>e. e\<lparr>re_view := v, re_seq := k, re_req := m, re_digest := d,
      re_has_preprepare := True, re_stage := PRE_PREPARED\<rparr>) s)"
  using assms by (intro updated; simp add: sourced_def)+

lemma accepted [simp]: "I s \<Longrightarrow> pp_req m \<in> R \<Longrightarrow> I (accept_preprepare E m s)"
  by (auto simp: accept_preprepare_def Let_def)

lemma preprepare_impl [simp]: "I s \<Longrightarrow> pp_req m \<in> R \<Longrightarrow> I (on_preprepare_impl E m c b s)"
  by (auto simp: on_preprepare_impl_def Let_def)

lemma replayed [simp]: "I s \<Longrightarrow> pp_req ` set pps \<subseteq> R \<Longrightarrow> I (replay E c pps s)"
  by (induction pps arbitrary: s) simp_all

lemma viewchange [simp]: "I s \<Longrightarrow> I (on_viewchange E m s)"
  by (auto simp: viewchange_defs Let_def split: option.split)

lemma start_change [simp]: "I s \<Longrightarrow> I (start_view_change E s)"
  unfolding start_view_change_def Let_def by (intro viewchange send) simp_all

lemma assigned [simp]: "I s \<Longrightarrow> m \<in> R \<Longrightarrow> I (assign_request E m s)"
  by (auto simp: assign_request_def Let_def)

lemma request [simp]:
  assumes "I s" and "m \<in> R"
  shows "I (on_request E m s)"
proof -
  let ?s = "emit [count_msg (WRequest m) False] s"
  have "I (send_to_client E (rq_client_id m) (WReply (ReplyMsg_ctor (env_stream E) (nd_view s)
      (rq_timestamp m) (rq_client_id m) (nd_id s) (cri_result info))) ?s)"
    if "nd_last_replies s (rq_client_id m) = Some info" "cri_timestamp info = rq_timestamp m" for info
    using cached [of ?s m info] assms that by simp
  with assms show ?thesis
    by (auto simp: on_request_def send_to_replica_def Let_def split: option.split)
qed

lemma handlers [simp]:
  assumes "I s"
  shows "I (on_prepare E pm c s)" and "I (on_commit E cm s)" and "I (on_handshake hm c s)"
    and "I (on_connection E c b s)"
    and "pp_req ` set (nv_pre_prepares nm) \<subseteq> R \<Longrightarrow> I (on_newview E nm c s)"
  using assms
  by (auto simp: on_prepare_def on_commit_def on_handshake_def on_connection_def on_newview_def Let_def)

lemma kept:
  assumes "I s" and "\<And>c m. ev = Deliver c (WCheckpoint m) \<Longrightarrow> heard m" and "requests_in ev \<subseteq> R"
  shows "I (step E ev s)"
proof (cases ev)
  case (Deliver c w)
  with assms show ?thesis by (cases w) (simp_all add: on_preprepare_def checkpoint)
qed (use assms in \<open>simp_all add: add_replica_def add_client_def\<close>)

end

end
