(* ===== verification/Checkpoint_Certificates.thy ===== *)
theory Checkpoint_Certificates
  imports Node_Handlers
begin

text \<open>
  What a checkpoint stands on. A checkpoint message that a replica sends carries its own id and the
  digest of its service after the operations it has executed up to the sequence number; a
  checkpoint becomes stable at a replica only on the votes of \<open>2 f + 1\<close> replica ids, each of which
  came in a message or is its own, true vote.
\<close>

section \<open>The invariant\<close>

text \<open>The digest \<open>d\<close> is that of the service after the first operations, as many as \<open>n\<close> says.\<close>

definition true_digest :: "'svc service \<Rightarrow> 'svc \<Rightarrow> string list \<Rightarrow> u64 \<Rightarrow> u256 \<Rightarrow> bool" where
  "true_digest S svc ops n d \<longleftrightarrow>
     (\<exists>k \<le> length ops. n = of_nat k \<and> d = svc_digest S (run_ops S svc (take k ops)))"

text \<open>The ids that stand behind a checkpoint, given those of the messages received.\<close>

definition voters :: "'svc service \<Rightarrow> 'svc \<Rightarrow> (u64 \<Rightarrow> u256 \<Rightarrow> u32 set) \<Rightarrow> 'svc node \<Rightarrow> u64 \<Rightarrow> u256 \<Rightarrow> u32 set" where
  "voters S svc R s n d = R n d \<union> {r. r = nd_id s \<and> true_digest S svc (operations s) n d}"

definition checkpoints_ok :: "'svc service \<Rightarrow> 'svc \<Rightarrow> (u64 \<Rightarrow> u256 \<Rightarrow> u32 set) \<Rightarrow> 'svc node \<Rightarrow> bool" where
  "checkpoints_ok S svc R s \<longleftrightarrow>
     nd_service s = run_ops S svc (operations s) \<and> nd_last_exec s = of_nat (length (history s)) \<and>
     (\<forall>c m. Send c (WCheckpoint m) \<in> set (nd_out s) \<longrightarrow> ck_replica_id m = nd_id s \<and>
        true_digest S svc (operations s) (ck_seq_num m) (ck_state_digest m)) \<and>
     (\<forall>n cv d. nd_checkpoints s n = Some cv \<longrightarrow> vote_set d cv \<subseteq> voters S svc R s n d) \<and>
     (\<forall>v n d. Log (LogCheckpointAgreed v n d) \<in> set (nd_out s) \<longrightarrow>
        unat (2 * nd_f s + 1) \<le> card (voters S svc R s n d))"

lemma true_digest_append: "true_digest S svc ops n d \<Longrightarrow> true_digest S svc (ops @ ops') n d"
proof -
  assume "true_digest S svc ops n d"
  then obtain k where "k \<le> length ops" "n = of_nat k" "d = svc_digest S (run_ops S svc (take k ops))"
    by (auto simp: true_digest_def)
  then have "k \<le> length (ops @ ops')" "n = of_nat k" "d = svc_digest S (run_ops S svc (take k (ops @ ops')))"
    by simp_all
  then show ?thesis unfolding true_digest_def by blast
qed

lemma true_digest_now:
  "true_digest S svc ops (of_nat (length ops)) (svc_digest S (run_ops S svc ops))"
  unfolding true_digest_def by (intro exI [of _ "length ops"]) simp

lemma voters_mono:
  assumes "\<And>n d. R n d \<subseteq> R' n d" and "nd_id t = nd_id s" and "operations t = operations s @ ops"
  shows "voters S svc R s n d \<subseteq> voters S svc R' t n d"
  using assms true_digest_append by (fastforce simp: voters_def)

lemma voters_card_mono:
  assumes "k \<le> card (voters S svc R s n d)" and "voters S svc R s n d \<subseteq> voters S svc R' t n d"
  shows "k \<le> card (voters S svc R' t n d)"
  using assms card_mono [OF _ assms(2)] by (meson finite order_trans)

lemma checkpoints_ok_mono:
  assumes "checkpoints_ok S svc R s" and "\<And>n d. R n d \<subseteq> R' n d"
  shows "checkpoints_ok S svc R' s"
proof -
  have "voters S svc R s n d \<subseteq> voters S svc R' s n d" for n d
    by (rule voters_mono [OF assms(2)]) simp_all
  with assms(1) show ?thesis
    unfolding checkpoints_ok_def by (meson order_trans voters_card_mono)
qed

text \<open>A state that differs in nothing that matters.\<close>

lemma checkpoints_ok_cong:
  assumes "checkpoints_ok S svc R s" and "nd_service t = nd_service s" and "nd_last_exec t = nd_last_exec s"
    and "history t = history s" and "nd_id t = nd_id s" and "nd_f t = nd_f s"
    and "nd_checkpoints t = nd_checkpoints s"
    and "\<And>c m. Send c (WCheckpoint m) \<in> set (nd_out t) \<Longrightarrow> Send c (WCheckpoint m) \<in> set (nd_out s)"
    and "\<And>v n d. Log (LogCheckpointAgreed v n d) \<in> set (nd_out t) \<Longrightarrow>
      Log (LogCheckpointAgreed v n d) \<in> set (nd_out s)"
  shows "checkpoints_ok S svc R t"
proof -
  have "voters S svc R t = voters S svc R s" using assms(4,5) by (simp add: voters_def fun_eq_iff)
  then show ?thesis
    using assms(1) unfolding checkpoints_ok_def assms(2-7) by (auto dest!: assms(8,9))
qed

lemma vote_set_add: "vote_set d (add_vote d' r cv) = (if d = d' then insert r (vote_set d cv) else vote_set d cv)"
  by (auto simp: vote_set_def add_vote_def update_conv')

lemma vote_set_new [simp]: "vote_set d new_votes = {}"
  by (simp add: vote_set_def new_votes_def)

lemma vote_set_at:
  "(\<forall>cv d. nd_checkpoints s n = Some cv \<longrightarrow> vote_set d cv \<subseteq> A d) \<Longrightarrow> vote_set d (checkpoint_at n s) \<subseteq> A d"
  by (simp add: checkpoint_at_def split: option.split)

section \<open>Every handler keeps it\<close>

lemma checkpoints_ok_emit:
  assumes "checkpoints_ok S svc R s" and "\<forall>a \<in> set acts. harmless a"
  shows "checkpoints_ok S svc R (emit acts s)"
  using assms execs_harmless [OF assms(2)]
  by (intro checkpoints_ok_cong [OF assms(1)]) (auto simp: harmless_def)

lemma checkpoints_ok_make:
  assumes "checkpoints_ok (env_service E) svc R s"
  shows "checkpoints_ok (env_service E) svc R (make_checkpoint E s)"
proof -
  let ?S = "env_service E" and ?n = "nd_last_exec s" and ?d = "svc_digest (env_service E) (nd_service s)"
  let ?t = "make_checkpoint E s"
  have now: "true_digest ?S svc (operations s) ?n ?d"
    using assms true_digest_now [of ?S svc "operations s"] by (simp add: checkpoints_ok_def)
  have same: "nd_service ?t = nd_service s" "nd_last_exec ?t = nd_last_exec s" "history ?t = history s"
    "nd_id ?t = nd_id s" "nd_f ?t = nd_f s" by simp_all
  then have voters: "voters ?S svc R ?t = voters ?S svc R s" by (simp add: voters_def fun_eq_iff)
  have own: "nd_id s \<in> voters ?S svc R s ?n ?d" using now by (simp add: voters_def)
  have old: "vote_set d (checkpoint_at n s) \<subseteq> voters ?S svc R s n d" for n d
    using assms by (intro vote_set_at) (simp add: checkpoints_ok_def)
  have "vote_set d cv \<subseteq> voters ?S svc R s n d" if "nd_checkpoints ?t n = Some cv" for n cv d
  proof (cases "n = ?n")
    case True
    have at: "checkpoint_at ?n (broadcast E w s) = checkpoint_at ?n s" for w by (simp add: checkpoint_at_def)
    from that True have "cv = add_vote ?d (nd_id s) (checkpoint_at ?n s)"
      by (simp add: make_checkpoint_def Let_def at)
    with old [of d ?n] own True show ?thesis by (auto simp: vote_set_add)
  next
    case False
    with that have "nd_checkpoints s n = Some cv" by (simp add: make_checkpoint_def Let_def)
    with assms show ?thesis by (simp add: checkpoints_ok_def)
  qed
  moreover have "ck_replica_id m = nd_id s \<and> true_digest ?S svc (operations s) (ck_seq_num m) (ck_state_digest m)"
    if "Send c (WCheckpoint m) \<in> set (nd_out ?t)" for c m
    using that assms now by (auto simp: make_checkpoint_def Let_def checkpoints_ok_def)
  moreover have "unat (2 * nd_f s + 1) \<le> card (voters ?S svc R s n d)"
    if "Log (LogCheckpointAgreed v n d) \<in> set (nd_out ?t)" for v n d
    using that assms by (auto simp: make_checkpoint_def Let_def checkpoints_ok_def count_msg_def)
  ultimately show ?thesis
    using assms unfolding checkpoints_ok_def voters same by blast
qed

text \<open>The state of \<open>try_execute\<close> in which it decides whether to take a checkpoint.\<close>

definition executed_state :: "'svc env \<Rightarrow> ReqLogEntry \<Rightarrow> 'svc node \<Rightarrow> 'svc node" where
  "executed_state E e s =
     (let (svc, result) = svc_execute (env_service E) (nd_service s) (rq_operation (re_req e));
          reply = ReplyMsg_ctor (env_stream E) (nd_view s) (rq_timestamp (re_req e))
                    (rq_client_id (re_req e)) (nd_id s) result;
          s = send_to_client E (rq_client_id (re_req e)) (WReply reply) (s\<lparr>nd_service := svc\<rparr>);
          s = s\<lparr>nd_last_replies := (nd_last_replies s)(rq_client_id (re_req e) \<mapsto>
                  \<lparr>cri_timestamp = rp_timestamp reply, cri_replica_id = rp_replica_id reply,
                    cri_result = rp_result reply\<rparr>),
                nd_last_exec := nd_last_exec s + 1\<rparr>
      in manage_timer (emit [Log (LogExecuted (re_view e) (rq_operation (re_req e)) (re_seq e)
           (re_digest e))] s))"

lemma execute_entry_eq:
  "execute_entry E e s =
     (let s = executed_state E e s
      in if nd_K s = 0 then emit [Trap DivisionByZero] s
         else if nd_last_exec s mod zext (nd_K s) = 0 then make_checkpoint E s
         else s)"
  by (simp add: execute_entry_def executed_state_def Let_def split: prod.split)

lemma out_manage_timer:
  "a \<in> set (nd_out (manage_timer s)) \<Longrightarrow> a \<in> set (nd_out s) \<or> harmless a"
  by (auto simp: timer_defs split: if_splits)

lemma executed_state_sel:
  "nd_service (executed_state E e s) =
     fst (svc_execute (env_service E) (nd_service s) (rq_operation (re_req e)))"
  "nd_last_exec (executed_state E e s) = nd_last_exec s + 1"
  "operations (executed_state E e s) = operations s @ [rq_operation (re_req e)]"
  "nd_id (executed_state E e s) = nd_id s" "nd_f (executed_state E e s) = nd_f s"
  "nd_checkpoints (executed_state E e s) = nd_checkpoints s"
  by (simp_all add: executed_state_def send_to_client_def Let_def split: prod.split)

lemma out_executed_state:
  "Send c (WCheckpoint m) \<in> set (nd_out (executed_state E e s)) \<Longrightarrow> Send c (WCheckpoint m) \<in> set (nd_out s)"
  "Log (LogCheckpointAgreed v n d) \<in> set (nd_out (executed_state E e s)) \<Longrightarrow>
     Log (LogCheckpointAgreed v n d) \<in> set (nd_out s)"
  by (auto simp: executed_state_def send_to_client_def via_sends_def harmless_def count_msg_def Let_def
      dest!: out_manage_timer split: prod.splits option.splits if_splits)

lemma checkpoints_ok_executed:
  assumes "checkpoints_ok (env_service E) svc R s"
  shows "checkpoints_ok (env_service E) svc R (executed_state E e s)"
proof -
  let ?S = "env_service E" and ?t = "executed_state E e s"
  have len: "length (history ?t) = Suc (length (history s))"
    using arg_cong [OF executed_state_sel(3) [of E e s], of length] by simp
  have vm: "voters ?S svc R s n d \<subseteq> voters ?S svc R ?t n d" for n d
    by (rule voters_mono [OF subset_refl executed_state_sel(4) executed_state_sel(3)])
  have "nd_service ?t = run_ops ?S svc (operations ?t)" "nd_last_exec ?t = of_nat (length (history ?t))"
    using assms unfolding executed_state_sel len by (simp_all add: checkpoints_ok_def)
  moreover have "ck_replica_id m = nd_id ?t \<and>
      true_digest ?S svc (operations ?t) (ck_seq_num m) (ck_state_digest m)"
    if "Send c (WCheckpoint m) \<in> set (nd_out ?t)" for c m
    using out_executed_state(1) [OF that] assms true_digest_append
    unfolding executed_state_sel checkpoints_ok_def by metis
  moreover have "vote_set d cv \<subseteq> voters ?S svc R ?t n d" if "nd_checkpoints ?t n = Some cv" for n cv d
    using that assms vm [of n d] unfolding executed_state_sel checkpoints_ok_def by (meson order_trans)
  moreover have "unat (2 * nd_f ?t + 1) \<le> card (voters ?S svc R ?t n d)"
    if "Log (LogCheckpointAgreed v n d) \<in> set (nd_out ?t)" for v n d
    using out_executed_state(2) [OF that] assms voters_card_mono [OF _ vm]
    unfolding executed_state_sel checkpoints_ok_def by metis
  ultimately show ?thesis unfolding checkpoints_ok_def by blast
qed

lemma checkpoints_ok_execute_entry:
  "checkpoints_ok (env_service E) svc R s \<Longrightarrow> checkpoints_ok (env_service E) svc R (execute_entry E e s)"
  by (simp add: execute_entry_eq Let_def checkpoints_ok_executed checkpoints_ok_make checkpoints_ok_emit)

lemma checkpoints_ok_on_checkpoint:
  assumes ok: "checkpoints_ok S svc R s" and heard: "ck_replica_id m \<in> R (ck_seq_num m) (ck_state_digest m)"
  shows "checkpoints_ok S svc R (on_checkpoint m s)"
proof -
  let ?n = "ck_seq_num m" and ?d = "ck_state_digest m" and ?t = "on_checkpoint m s"
  let ?cv = "add_vote ?d (ck_replica_id m) (checkpoint_at ?n s)"
  have at: "checkpoint_at ?n (emit acts s) = checkpoint_at ?n s" for acts by (simp add: checkpoint_at_def)
  have idle: "history ?t = history s" "nd_last_exec ?t = nd_last_exec s" "nd_service ?t = nd_service s"
    using idle_checkpoint [of s m] by (simp_all add: idle_def)
  then have voters: "voters S svc R ?t = voters S svc R s" by (simp add: voters_def fun_eq_iff)
  have "vote_set d (checkpoint_at ?n s) \<subseteq> voters S svc R s ?n d" for d
    using ok by (intro vote_set_at) (simp add: checkpoints_ok_def)
  then have cv: "vote_set d ?cv \<subseteq> voters S svc R s ?n d" for d
    using heard by (auto simp: vote_set_add voters_def)
  have "vote_set d cv \<subseteq> voters S svc R s n d" if "nd_checkpoints ?t n = Some cv" for n cv d
  proof -
    from that have "nd_checkpoints s n = Some cv \<or> n = ?n \<and> (cv = ?cv \<or> cv = ?cv\<lparr>cv_stable := True\<rparr>)"
      by (auto simp: on_checkpoint_def stable_defs at
          checkpoint_at_def Let_def split: if_splits)
    moreover have "vote_set d (?cv\<lparr>cv_stable := True\<rparr>) = vote_set d ?cv" by (simp add: vote_set_def)
    moreover have "vote_set d cv \<subseteq> voters S svc R s n d" if "nd_checkpoints s n = Some cv"
      using that ok by (simp add: checkpoints_ok_def)
    ultimately show ?thesis using cv [of d] by metis
  qed
  moreover have sent: "Send c (WCheckpoint m') \<in> set (nd_out s)"
    if "Send c (WCheckpoint m') \<in> set (nd_out ?t)" for c m'
    using that by (auto simp: on_checkpoint_def stable_defs
        Let_def split: if_splits)
  moreover have "unat (2 * nd_f s + 1) \<le> card (voters S svc R s n d)"
    if agreed: "Log (LogCheckpointAgreed v n d) \<in> set (nd_out ?t)" for v n d
  proof (cases "Log (LogCheckpointAgreed v n d) \<in> set (nd_out s)")
    case True
    with ok show ?thesis by (auto simp: checkpoints_ok_def)
  next
    case False
    with agreed have "n = ?n" "d = ?d" "unat (2 * nd_f s + 1) \<le> card (vote_set ?d ?cv)"
      by (auto simp: on_checkpoint_def stable_defs at
          count_msg_def Let_def split: if_splits)
    with card_mono [OF _ cv [of ?d]] show ?thesis by (meson finite order_trans)
  qed
  ultimately show ?thesis
    using ok unfolding checkpoints_ok_def voters by (auto simp: idle dest!: sent)
qed

interpretation certificates: handler_invariant E "checkpoints_ok (env_service E) svc R"
  "\<lambda>m. ck_replica_id m \<in> R (ck_seq_num m) (ck_state_digest m)" UNIV for E svc R
proof unfold_locales
  fix s :: "'a node" and rm :: RequestMsg and info
  assume ok: "checkpoints_ok (env_service E) svc R s"
  let ?w = "WReply (ReplyMsg_ctor (env_stream E) (nd_view s) (rq_timestamp rm) (rq_client_id rm) (nd_id s)
    (cri_result info))"
  show "checkpoints_ok (env_service E) svc R (send_to_client E (rq_client_id rm) ?w s)"
    by (rule checkpoints_ok_cong [OF ok])
      (auto simp: send_to_client_def via_sends_def count_msg_def split: option.splits if_splits)
qed (simp_all add: checkpoints_ok_emit checkpoints_ok_execute_entry checkpoints_ok_on_checkpoint,
    simp_all add: checkpoints_ok_def voters_def)

section \<open>Along a run\<close>

definition received :: "event list \<Rightarrow> u64 \<Rightarrow> u256 \<Rightarrow> u32 set" where
  "received evs n d = {r. \<exists>c m. Deliver c (WCheckpoint m) \<in> set evs \<and> ck_seq_num m = n \<and>
     ck_state_digest m = d \<and> ck_replica_id m = r}"

lemma checkpoints_ok_trace:
  assumes "trace E (Node_ctor E i cfg svc b) evs s"
  shows "checkpoints_ok (env_service E) (svc_initialize (env_service E) svc) (received evs) s"
  using assms
proof (induction rule: trace.induct)
  case trace_refl
  show ?case by (simp add: checkpoints_ok_def Node_ctor_def)
next
  case (trace_step evs t E' ev)
  have "received evs n d \<subseteq> received (evs @ [ev]) n d" for n d by (auto simp: received_def)
  with trace_step.IH have "checkpoints_ok (env_service E) (svc_initialize (env_service E) svc)
      (received (evs @ [ev])) t" by (rule checkpoints_ok_mono)
  moreover have "ck_replica_id m \<in> received (evs @ [ev]) (ck_seq_num m) (ck_state_digest m)"
    if "ev = Deliver c (WCheckpoint m)" for c m using that by (auto simp: received_def)
  ultimately show ?case
    using certificates.kept [of E' _ "received (evs @ [ev])" t ev]
    by (simp add: same_env_sel [OF trace_step.hyps(2)])
qed

end
