(* ===== verification/Replication.thy ===== *)
theory Replication
  imports Cluster Checkpoint_Certificates
begin

text \<open>
  From agreement on digests to replicas of one state machine. Every correct replica of the group
  follows a run of a single node, so what is known of runs holds of it; where two correct
  replicas have executed the same sequence number they did so under the same digest, and if a
  digest determines its operation, one history is a prefix of the other.
\<close>

lemma reachable_trace:
  assumes "reachable E f F cfg C"
  shows "\<exists>svc b evs. trace E (Node_ctor E i cfg svc b) evs (C i)"
  using assms
proof (induction rule: reachable.induct)
  case (start C)
  then obtain svc b where "C i = Node_ctor E i cfg svc b" unfolding started_def by blast
  then show ?case by (metis trace.trace_refl)
next
  case (more C C')
  from more.hyps(2) obtain k E' ev where E': "same_env E E'"
    and C': "C' = C(k := step E' ev (C k))" by (auto elim: cluster_stepE)
  from more.IH obtain svc b evs where t: "trace E (Node_ctor E i cfg svc b) evs (C i)" by blast
  show ?case
  proof (cases "i = k")
    case True
    with trace.trace_step [OF t E', of ev] show ?thesis by (auto simp: C')
  qed (use t in \<open>auto simp: C'\<close>)
qed

lemma reachable_run: "reachable E f F cfg C \<Longrightarrow> \<exists>svc b. run E (Node_ctor E i cfg svc b) (C i)"
  using reachable_trace trace_run by blast

lemma reachable_history:
  assumes "reachable E f F cfg C"
  obtains svc where "history_ok (env_service E) (svc_initialize (env_service E) svc) (C i)"
proof -
  from reachable_run [OF assms, of i] obtain svc b where "run E (Node_ctor E i cfg svc b) (C i)"
    by blast
  from exec_ok_run [OF this] have
    "history_ok (env_service E) (svc_initialize (env_service E) svc) (C i)"
    by (simp only: exec_ok_def)
  then show thesis by (rule that)
qed

lemma history_nth:
  assumes "history_ok S svc s" and "j < length (history s)"
  shows "ex_seq (history s ! j) = of_nat (Suc j)"
    and "(of_nat (Suc j), ex_digest (history s ! j)) \<in> committed s"
proof -
  let ?x = "history s ! j"
  from assms(1) have "map ex_seq (history s) = map of_nat [1 ..< Suc (length (history s))]"
    by (simp only: history_ok_def)
  then have "map ex_seq (history s) ! j = map of_nat [1 ..< Suc (length (history s))] ! j" by simp
  with assms(2) show seq: "ex_seq ?x = of_nat (Suc j)" by (simp del: upt_Suc)
  from assms have "Log (LogCommitted (ex_view ?x) (ex_op ?x) (ex_seq ?x) (ex_digest ?x)) \<in> set (nd_out s)"
    by (simp add: history_ok_def)
  then show "(of_nat (Suc j), ex_digest ?x) \<in> committed s"
    unfolding committed_def by (auto simp: seq)
qed

text \<open>What the group has to respect for two histories to agree.\<close>

definition clean :: "'svc env \<Rightarrow> nat \<Rightarrow> u32 set \<Rightarrow> 'svc cluster \<Rightarrow> bool" where
  "clean E f F C \<longleftrightarrow>
     (\<forall>j \<in> correct f F. reopened (C j) = {} \<and> (\<forall>n. (n, env_null_digest E) \<notin> voted (C j)))"

lemma histories_same_digest:
  assumes "reachable E f F cfg C" and "3 * f + 1 < 2 ^ 32" and "F \<subseteq> replicas f" and "card F \<le> f"
    and "i \<in> correct f F" and "k \<in> correct f F" and "clean E f F C"
    and "j < length (history (C i))" and "j < length (history (C k))"
  shows "ex_digest (history (C i) ! j) = ex_digest (history (C k) ! j)"
proof -
  from reachable_history [OF assms(1), of i] obtain svc
    where i: "history_ok (env_service E) (svc_initialize (env_service E) svc) (C i)" .
  from reachable_history [OF assms(1), of k] obtain svc'
    where k: "history_ok (env_service E) (svc_initialize (env_service E) svc') (C k)" .
  show ?thesis
    by (rule committed_digest_unique [OF assms(1-6) history_nth(2) [OF i assms(8)]
          history_nth(2) [OF k assms(9)]])
      (use assms(7) in \<open>auto simp: clean_def\<close>)
qed

lemma histories_prefix:
  assumes "reachable E f F cfg C" and "3 * f + 1 < 2 ^ 32" and "F \<subseteq> replicas f" and "card F \<le> f"
    and "i \<in> correct f F" and "k \<in> correct f F" and "clean E f F C"
    and "length (history (C i)) \<le> length (history (C k))"
    and "\<And>x. x \<in> set (history (C i)) \<union> set (history (C k)) \<Longrightarrow> ex_op x = g (ex_digest x)"
  shows "map ex_op (history (C i)) = take (length (history (C i))) (map ex_op (history (C k)))"
proof (rule nth_equalityI)
  fix j assume "j < length (map ex_op (history (C i)))"
  then have j: "j < length (history (C i))" "j < length (history (C k))" using assms(8) by simp_all
  then have "ex_op (history (C i) ! j) = ex_op (history (C k) ! j)"
    using assms(9) histories_same_digest [OF assms(1-7) j] by simp
  with j show "map ex_op (history (C i)) ! j =
      take (length (history (C i))) (map ex_op (history (C k))) ! j" by simp
qed (use assms(8) in simp)

text \<open>Up to a position that both have reached, two histories are the same.\<close>

lemma histories_common:
  assumes "reachable E f F cfg C" and "3 * f + 1 < 2 ^ 32" and "F \<subseteq> replicas f" and "card F \<le> f"
    and "i \<in> correct f F" and "k \<in> correct f F" and "clean E f F C"
    and "j < length (history (C i))" and "j < length (history (C k))"
    and "\<And>x. x \<in> set (history (C i)) \<union> set (history (C k)) \<Longrightarrow> ex_op x = g (ex_digest x)"
  shows "take (Suc j) (operations (C i)) = take (Suc j) (operations (C k))"
proof (rule nth_take_lemma)
  have "operations (C i) ! n = operations (C k) ! n" if "n < Suc j" for n
  proof -
    have n: "n < length (history (C i))" "n < length (history (C k))" using that assms(8,9) by simp_all
    then show ?thesis using assms(10) histories_same_digest [OF assms(1-7) n] by simp
  qed
  then show "n < Suc j \<longrightarrow> operations (C i) ! n = operations (C k) ! n" for n by blast
qed (use assms(8,9) in simp_all)

lemma state_of_prefix:
  assumes "replicated_service (env_service E)"
    and "history_ok (env_service E) (svc_initialize (env_service E) svc) s"
    and "history_ok (env_service E) (svc_initialize (env_service E) svc') t"
    and "map ex_op (history s) = take (length (history s)) (map ex_op (history t))"
  shows "nd_service t =
    run_ops (env_service E) (nd_service s) (drop (length (history s)) (map ex_op (history t)))"
proof -
  let ?S = "env_service E" and ?k = "length (history s)"
  have "nd_service t = run_ops ?S (svc_initialize ?S svc')
      (take ?k (map ex_op (history t)) @ drop ?k (map ex_op (history t)))"
    using assms(3) by (simp only: append_take_drop_id history_ok_def)
  also have "\<dots> = run_ops ?S (run_ops ?S (svc_initialize ?S svc') (map ex_op (history s)))
      (drop ?k (map ex_op (history t)))"
    by (simp only: assms(4) run_ops_append)
  also have "run_ops ?S (svc_initialize ?S svc') (map ex_op (history s)) = nd_service s"
    using assms(2) replicated_service.same_history_same_state [OF assms(1)]
    by (simp add: history_ok_def)
  finally show ?thesis .
qed

end
