(* ===== verification/KV_Store.thy ===== *)
theory KV_Store
  imports Service Decimal_Text "HOL-Library.List_Lexorder" "HOL-Library.Char_ord"
begin

text \<open>
  The key-value service of \<open>examples/kv_store/kv_store.cc\<close>. An operation is a line of text that
  \<open>std::istringstream\<close> takes apart: \<open>>> std::string\<close> skips white space and takes a word,
  \<open>>> uint32_t\<close> skips white space and takes an optional sign and decimal digits, failing without
  digits and on overflow (a negative number wraps, as \<open>std::num_get\<close> of libstdc++ has it). The
  store is a \<open>std::map\<close>, whose order of keys is that of unsigned characters.
\<close>

section \<open>Extraction from a string stream\<close>

definition is_space :: "char \<Rightarrow> bool" where
  "is_space c \<longleftrightarrow> c \<in> {CHR '' '', CHR 0x09, CHR 0x0A, CHR 0x0B, CHR 0x0C, CHR 0x0D}"

definition skip_ws :: "string \<Rightarrow> string" where
  "skip_ws s = dropWhile is_space s"

definition get_word :: "string \<Rightarrow> (string \<times> string) option" where
  "get_word s =
     (let s = skip_ws s; w = takeWhile (\<lambda>c. \<not> is_space c) s
      in if w = [] then None else Some (w, drop (length w) s))"

definition get_u32_text :: "string \<Rightarrow> (u32 \<times> string) option" where
  "get_u32_text s =
     (let s = skip_ws s;
          neg = (case s of c # _ \<Rightarrow> c = CHR ''-'' | [] \<Rightarrow> False);
          s = (case s of c # r \<Rightarrow> if c = CHR ''-'' \<or> c = CHR ''+'' then r else s | [] \<Rightarrow> s);
          ds = takeWhile is_digit s
      in if ds = [] then None
         else if 2 ^ 32 \<le> digits_value ds then None
         else Some (if neg then - of_int (digits_value ds) else of_int (digits_value ds),
                    drop (length ds) s))"

section \<open>The service\<close>

type_synonym store = "(string, u32) std_map"

definition kv_initialize :: "store \<Rightarrow> store" where
  "kv_initialize st = []"

definition kv_execute :: "store \<Rightarrow> string \<Rightarrow> store \<times> string" where
  "kv_execute st operation =
     (let (cmd, rest) = (case get_word operation of None \<Rightarrow> ([], []) | Some p \<Rightarrow> p)
      in if cmd = ''PUT'' then
           case get_word rest of
             None \<Rightarrow> (st, ''ERROR: Invalid PUT format'')
           | Some (key, rest) \<Rightarrow>
               (case get_u32_text rest of
                  None \<Rightarrow> (st, ''ERROR: Invalid PUT format'')
                | Some (value, _) \<Rightarrow> (std_set key value st, ''OK''))
         else if cmd = ''GET'' then
           case get_word rest of
             None \<Rightarrow> (st, ''ERROR: Invalid GET format'')
           | Some (key, _) \<Rightarrow>
               (case std_find st key of
                  None \<Rightarrow> (st, ''NOT_FOUND'')
                | Some v \<Rightarrow> (st, to_string v))
         else if cmd = ''DELETE'' then
           case get_word rest of
             None \<Rightarrow> (st, ''ERROR: Invalid DELETE format'')
           | Some (key, _) \<Rightarrow> (std_erase_if (\<lambda>k. k = key) st, ''OK'')
         else (st, ''ERROR: Unknown command''))"

definition kv_state_text :: "store \<Rightarrow> string" where
  "kv_state_text st = concat (map (\<lambda>(key, val). key @ '':'' @ to_string val @ '';'') st)"

definition kv_digest :: "(string \<Rightarrow> u256) \<Rightarrow> store \<Rightarrow> u256" where
  "kv_digest get_hash st = get_hash (kv_state_text st)"

definition kv_service :: "(string \<Rightarrow> u256) \<Rightarrow> store service" where
  "kv_service get_hash = \<lparr>svc_initialize = kv_initialize, svc_execute = kv_execute,
     svc_digest = kv_digest get_hash\<rparr>"

interpretation kv: replicated_service "kv_service get_hash" for get_hash
  by unfold_locales (simp add: kv_service_def kv_initialize_def)

section \<open>Extraction of words and numbers\<close>

lemma digit_not_space: "is_digit c \<Longrightarrow> \<not> is_space c \<and> c \<noteq> CHR ''-'' \<and> c \<noteq> CHR ''+''"
  by (auto simp: is_digit_def is_space_def)

lemma get_u32_text_to_string:
  assumes "case r of [] \<Rightarrow> True | c # _ \<Rightarrow> \<not> is_digit c"
  shows "get_u32_text ('' '' @ to_string v @ r) = Some (v, r)"
proof -
  let ?ds = "show_nat (unat v)"
  have ds: "list_all is_digit ?ds" "digits_value ?ds = int (unat v)" "?ds \<noteq> []"
    using show_nat_digits [of "unat v"] by simp_all
  then obtain c ds' where c: "?ds = c # ds'" "is_digit c" by (cases ?ds) auto
  have "skip_ws ('' '' @ ?ds @ r) = ?ds @ r"
    using c digit_not_space [of c] by (simp add: skip_ws_def is_space_def)
  moreover have "takeWhile is_digit (?ds @ r) = ?ds" using ds(1) assms by (rule takeWhile_all)
  moreover have "uint v < 2 ^ 32" using unsigned_less [of v, where 'a = int] by simp
  ultimately show ?thesis
    using c ds digit_not_space [of c]
    by (simp add: get_u32_text_def to_string_def Let_def not_le)
qed

definition plain_word :: "string \<Rightarrow> bool" where
  "plain_word w \<longleftrightarrow> w \<noteq> [] \<and> list_all (\<lambda>c. \<not> is_space c) w"

lemma get_word_plain:
  assumes "plain_word w" and "case r of [] \<Rightarrow> True | c # _ \<Rightarrow> is_space c"
  shows "get_word (w @ r) = Some (w, r)" and "get_word ('' '' @ w @ r) = Some (w, r)"
proof -
  obtain c w' where c: "w = c # w'" "\<not> is_space c" using assms(1) by (cases w) (auto simp: plain_word_def)
  have "takeWhile (\<lambda>c. \<not> is_space c) (w @ r) = w"
    using assms by (intro takeWhile_all) (auto simp: plain_word_def split: list.splits)
  moreover have "skip_ws (w @ r) = w @ r" "skip_ws ('' '' @ w @ r) = w @ r"
    using c by (simp_all add: skip_ws_def is_space_def)
  ultimately show "get_word (w @ r) = Some (w, r)" "get_word ('' '' @ w @ r) = Some (w, r)"
    using c by (simp_all add: get_word_def Let_def)
qed

section \<open>What the operations mean\<close>

text \<open>The commands as data, their text, and their effect on a finite map.\<close>

datatype kv_command = Put string u32 | Get string | Delete string

fun command_text :: "kv_command \<Rightarrow> string" where
  "command_text (Put k v) = ''PUT '' @ k @ '' '' @ to_string v"
| "command_text (Get k) = ''GET '' @ k"
| "command_text (Delete k) = ''DELETE '' @ k"

fun command_key :: "kv_command \<Rightarrow> string" where
  "command_key (Put k v) = k"
| "command_key (Get k) = k"
| "command_key (Delete k) = k"

fun abstract_execute :: "(string \<rightharpoonup> u32) \<Rightarrow> kv_command \<Rightarrow> (string \<rightharpoonup> u32) \<times> string" where
  "abstract_execute m (Put k v) = (m(k \<mapsto> v), ''OK'')"
| "abstract_execute m (Get k) = (m, case m k of None \<Rightarrow> ''NOT_FOUND'' | Some v \<Rightarrow> to_string v)"
| "abstract_execute m (Delete k) = (m(k := None), ''OK'')"

lemma get_cmd:
  "get_word (''PUT '' @ s) = Some (''PUT'', '' '' @ s)"
  "get_word (''GET '' @ s) = Some (''GET'', '' '' @ s)"
  "get_word (''DELETE '' @ s) = Some (''DELETE'', '' '' @ s)"
  by (simp_all add: get_word_def skip_ws_def is_space_def Let_def)

lemma restrict_not: "m |` {k. k \<noteq> x} = m(x := None)"
  by (auto simp: restrict_map_def fun_eq_iff)

lemma kv_refines:
  assumes "plain_word (command_key c)"
  shows "map_of (fst (kv_execute st (command_text c))) = fst (abstract_execute (map_of st) c)"
    and "snd (kv_execute st (command_text c)) = snd (abstract_execute (map_of st) c)"
proof -
  have "map_of (fst (kv_execute st (command_text c))) = fst (abstract_execute (map_of st) c) \<and>
      snd (kv_execute st (command_text c)) = snd (abstract_execute (map_of st) c)"
  proof (cases c)
    case (Put k v)
    have "get_word ('' '' @ k @ '' '' @ to_string v) = Some (k, '' '' @ to_string v)"
      using assms Put by (intro get_word_plain(2)) (simp_all add: is_space_def)
    moreover have "get_u32_text ('' '' @ to_string v) = Some (v, [])"
      using get_u32_text_to_string [of "[]" v] by simp
    ultimately show ?thesis
      by (simp only: Put command_text.simps kv_execute_def get_cmd Let_def option.case prod.case) simp
  next
    case (Get k)
    have "get_word ('' '' @ k) = Some (k, [])"
      using get_word_plain(2) [of k "[]"] assms Get by simp
    then show ?thesis
      by (simp only: Get command_text.simps kv_execute_def get_cmd Let_def option.case prod.case)
        (simp split: option.split)
  next
    case (Delete k)
    have "get_word ('' '' @ k) = Some (k, [])"
      using get_word_plain(2) [of k "[]"] assms Delete by simp
    then show ?thesis
      by (simp only: Delete command_text.simps kv_execute_def get_cmd Let_def option.case prod.case)
        (simp add: restrict_not)
  qed
  then show "map_of (fst (kv_execute st (command_text c))) = fst (abstract_execute (map_of st) c)"
    "snd (kv_execute st (command_text c)) = snd (abstract_execute (map_of st) c)" by simp_all
qed

text \<open>The store stays sorted, so the digest depends on the mapping only.\<close>

lemma kv_execute_wf: "std_wf st \<Longrightarrow> std_wf (fst (kv_execute st op))"
  by (auto simp: kv_execute_def Let_def split: option.splits prod.splits)

lemma std_wf_unique:
  assumes "std_wf m" and "std_wf m'" and "map_of m = map_of m'"
  shows "m = m'"
proof (rule map_sorted_distinct_set_unique)
  have "(k, v) \<in> set m \<longleftrightarrow> (k, v) \<in> set m'" for k v
    using std.entries_iff [OF assms(1)] std.entries_iff [OF assms(2)] assms(3) by simp
  then show "set m = set m'" by auto
  then show "inj_on fst (set m \<union> set m')"
    using assms(1) strict_sorted_iff [of "map fst m"] by (simp add: std_wf_def distinct_map)
  show "sorted (map fst m)" "distinct (map fst m)" "sorted (map fst m')" "distinct (map fst m')"
    using assms(1,2) strict_sorted_iff unfolding std_wf_def by blast+
qed

fun abstract_run :: "(string \<rightharpoonup> u32) \<Rightarrow> kv_command list \<Rightarrow> (string \<rightharpoonup> u32)" where
  "abstract_run m [] = m"
| "abstract_run m (c # cs) = abstract_run (fst (abstract_execute m c)) cs"

lemma kv_run_refines:
  "list_all (\<lambda>c. plain_word (command_key c)) cs \<Longrightarrow>
     map_of (run_ops (kv_service h) st (map command_text cs)) = abstract_run (map_of st) cs"
  by (induction cs arbitrary: st) (simp_all add: kv_service_def kv_refines)

lemma kv_run_wf: "std_wf st \<Longrightarrow> std_wf (run_ops (kv_service h) st ops)"
  by (induction ops arbitrary: st) (simp_all add: kv_service_def kv_execute_wf)

section \<open>The properties of the service\<close>

text \<open>The store after some commands, by its map.\<close>

lemma run_commands:
  assumes "list_all (\<lambda>c. plain_word (command_key c)) cs" and "std_wf m"
    and "abstract_run Map.empty cs = map_of m"
  shows "run_ops (kv_service h) [] (map command_text cs) = m"
proof (rule std_wf_unique [OF kv_run_wf assms(2)])
  show "map_of (run_ops (kv_service h) [] (map command_text cs)) = map_of m"
    using kv_run_refines [OF assms(1), of h "[]"] assms(3) by simp
qed simp

lemma small_numbers: "to_string 1 = ''1''" "to_string 2 = ''2''" "to_string 1024 = ''1024''"
  by code_simp+

lemma stores:
  "run_ops (kv_service h) [] [''PUT a 1'', ''PUT b 2''] = [(''a'', 1), (''b'', 2)]"
  "run_ops (kv_service h) [] [''PUT b 2'', ''PUT a 1'', ''GET x''] = [(''a'', 1), (''b'', 2)]"
  "run_ops (kv_service h) [] [''PUT a:1;b 2''] = [(''a:1;b'', 2)]"
  using run_commands [of "[Put ''a'' 1, Put ''b'' 2]" "[(''a'', 1), (''b'', 2)]" h]
    run_commands [of "[Put ''b'' 2, Put ''a'' 1, Get ''x'']" "[(''a'', 1), (''b'', 2)]" h]
    run_commands [of "[Put ''a:1;b'' 2]" "[(''a:1;b'', 2)]" h]
  by (simp_all add: small_numbers plain_word_def is_space_def std_wf_def fun_eq_iff)

text \<open>
  C34. On the text of a command whose key is one word, \<open>execute\<close> does to the map of the store, and
  answers, what the command means.
\<close>

theorem kv_command_refines:
  assumes "plain_word (command_key c)"
  shows "(map_of (fst (kv_execute st (command_text c))), snd (kv_execute st (command_text c))) =
    abstract_execute (map_of st) c"
  using kv_refines [OF assms] by (simp add: prod_eq_iff)

theorem kv_command_refines_witness:
  "map_of (fst (kv_execute [] (command_text (Put ''k'' 7)))) ''k'' = Some 7"
proof -
  have "plain_word (command_key (Put ''k'' 7))" by (simp add: plain_word_def is_space_def)
  from kv_command_refines [OF this, of "[]"] show ?thesis by (simp add: prod_eq_iff)
qed

lemma abstract_run_other:
  "list_all (\<lambda>c. command_key c \<noteq> k) cs \<Longrightarrow> abstract_run m cs k = m k"
proof (induction cs arbitrary: m)
  case (Cons c cs)
  then show ?case by (cases c) auto
qed simp

text \<open>
  C35. A value put under a key is returned by a later get, whatever commands on other keys are
  executed between them; read back as a number it is the value.
\<close>

theorem put_get_roundtrip:
  assumes "plain_word k" and "list_all (\<lambda>c. plain_word (command_key c) \<and> command_key c \<noteq> k) cs"
  shows "\<exists>text. snd (kv_execute (run_ops (kv_service h) st (command_text (Put k v) # map command_text cs))
      (command_text (Get k))) = text \<and> get_u32_text ('' '' @ text) = Some (v, [])"
proof -
  let ?st = "run_ops (kv_service h) st (map command_text (Put k v # cs))"
  have "map_of ?st = abstract_run (map_of st) (Put k v # cs)"
    using assms by (intro kv_run_refines) (auto simp: list_all_iff)
  then have "map_of ?st k = Some v"
    using abstract_run_other [of k cs] assms(2) by (simp add: list_all_iff)
  then have "snd (kv_execute ?st (command_text (Get k))) = to_string v"
    using kv_refines(2) [of "Get k" ?st] assms(1) by simp
  then show ?thesis
    using get_u32_text_to_string [of "[]" v] by simp
qed

theorem put_get_roundtrip_witness:
  "get_u32_text ('' '' @ snd (kv_execute (run_ops (kv_service (\<lambda>s. of_nat (length s))) []
     [''PUT k 1024'', ''DELETE j'']) ''GET k'')) = Some (1024, [])"
  using put_get_roundtrip [of "''k''" "[Delete ''j'']" "\<lambda>s. of_nat (length s)" "[]" 1024]
  by (simp add: small_numbers plain_word_def is_space_def)

definition valid_operation :: "string \<Rightarrow> bool" where
  "valid_operation op = (case get_word op of None \<Rightarrow> False
     | Some (cmd, r) \<Rightarrow> (case get_word r of None \<Rightarrow> False
         | Some (key, r) \<Rightarrow> cmd = ''GET'' \<or> cmd = ''DELETE'' \<or> cmd = ''PUT'' \<and> get_u32_text r \<noteq> None))"

lemma to_string_no_error: "take 5 (to_string v) \<noteq> ''ERROR''"
proof
  assume err: "take 5 (to_string v) = ''ERROR''"
  have "list_all is_digit (take 5 (to_string v))"
    using show_nat_digits [of "unat v"] by (auto simp: to_string_def list_all_iff dest: in_set_takeD)
  then show False unfolding err by (simp add: is_digit_def)
qed

text \<open>
  C36. An operation with a known command, a key and, for \<open>PUT\<close>, a number of 32 bits is never answered
  with an error; any other operation leaves the store as it is and is answered with a text that
  starts with \<open>ERROR\<close>.
\<close>

theorem kv_error_iff_invalid:
  "if valid_operation op then take 5 (snd (kv_execute st op)) \<noteq> ''ERROR''
   else fst (kv_execute st op) = st \<and> take 5 (snd (kv_execute st op)) = ''ERROR''"
  using to_string_no_error
  by (auto simp: valid_operation_def kv_execute_def Let_def split: option.splits)

text \<open>
  The digest of a checkpoint depends only on the mapping from keys to values, not on the
  operations that led to it.
\<close>

lemma kv_digest_of_map:
  assumes "map_of (run_ops (kv_service h) [] ops) = map_of (run_ops (kv_service h) [] ops')"
  shows "svc_digest (kv_service h) (run_ops (kv_service h) [] ops) =
    svc_digest (kv_service h) (run_ops (kv_service h) [] ops')"
proof -
  have "std_wf (run_ops (kv_service h) [] ops)" "std_wf (run_ops (kv_service h) [] ops')"
    by (rule kv_run_wf, simp)+
  from std_wf_unique [OF this] assms show ?thesis by simp
qed

text \<open>
  The text that is hashed does not determine the store: separators are not escaped, and two
  different stores that clients can produce have the same text, so the same digest.
\<close>

lemma kv_digest_ambiguous:
  "\<exists>ops ops'. map_of (run_ops (kv_service h) [] ops) \<noteq> map_of (run_ops (kv_service h) [] ops') \<and>
     kv_state_text (run_ops (kv_service h) [] ops) = kv_state_text (run_ops (kv_service h) [] ops')"
proof -
  have "kv_state_text [(''a'', 1), (''b'', 2)] = kv_state_text [(''a:1;b'', 2)]" by code_simp
  moreover have "map_of [(''a'', 1 :: u32), (''b'', 2)] \<noteq> map_of [(''a:1;b'', 2)]"
  proof
    assume "map_of [(''a'', 1 :: u32), (''b'', 2)] = map_of [(''a:1;b'', 2)]"
    from fun_cong [OF this, of "''b''"] show False by simp
  qed
  ultimately have "map_of (run_ops (kv_service h) [] [''PUT a 1'', ''PUT b 2'']) \<noteq>
      map_of (run_ops (kv_service h) [] [''PUT a:1;b 2'']) \<and>
    kv_state_text (run_ops (kv_service h) [] [''PUT a 1'', ''PUT b 2'']) =
      kv_state_text (run_ops (kv_service h) [] [''PUT a:1;b 2''])"
    unfolding stores by (rule conjI [rotated])
  then show ?thesis by blast
qed

end
