(* ===== verification/Scenarios.thy ===== *)
theory Scenarios
  imports Cluster Checkpoint_Certificates KV_Store
begin

text \<open>
  Concrete runs. A configuration of four replicas with a service that counts its operations and
  a stream that writes nothing; \<open>play\<close> runs a list of events and \<open>playable\<close> checks that each of
  them is a step of the group, so that a run is a reachable state. The runs show that the
  hypotheses of the theorems can hold, and what happens when they do not.
\<close>

section \<open>A configuration\<close>

definition counter_service :: "nat service" where
  "counter_service = \<lparr>svc_initialize = (\<lambda>_. 0), svc_execute = (\<lambda>n op. (Suc n, op)),
     svc_digest = of_nat\<rparr>"

definition demo_env :: "nat env" where
  "demo_env = \<lparr>env_stream = mute_stream,
     env_hash_request = (\<lambda>m. of_nat (Suc (length (rq_operation m)))),
     env_hash_string = (\<lambda>s. of_nat (length s) + 100), env_null_digest = 0,
     env_service = counter_service, env_conn_ok = (\<lambda>_. True), env_elapsed = (\<lambda>_ _. 0)\<rparr>"

definition demo_config :: NodeConfig where
  "demo_config = \<lparr>cfg_num_replicas = 4, cfg_log_size = 200, cfg_checkpoint_interval = 100,
     cfg_vc_timeout = 2, cfg_tls_config = None\<rparr>"

definition demo_node :: "u32 \<Rightarrow> nat node" where
  "demo_node i = Node_ctor demo_env i demo_config 0 False"

text \<open>Messages of view 0 for sequence number 1; the connection number is the sender's id.\<close>

definition demo_request :: "string \<Rightarrow> RequestMsg" where
  "demo_request op = RequestMsg_ctor mute_stream op 1 7"

definition ask :: "string \<Rightarrow> event" where
  "ask op = Deliver 9 (WRequest (demo_request op))"

definition hello :: "u32 \<Rightarrow> event" where
  "hello i = Deliver (unat i) (WHandshake (HandshakeMsg_ctor mute_stream i))"

definition propose :: "u256 \<Rightarrow> string \<Rightarrow> event" where
  "propose d op =
     Deliver 0 (WPrePrepare (PrePrepareMsg_ctor mute_stream 0 1 d (demo_request op)))"

definition prepare_from :: "u32 \<Rightarrow> u256 \<Rightarrow> event" where
  "prepare_from i d = Deliver (unat i) (WPrepare (PrepareMsg_ctor mute_stream 0 1 d i))"

definition commit_from :: "u32 \<Rightarrow> u256 \<Rightarrow> event" where
  "commit_from i d = Deliver (unat i) (WCommit (CommitMsg_ctor mute_stream 0 1 d i))"

lemmas demo_events = ask_def hello_def propose_def prepare_from_def commit_from_def

section \<open>Runs\<close>

fun play :: "'svc env \<Rightarrow> (u32 \<times> event) list \<Rightarrow> 'svc cluster \<Rightarrow> 'svc cluster" where
  "play E [] C = C"
| "play E ((i, ev) # evs) C = play E evs (C(i := step E ev (C i)))"

text \<open>All messages other than those of clients were sent, by the peer and over the connection they come from.\<close>

definition sent_list :: "'svc node \<Rightarrow> (conn \<times> wire) list" where
  "sent_list s = concat (map (\<lambda>a. case a of Send c w \<Rightarrow> [(c, w)] | _ \<Rightarrow> []) (nd_out s))"

fun truthful :: "'svc env \<Rightarrow> (u32 \<times> event) list \<Rightarrow> 'svc cluster \<Rightarrow> bool" where
  "truthful E [] C = True"
| "truthful E ((i, ev) # evs) C =
     ((case ev of
         Deliver c w \<Rightarrow> (case w of WRequest _ \<Rightarrow> True | _ \<Rightarrow> List.member (sent_list (C (of_nat c))) (unat i, w))
       | _ \<Rightarrow> True) \<and>
      truthful E evs (C(i := step E ev (C i))))"

text \<open>The output of a node, as lists.\<close>

definition commit_list :: "'svc node \<Rightarrow> CommitMsg list" where
  "commit_list s = concat (map (\<lambda>a. case a of Send _ (WCommit m) \<Rightarrow> [m] | _ \<Rightarrow> []) (nd_out s))"

lemma set_commit_list: "set (commit_list s) = sent_commits s"
proof -
  have "m \<in> set (commit_list s) \<longleftrightarrow> m \<in> sent_commits s" for m
    unfolding commit_list_def sent_commits_def
    by (auto split: action.splits wire.splits)
  then show ?thesis by blast
qed

definition voted_list :: "'svc node \<Rightarrow> (u64 \<times> u256) list" where
  "voted_list s =
     concat (map (\<lambda>a. case a of Log (LogPrepared _ _ n d) \<Rightarrow> [(n, d)] | _ \<Rightarrow> []) (nd_out s))"

lemma set_voted_list: "set (voted_list s) = voted s"
proof -
  have "(n, d) \<in> set (voted_list s) \<longleftrightarrow> (n, d) \<in> voted s" for n d
    unfolding voted_list_def voted_def
    by (auto split: action.splits log_event.splits)
  then show ?thesis by auto
qed

definition committed_list :: "'svc node \<Rightarrow> (u64 \<times> u256) list" where
  "committed_list s =
     concat (map (\<lambda>a. case a of Log (LogCommitted _ _ n d) \<Rightarrow> [(n, d)] | _ \<Rightarrow> []) (nd_out s))"

lemma set_committed_list: "set (committed_list s) = committed s"
proof -
  have "(n, d) \<in> set (committed_list s) \<longleftrightarrow> (n, d) \<in> committed s" for n d
    unfolding committed_list_def committed_def
    by (auto split: action.splits log_event.splits)
  then show ?thesis by auto
qed

definition agreed_list :: "'svc node \<Rightarrow> u64 list" where
  "agreed_list s =
     concat (map (\<lambda>a. case a of Log (LogCheckpointAgreed _ n _) \<Rightarrow> [n] | _ \<Rightarrow> []) (nd_out s))"

lemma set_agreed_list: "set (agreed_list s) = agreed s"
proof -
  have "n \<in> set (agreed_list s) \<longleftrightarrow> n \<in> agreed s" for n
    unfolding agreed_list_def agreed_def
    by (auto split: action.splits log_event.splits)
  then show ?thesis by blast
qed

definition reply_list :: "'svc node \<Rightarrow> ReplyMsg list" where
  "reply_list s = concat (map (\<lambda>a. case a of Send _ (WReply m) \<Rightarrow> [m] | _ \<Rightarrow> []) (nd_out s))"

lemma set_reply_list: "m \<in> set (reply_list s) \<Longrightarrow> \<exists>c. Send c (WReply m) \<in> set (nd_out s)"
  unfolding reply_list_def by (auto split: action.splits wire.splits)

lemma reopened_agreed: "reopened s \<subseteq> agreed s"
proof
  fix n assume "n \<in> reopened s"
  then obtain pre post v d where "nd_out s = pre @ Log (LogCheckpointAgreed v n d) # post"
    by (auto simp: reopened_def)
  then have "Log (LogCheckpointAgreed v n d) \<in> set (nd_out s)" by simp
  then show "n \<in> agreed s" unfolding agreed_def by blast
qed

lemmas output_lists = set_commit_list set_voted_list set_committed_list set_agreed_list

fun event_ok :: "nat \<Rightarrow> u32 list \<Rightarrow> 'svc cluster \<Rightarrow> u32 \<Rightarrow> event \<Rightarrow> bool" where
  "event_ok f F C i (Deliver c (WCommit m)) =
     (let r = cm_replica_id m
      in if unat r < 3 * f + 1 \<and> \<not> List.member F r
         then list_ex (\<lambda>m'. cm_view m' = cm_view m \<and> cm_seq_num m' = cm_seq_num m \<and>
                cm_req_digest m' = cm_req_digest m) (commit_list (C r))
         else List.member F r)"
| "event_ok f F C i ev = admissible i ev"

fun playable ::
  "'svc env \<Rightarrow> nat \<Rightarrow> u32 list \<Rightarrow> (u32 \<times> event) list \<Rightarrow> 'svc cluster \<Rightarrow> bool" where
  "playable E f F [] C = True"
| "playable E f F ((i, ev) # evs) C =
     (unat i < 3 * f + 1 \<and> \<not> List.member F i \<and> event_ok f F C i ev \<and>
      playable E f F evs (C(i := step E ev (C i))))"

lemma event_ok_sound:
  assumes "event_ok f F C i ev"
  shows "admissible i ev" and "authentic f (set F) C ev"
proof -
  have "admissible i ev \<and> authentic f (set F) C ev"
  proof (cases "\<exists>c m. ev = Deliver c (WCommit m)")
    case True
    then obtain c m where ev: "ev = Deliver c (WCommit m)" by blast
    have "set (commit_list (C (cm_replica_id m))) = sent_commits (C (cm_replica_id m))"
      by (rule set_commit_list)
    with assms show ?thesis
      by (auto simp: ev correct_def replicas_def list_ex_iff List.member_iff Let_def split: if_splits)
  next
    case False
    then have "authentic f (set F) C ev"
      by (cases "(f, set F, C, ev)" rule: authentic.cases) auto
    moreover have "admissible i ev"
      using assms False by (cases "(f, F, C, i, ev)" rule: event_ok.cases) auto
    ultimately show ?thesis by blast
  qed
  then show "admissible i ev" "authentic f (set F) C ev" by simp_all
qed

lemma play_reachable:
  "playable E f F evs C \<Longrightarrow> reachable E f (set F) cfg C \<Longrightarrow> reachable E f (set F) cfg (play E evs C)"
proof (induction E f F evs C rule: playable.induct)
  case (2 E f F i ev evs C)
  from "2.prems"(1) have i: "i \<in> correct f (set F)" "event_ok f F C i ev"
    by (simp_all add: correct_def replicas_def List.member_iff)
  have "cluster_step E f (set F) C (C(i := step E ev (C i)))"
    by (rule cluster_step.handle [OF i(1) same_env_refl event_ok_sound [OF i(2)]])
  with "2.prems"(2) have "reachable E f (set F) cfg (C(i := step E ev (C i)))"
    by (rule reachable.more)
  with "2.IH" "2.prems"(1) show ?case by (simp only: play.simps playable.simps)
qed simp

lemma demo_start: "reachable demo_env 1 F demo_config demo_node"
  by (rule reachable.start) (auto simp: started_def demo_node_def demo_config_def)

lemma correct_demo: "correct 1 {0} = {1, 2, 3}" "correct 1 {3} = {0, 1, 2}"
proof -
  have "unat j < 4 \<longleftrightarrow> j = 0 \<or> j = 1 \<or> j = 2 \<or> j = 3" for j :: u32
  proof
    assume "unat j < 4"
    then have "unat j = unat (0 :: u32) \<or> unat j = unat (1 :: u32) \<or> unat j = unat (2 :: u32) \<or>
        unat j = unat (3 :: u32)" by auto
    then show "j = 0 \<or> j = 1 \<or> j = 2 \<or> j = 3" by (simp only: word_unat_eq_iff)
  qed auto
  then have "replicas 1 = {0, 1, 2, 3}" by (auto simp: replicas_def)
  then show "correct 1 {0} = {1, 2, 3}" "correct 1 {3} = {0, 1, 2}"
    by (auto simp: correct_def)
qed

section \<open>A request that commits\<close>

definition normal_run :: "(u32 \<times> event) list" where
  "normal_run =
     [(0, AddReplica 1 1), (1, AddReplica 0 0), (0, AddClient 7 7), (1, AddClient 7 7), (1, hello 0),
      (0, ask ''op''),
      (1, propose 3 ''op''), (0, prepare_from 1 3), (1, prepare_from 3 3),
      (0, commit_from 1 3), (1, commit_from 0 3), (0, commit_from 3 3), (1, commit_from 3 3)]"

definition normal_state :: "nat cluster" where
  "normal_state = play demo_env normal_run demo_node"

lemma normal_playable: "playable demo_env 1 [3] normal_run demo_node"
  by code_simp

lemma normal_reachable: "reachable demo_env 1 {3} demo_config normal_state"
  using play_reachable [OF normal_playable demo_start] by (simp add: normal_state_def)

lemma normal_committed:
  "committed_list (normal_state 0) = [(1, 3)]" "committed_list (normal_state 1) = [(1, 3)]"
  by code_simp+

lemma normal_voted:
  "voted_list (normal_state 0) = [(1, 3)]" "voted_list (normal_state 1) = [(1, 3)]"
  "voted_list (normal_state 2) = []"
  by code_simp+

lemma normal_agreed:
  "agreed_list (normal_state 0) = []" "agreed_list (normal_state 1) = []"
  "agreed_list (normal_state 2) = []"
  by code_simp+

lemma normal_history:
  "history (normal_state 0) = [\<lparr>ex_view = 0, ex_op = ''op'', ex_seq = 1, ex_digest = 3\<rparr>]"
  "history (normal_state 1) = [\<lparr>ex_view = 0, ex_op = ''op'', ex_seq = 1, ex_digest = 3\<rparr>]"
  "history (normal_state 2) = []"
  by code_simp+

lemma normal_replies:
  "reply_list (normal_state 0) = [ReplyMsg_ctor mute_stream 0 1 7 0 ''op'']"
  "reply_list (normal_state 1) = [ReplyMsg_ctor mute_stream 0 1 7 1 ''op'']"
  by code_simp+

section \<open>Votes for the default digest\<close>

definition null_attack :: "(u32 \<times> event) list" where
  "null_attack =
     [(1, AddReplica 2 2), (2, AddReplica 1 1), (1, hello 0), (2, hello 0), (3, hello 0),
      (1, propose 0 ''a''), (2, propose 0 ''a''), (1, prepare_from 2 0), (2, prepare_from 1 0),
      (1, commit_from 2 0), (1, commit_from 0 0),
      (3, commit_from 1 0), (3, commit_from 2 0), (3, prepare_from 1 0), (3, prepare_from 2 0),
      (3, propose 5 ''b'')]"

definition attack_state :: "nat cluster" where
  "attack_state = play demo_env null_attack demo_node"

lemma attack_playable: "playable demo_env 1 [0] null_attack demo_node"
  by code_simp

lemma attack_reachable: "reachable demo_env 1 {0} demo_config attack_state"
  using play_reachable [OF attack_playable demo_start] by (simp add: attack_state_def)

lemma attack_committed:
  "committed_list (attack_state 1) = [(1, 0)]" "committed_list (attack_state 3) = [(1, 5)]"
  by code_simp+

section \<open>A sequence number that is used again\<close>

text \<open>
  Checkpoints after every operation. The faulty primary orders an operation under number 1; once the
  checkpoint at 1 is stable it orders another one under the same number.
\<close>

definition eager_config :: NodeConfig where
  "eager_config = demo_config\<lparr>cfg_checkpoint_interval := 1\<rparr>"

definition eager_node :: "u32 \<Rightarrow> nat node" where
  "eager_node i = Node_ctor demo_env i eager_config 0 False"

definition checkpoint_from :: "u32 \<Rightarrow> event" where
  "checkpoint_from i = Deliver (unat i) (WCheckpoint (CheckpointMsg_ctor mute_stream 1 1 i))"

definition ordering_round :: "u256 \<Rightarrow> string \<Rightarrow> (u32 \<times> event) list" where
  "ordering_round d op =
     [(1, propose d op), (2, propose d op), (1, prepare_from 2 d), (2, prepare_from 1 d),
      (1, commit_from 2 d), (1, commit_from 0 d), (2, commit_from 1 d), (2, commit_from 0 d)]"

definition reopening_run :: "(u32 \<times> event) list" where
  "reopening_run =
     [(1, AddReplica 2 2), (2, AddReplica 1 1), (1, hello 0), (2, hello 0)] @
     ordering_round 3 ''op'' @
     [(1, checkpoint_from 2), (1, checkpoint_from 0), (2, checkpoint_from 1), (2, checkpoint_from 0)] @
     ordering_round 5 ''x''"

lemma reopening_playable: "playable demo_env 1 [0] reopening_run eager_node"
  by code_simp

lemma reopening_committed: "committed_list (play demo_env reopening_run eager_node 1) = [(1, 3), (1, 5)]"
  by code_simp

lemma reopening_executed: "nd_last_exec (play demo_env reopening_run eager_node 1) = 1"
  by code_simp

lemma reopening_reachable:
  "reachable demo_env 1 {0} eager_config (play demo_env reopening_run eager_node)"
proof -
  have "reachable demo_env 1 (set [0]) eager_config eager_node"
    by (rule reachable.start) (auto simp: started_def eager_node_def eager_config_def demo_config_def)
  from play_reachable [OF reopening_playable this] show ?thesis by simp
qed

section \<open>Checkpoints in that run\<close>

text \<open>The events of one replica in a run of the group.\<close>

definition events_of :: "u32 \<Rightarrow> (u32 \<times> event) list \<Rightarrow> event list" where
  "events_of i evs = [ev. (j, ev) \<leftarrow> evs, j = i]"

lemma trace_fold: "trace E s (evs @ evs') (fold (step E) evs' t)" if "trace E s evs t"
  using that
proof (induction evs' arbitrary: evs t)
  case (Cons ev evs')
  from Cons.IH [OF trace.trace_step [OF Cons.prems same_env_refl, of ev]] show ?case by simp
qed simp

lemma play_events: "play E evs C i = fold (step E) (events_of i evs) (C i)"
  by (induction evs arbitrary: C) (auto simp: events_of_def)

definition stable_list :: "'svc node \<Rightarrow> (u32 \<times> u64 \<times> u256) list" where
  "stable_list s =
     concat (map (\<lambda>a. case a of Log (LogCheckpointAgreed v n d) \<Rightarrow> [(v, n, d)] | _ \<Rightarrow> []) (nd_out s))"

lemma in_stable_list: "(v, n, d) \<in> set (stable_list s) \<Longrightarrow> Log (LogCheckpointAgreed v n d) \<in> set (nd_out s)"
  unfolding stable_list_def by (auto split: action.splits log_event.splits)

definition checkpoint_list :: "'svc node \<Rightarrow> CheckpointMsg list" where
  "checkpoint_list s = concat (map (\<lambda>a. case a of Send _ (WCheckpoint m) \<Rightarrow> [m] | _ \<Rightarrow> []) (nd_out s))"

lemma in_checkpoint_list: "m \<in> set (checkpoint_list s) \<Longrightarrow> \<exists>c. Send c (WCheckpoint m) \<in> set (nd_out s)"
  unfolding checkpoint_list_def by (auto split: action.splits wire.splits)

lemma reopening_stable:
  "stable_list (play demo_env reopening_run eager_node 1) = [(0, 1, 1)]"
  "checkpoint_list (play demo_env reopening_run eager_node 2) = [CheckpointMsg_ctor mute_stream 1 1 2]"
  by code_simp+

section \<open>A key-value store\<close>

definition kv_env :: "store env" where
  "kv_env = \<lparr>env_stream = mute_stream,
     env_hash_request = (\<lambda>m. of_nat (Suc (length (rq_operation m)))),
     env_hash_string = (\<lambda>s. of_nat (length s) + 100), env_null_digest = 0,
     env_service = kv_service (\<lambda>s. of_nat (length s)), env_conn_ok = (\<lambda>_. True),
     env_elapsed = (\<lambda>_ _. 0)\<rparr>"

definition kv_node :: "u32 \<Rightarrow> store node" where
  "kv_node i = Node_ctor kv_env i demo_config [] False"

definition kv_run :: "(u32 \<times> event) list" where
  "kv_run =
     [(0, AddReplica 1 1), (1, AddReplica 0 0), (1, hello 0), (0, ask ''PUT a 1''),
      (1, propose 8 ''PUT a 1''), (0, prepare_from 1 8), (1, prepare_from 3 8),
      (0, commit_from 1 8), (1, commit_from 0 8), (0, commit_from 3 8), (1, commit_from 3 8)]"

definition kv_state :: "store cluster" where
  "kv_state = play kv_env kv_run kv_node"

lemma kv_playable: "playable kv_env 1 [3] kv_run kv_node"
  by code_simp

lemma kv_reachable: "reachable kv_env 1 {3} demo_config kv_state"
proof -
  have "reachable kv_env 1 (set [3]) demo_config kv_node"
    by (rule reachable.start) (auto simp: started_def kv_node_def demo_config_def)
  from play_reachable [OF kv_playable this] show ?thesis by (simp add: kv_state_def)
qed

lemma kv_history:
  "history (kv_state 0) = [\<lparr>ex_view = 0, ex_op = ''PUT a 1'', ex_seq = 1, ex_digest = 8\<rparr>]"
  "history (kv_state 1) = [\<lparr>ex_view = 0, ex_op = ''PUT a 1'', ex_seq = 1, ex_digest = 8\<rparr>]"
  by code_simp+

lemma kv_voted:
  "voted_list (kv_state 0) = [(1, 8)]" "voted_list (kv_state 1) = [(1, 8)]" "voted_list (kv_state 2) = []"
  by code_simp+

lemma kv_agreed:
  "agreed_list (kv_state 0) = []" "agreed_list (kv_state 1) = []" "agreed_list (kv_state 2) = []"
  by code_simp+

lemmas kv_votes = kv_voted kv_agreed

end
