(* ===== verification/Node_Timer.thy ===== *)
theory Node_Timer
  imports Node_Frames
begin

text \<open>
  The view-change timer. The delay of \<open>view_change_delay\<close> doubles with every timeout in a row, but
  the counter is not zero only while a view change is in progress, and then the timer is never
  started: every delay that reaches \<open>TimerEvent::add\<close> is the configured one, cut at 300 seconds.
\<close>

definition timer_act_ok :: "real \<Rightarrow> action \<Rightarrow> bool" where
  "timer_act_ok T a \<longleftrightarrow> (is_timer_act a \<longrightarrow> a = TimerDel \<or> a = TimerAdd (min T 300))"

definition timer_ok :: "real \<Rightarrow> 'svc node \<Rightarrow> bool" where
  "timer_ok T s \<longleftrightarrow>
     (nd_view_changing s \<or> nd_view_change_timeout_count s = 0) \<and>
     (nd_timer_running s \<longrightarrow> \<not> nd_view_changing s) \<and>
     nd_vc_timeout s = T \<and> (\<forall>a \<in> set (nd_out s). timer_act_ok T a)"

lemma timer_act_ok_other [simp]: "\<not> is_timer_act a \<Longrightarrow> timer_act_ok T a"
  by (simp add: timer_act_ok_def)

lemma count_msg_not_timer [simp]: "\<not> is_timer_act (count_msg w b)"
  by (simp add: count_msg_def)

lemma timer_ok_upd [simp]:
  "timer_ok T (s\<lparr>nd_conn_to_peer := x1\<rparr>) = timer_ok T s"
  "timer_ok T (s\<lparr>nd_view := x2\<rparr>) = timer_ok T s"
  "timer_ok T (s\<lparr>nd_seq_num := x3\<rparr>) = timer_ok T s"
  "timer_ok T (s\<lparr>nd_last_exec := x3\<rparr>) = timer_ok T s"
  "timer_ok T (s\<lparr>nd_h := x3\<rparr>) = timer_ok T s"
  "timer_ok T (s\<lparr>nd_H := x3\<rparr>) = timer_ok T s"
  "timer_ok T (s\<lparr>nd_reqlog := x4\<rparr>) = timer_ok T s"
  "timer_ok T (s\<lparr>nd_last_replies := x5\<rparr>) = timer_ok T s"
  "timer_ok T (s\<lparr>nd_view_change_store := x7\<rparr>) = timer_ok T s"
  "timer_ok T (s\<lparr>nd_checkpoints := x8\<rparr>) = timer_ok T s"
  "timer_ok T (s\<lparr>nd_last_stable_digest := x9\<rparr>) = timer_ok T s"
  "timer_ok T (s\<lparr>nd_service := x10\<rparr>) = timer_ok T s"
  by (simp_all add: timer_ok_def)

lemma timer_ok_emit [simp]:
  "timer_ok T s \<Longrightarrow> \<forall>a \<in> set acts. \<not> is_timer_act a \<Longrightarrow> timer_ok T (emit acts s)"
  by (auto simp: timer_ok_def)

lemma timer_ok_entered [simp]:
  "timer_ok T s \<Longrightarrow> timer_ok T (s\<lparr>nd_view_changing := False, nd_view_change_timeout_count := 0\<rparr>)"
  by (simp add: timer_ok_def)

lemma timer_ok_basic [simp]:
  assumes "timer_ok T s"
  shows "timer_ok T (broadcast E w s)" and "timer_ok T (send_via E co w s)"
    and "timer_ok T (update_entry E n g s)" and "timer_ok T (touch_entry E n s)"
  using assms by (auto simp: timer_ok_def)

lemma timer_ok_stop [simp]: "timer_ok T s \<Longrightarrow> timer_ok T (stop_timer s)"
  by (auto simp: stop_timer_def timer_ok_def timer_act_ok_def)

lemma timer_ok_start [simp]: "timer_ok T s \<Longrightarrow> timer_ok T (start_timer_if_not_running s)"
  by (auto simp: start_timer_if_not_running_def timer_ok_def timer_act_ok_def view_change_delay_def)

lemma timer_ok_manage [simp]: "timer_ok T s \<Longrightarrow> timer_ok T (manage_timer s)"
  by (simp add: manage_timer_def)

lemma timer_ok_checkpoints [simp]:
  assumes "timer_ok T s"
  shows "timer_ok T (make_checkpoint E s)" and "timer_ok T (stabilise n d s)"
  using assms
  by (auto simp: make_checkpoint_def stable_defs
      Let_def)

lemma timer_ok_execute_entry [simp]: "timer_ok T s \<Longrightarrow> timer_ok T (execute_entry E e s)"
  by (simp add: execute_entry_def send_to_client_def Let_def split: prod.split)

lemma timer_ok_try_execute [simp]: "timer_ok T s \<Longrightarrow> timer_ok T (try_execute E s)"
proof -
  have "timer_ok T s \<Longrightarrow> timer_ok T (execute_loop k E s)" for k
    by (induction k E s rule: execute_loop.induct) (simp_all split: option.split)
  then show "timer_ok T s \<Longrightarrow> timer_ok T (try_execute E s)" by (simp only: try_execute_def)
qed

lemma timer_ok_try_commit [simp]: "timer_ok T s \<Longrightarrow> timer_ok T (try_commit E n s)"
  by (auto simp: try_commit_def Let_def)

lemma timer_ok_try_prepare [simp]: "timer_ok T s \<Longrightarrow> timer_ok T (try_prepare E n s)"
  by (auto simp: try_prepare_def Let_def)

lemma timer_ok_preprepare_impl [simp]:
  "timer_ok T s \<Longrightarrow> timer_ok T (on_preprepare_impl E m c b s)"
  by (auto simp: on_preprepare_impl_def accept_preprepare_def Let_def)

lemma timer_ok_replay [simp]: "timer_ok T s \<Longrightarrow> timer_ok T (replay E c pps s)"
  by (induction pps arbitrary: s) simp_all

lemma timer_ok_enter [simp]: "timer_ok T s \<Longrightarrow> timer_ok T (enter_view E v V O' s)"
  unfolding enter_view_def Let_def
  by (rule timer_ok_manage) (auto simp: timer_ok_def)

lemma timer_ok_viewchange [simp]: "timer_ok T s \<Longrightarrow> timer_ok T (on_viewchange E m s)"
  by (auto simp: on_viewchange_def store_view_change_def Let_def split: option.split)

lemma timer_ok_start_view_change: "timer_ok T s \<Longrightarrow> timer_ok T (start_view_change E s)"
  unfolding start_view_change_def Let_def
  by (intro timer_ok_viewchange timer_ok_basic)
    (auto simp: timer_ok_def stop_timer_def timer_act_ok_def)

lemma timer_ok_handlers [simp]:
  assumes "timer_ok T s"
  shows "timer_ok T (on_request E rm s)" and "timer_ok T (on_prepare E pm c s)"
    and "timer_ok T (on_commit E cm s)" and "timer_ok T (on_checkpoint km s)"
    and "timer_ok T (on_handshake hm c s)" and "timer_ok T (on_connection E c b s)"
  using assms
  by (auto simp: request_defs
      on_prepare_def on_commit_def on_checkpoint_def on_handshake_def on_connection_def Let_def
      split: option.split)

lemma timer_ok_newview: "timer_ok T s \<Longrightarrow> timer_ok T (on_newview E m c s)"
proof -
  assume ok: "timer_ok T s"
  have "timer_ok T (replay E c pps (emit acts' ((emit acts s)\<lparr>nd_view_changing := False, nd_view := v\<rparr>)
      \<lparr>nd_view_change_timeout_count := 0\<rparr>))"
    if "\<forall>a \<in> set acts. \<not> is_timer_act a" "\<forall>a \<in> set acts'. \<not> is_timer_act a" for acts acts' v pps
    using ok that by (intro timer_ok_replay) (auto simp: timer_ok_def)
  with ok show ?thesis by (auto simp: on_newview_def Let_def)
qed

lemma timer_ok_step: "timer_ok T s \<Longrightarrow> timer_ok T (step E ev s)"
proof (cases ev)
  case (Deliver c w)
  assume "timer_ok T s"
  with Deliver show ?thesis by (cases w) (simp_all add: on_preprepare_def timer_ok_newview)
qed (simp_all add: timer_ok_start_view_change, auto simp: timer_ok_def add_replica_def add_client_def)

interpretation timer: node_invariant "\<lambda>E s. timer_ok (nd_vc_timeout s) s"
proof
  show "timer_ok (nd_vc_timeout s) s \<Longrightarrow> timer_ok (nd_vc_timeout (step E ev s)) (step E ev s)"
    for E :: "'a env" and ev s
    by (simp add: timer_ok_step)
qed (simp_all add: timer_ok_def Node_ctor_def)

end
