(* ===== verification/Node_Output.thy ===== *)
theory Node_Output
  imports Node_Frames
begin

text \<open>
  What a node can do to the outside. A predicate on actions that admits metrics, log lines, timer
  calls and the sending of messages built by their constructors holds of everything a node ever
  does; a division by zero only has to be admitted where \<open>n_\<close> or \<open>K_\<close> is zero. Two instances:
  the bytes of every message sent are the encoding of its fields, and no handler divides by
  zero when the configuration is sane.
\<close>

lemma built_ctor [simp]:
  "wire_built D (WRequest (RequestMsg_ctor D op ts cid))"
  "wire_built D (WReply (ReplyMsg_ctor D v ts cid i res))"
  "wire_built D (WPrePrepare (PrePrepareMsg_ctor D v n d r))"
  "wire_built D (WPrepare (PrepareMsg_ctor D v n d i))"
  "wire_built D (WCommit (CommitMsg_ctor D v n d i))"
  "wire_built D (WCheckpoint (CheckpointMsg_ctor D n d i))"
  "wire_built D (WViewChange (ViewChangeMsg_ctor D v n i cs ps))"
  "wire_built D (WNewView (NewViewMsg_ctor D v vs pps))"
  "wire_built D (WHandshake (HandshakeMsg_ctor D i))"
  by (simp_all add: wire_built_def ctor_defs serialize_defs)

locale output_predicate =
  fixes D :: data_stream and P :: "action \<Rightarrow> bool"
  assumes metric: "P (Metric mc)" and log: "P (Log l)"
    and timer: "is_timer_act a \<Longrightarrow> P a"
    and endless: "P (Trap EndlessLoop)"
    and send: "wire_built D w \<Longrightarrow> P (Send c w)"
begin

definition out_ok :: "'svc node \<Rightarrow> bool" where
  "out_ok s \<longleftrightarrow> (P (Trap DivisionByZero) \<or> nd_n s \<noteq> 0 \<and> nd_K s \<noteq> 0) \<and> (\<forall>a \<in> set (nd_out s). P a)"

lemma P_simps [simp]: "P (Metric mc)" "P (Log l)" "P (count_msg w b)" "P (Trap EndlessLoop)"
  by (simp_all add: metric log endless count_msg_def)

lemma out_ok_upd [simp]:
  "out_ok (s\<lparr>nd_conn_to_peer := x1\<rparr>) = out_ok s"
  "out_ok (s\<lparr>nd_view := x2\<rparr>) = out_ok s"
  "out_ok (s\<lparr>nd_seq_num := x3\<rparr>) = out_ok s"
  "out_ok (s\<lparr>nd_last_exec := x3\<rparr>) = out_ok s"
  "out_ok (s\<lparr>nd_h := x3\<rparr>) = out_ok s"
  "out_ok (s\<lparr>nd_H := x3\<rparr>) = out_ok s"
  "out_ok (s\<lparr>nd_reqlog := x4\<rparr>) = out_ok s"
  "out_ok (s\<lparr>nd_last_replies := x5\<rparr>) = out_ok s"
  "out_ok (s\<lparr>nd_view_changing := x6\<rparr>) = out_ok s"
  "out_ok (s\<lparr>nd_view_change_store := x7\<rparr>) = out_ok s"
  "out_ok (s\<lparr>nd_view_change_timeout_count := x2\<rparr>) = out_ok s"
  "out_ok (s\<lparr>nd_checkpoints := x8\<rparr>) = out_ok s"
  "out_ok (s\<lparr>nd_last_stable_digest := x9\<rparr>) = out_ok s"
  "out_ok (s\<lparr>nd_timer_running := x6\<rparr>) = out_ok s"
  "out_ok (s\<lparr>nd_service := x10\<rparr>) = out_ok s"
  by (simp_all add: out_ok_def)

lemma out_ok_emit [simp]: "out_ok s \<Longrightarrow> \<forall>a \<in> set acts. P a \<Longrightarrow> out_ok (emit acts s)"
  by (auto simp: out_ok_def)

text \<open>The two places where a modulus by zero could happen.\<close>

lemma out_ok_division [simp]:
  "out_ok s \<Longrightarrow> nd_n s = 0 \<Longrightarrow> out_ok (emit [Trap DivisionByZero] s)"
  "out_ok s \<Longrightarrow> nd_K s = 0 \<Longrightarrow> out_ok (emit [Trap DivisionByZero] s)"
  "out_ok s \<Longrightarrow> primary_undefined c s \<Longrightarrow> out_ok (emit [Trap DivisionByZero] s)"
  by (auto simp: out_ok_def primary_undefined_def)

lemma out_ok_basic [simp]:
  assumes "out_ok s"
  shows "wire_built D w \<Longrightarrow> out_ok (broadcast E w s)"
    and "wire_built D w \<Longrightarrow> out_ok (send_via E co w s)"
    and "out_ok (update_entry E n g s)" and "out_ok (touch_entry E n s)"
  using assms by (auto simp: out_ok_def send)

lemma out_ok_timer [simp]:
  assumes "out_ok s"
  shows "out_ok (start_timer_if_not_running s)" and "out_ok (stop_timer s)"
  using assms by (simp_all add: start_timer_if_not_running_def stop_timer_def timer)

lemma out_ok_manage [simp]: "out_ok s \<Longrightarrow> out_ok (manage_timer s)"
  by (simp add: manage_timer_def)

lemma out_ok_checkpoints [simp]:
  assumes "out_ok s"
  shows "env_stream E = D \<Longrightarrow> out_ok (make_checkpoint E s)" and "out_ok (stabilise n d s)"
  using assms
  by (auto simp: make_checkpoint_def stable_defs
      Let_def)

lemma out_ok_execute_entry [simp]:
  "out_ok s \<Longrightarrow> env_stream E = D \<Longrightarrow> out_ok (execute_entry E e s)"
  by (simp add: execute_entry_def send_to_client_def Let_def split: prod.split)

lemma out_ok_try_execute [simp]:
  "out_ok s \<Longrightarrow> env_stream E = D \<Longrightarrow> out_ok (try_execute E s)"
proof -
  have "out_ok s \<Longrightarrow> env_stream E = D \<Longrightarrow> out_ok (execute_loop k E s)" for k
    by (induction k E s rule: execute_loop.induct) (simp_all split: option.split)
  then show "out_ok s \<Longrightarrow> env_stream E = D \<Longrightarrow> out_ok (try_execute E s)"
    by (simp only: try_execute_def)
qed

lemma out_ok_try_commit [simp]: "out_ok s \<Longrightarrow> env_stream E = D \<Longrightarrow> out_ok (try_commit E n s)"
  by (auto simp: try_commit_def Let_def)

lemma out_ok_try_prepare [simp]: "out_ok s \<Longrightarrow> env_stream E = D \<Longrightarrow> out_ok (try_prepare E n s)"
  by (auto simp: try_prepare_def Let_def)

lemma out_ok_preprepare_impl [simp]:
  "out_ok s \<Longrightarrow> env_stream E = D \<Longrightarrow> out_ok (on_preprepare_impl E m c b s)"
  by (auto simp: on_preprepare_impl_def accept_preprepare_def Let_def)

lemma out_ok_replay [simp]: "out_ok s \<Longrightarrow> env_stream E = D \<Longrightarrow> out_ok (replay E c pps s)"
  by (induction pps arbitrary: s) simp_all

lemma out_ok_viewchange [simp]: "out_ok s \<Longrightarrow> env_stream E = D \<Longrightarrow> out_ok (on_viewchange E m s)"
  by (auto simp: viewchange_defs Let_def split: option.split)

lemma out_ok_start_view_change [simp]:
  "out_ok s \<Longrightarrow> env_stream E = D \<Longrightarrow> out_ok (start_view_change E s)"
  unfolding start_view_change_def Let_def by (intro out_ok_viewchange out_ok_basic) simp_all

lemma out_ok_handlers [simp]:
  assumes "out_ok s" and "env_stream E = D"
  shows "out_ok (on_request E rm s)" and "out_ok (on_prepare E pm c s)"
    and "out_ok (on_commit E cm s)" and "out_ok (on_checkpoint km s)"
    and "out_ok (on_handshake hm c s)" and "out_ok (on_connection E c b s)"
    and "out_ok (on_newview E nm c s)"
  using assms
  by (auto simp: request_defs
      on_prepare_def on_commit_def on_checkpoint_def on_handshake_def on_connection_def
      on_newview_def send Let_def split: option.split)

lemma out_ok_step: "out_ok s \<Longrightarrow> env_stream E = D \<Longrightarrow> out_ok (step E ev s)"
proof (cases ev)
  case (Deliver c w)
  assume "out_ok s" "env_stream E = D"
  with Deliver show ?thesis by (cases w) (simp_all add: on_preprepare_def)
qed (simp_all add: out_ok_def [of "add_replica _ _ _"] out_ok_def [of "add_client _ _ _"],
    simp_all add: out_ok_def)

lemma out_ok_run:
  assumes "run E (Node_ctor E i cfg svc b) s" and "env_stream E = D"
    and "P (Trap DivisionByZero) \<or> cfg_num_replicas cfg \<noteq> 0 \<and> cfg_checkpoint_interval cfg \<noteq> 0"
  shows "out_ok s"
  using assms(1)
proof (induction rule: run.induct)
  case run_refl
  from assms(3) show ?case by (simp add: out_ok_def Node_ctor_def)
next
  case (run_step t E' ev)
  with assms(2) show ?case by (intro out_ok_step) (auto simp: same_env_sel)
qed

end

interpretation sends: output_predicate D "\<lambda>a. \<forall>c w. a = Send c w \<longrightarrow> wire_built D w" for D
  by unfold_locales (auto simp: is_timer_act_def)

interpretation division: output_predicate D "\<lambda>a. a \<noteq> Trap DivisionByZero" for D
  by unfold_locales (auto simp: is_timer_act_def)

end
