(* ===== verification/New_View.thy ===== *)
theory New_View
  imports Node_Log
begin

text \<open>
  The view change: the loop that numbers the O set, the choice of a prepared proof, and that the
  new-view message of an honest primary passes the tests of \<open>on_newview\<close>.
\<close>

section \<open>The range of the loop\<close>

lemma unat_succ: "x \<noteq> - 1 \<Longrightarrow> unat (x + 1) = Suc (unat x)" for x :: u64
  by (simp add: unatSuc add.commute) (metis add.commute add_eq_0_iff unatSuc)

lemma unat_not_max: "x \<noteq> - 1 \<Longrightarrow> Suc (unat x) < 2 ^ 64" for x :: u64
proof -
  assume "x \<noteq> - 1"
  have "unat (x + 1) < 2 ^ LENGTH(64)" by (rule unsigned_less)
  then show ?thesis using unat_succ [OF \<open>x \<noteq> - 1\<close>] by simp
qed

lemma seq_range_Some:
  assumes "max_s \<noteq> - 1" and "min_s \<noteq> - 1"
  shows "\<exists>xs. seq_range min_s max_s = Some xs \<and> distinct xs \<and> sorted xs \<and>
    set xs = {min_s <.. max_s} \<and> length xs = unat max_s - unat min_s"
proof -
  let ?is = "[Suc (unat min_s) ..< Suc (unat max_s)]"
  let ?xs = "map of_nat ?is :: u64 list"
  have range: "seq_range min_s max_s = Some ?xs"
    using assms by (simp add: seq_range_def unat_succ)
  have small: "unat (of_nat i :: u64) = i" if "i < Suc (unat max_s)" for i
    using that unat_not_max [OF assms(1)] by (simp add: unat_of_nat)
  have "inj_on (of_nat :: nat \<Rightarrow> u64) (set ?is)"
    using small by (auto intro!: inj_on_inverseI [of _ unat])
  then have "distinct ?xs" by (simp add: distinct_map)
  moreover have "sorted ?xs"
  proof -
    have "map unat ?xs = ?is"
      unfolding map_map by (rule map_idI) (use small in auto)
    then have "sorted (map unat ?xs)" by (simp only: sorted_upt)
    then show ?thesis by (simp add: sorted_map word_le_nat_alt comp_def sorted_wrt_map)
  qed
  moreover have "set ?xs = {min_s <.. max_s}"
  proof (rule set_eqI)
    fix n :: u64
    have "n \<in> set ?xs \<longleftrightarrow> (\<exists>i. unat min_s < i \<and> i \<le> unat max_s \<and> n = of_nat i)"
      by (simp del: upt_Suc) (auto simp: image_iff less_Suc_eq_le Suc_le_eq)
    also have "\<dots> \<longleftrightarrow> unat min_s < unat n \<and> unat n \<le> unat max_s"
    proof
      assume "\<exists>i. unat min_s < i \<and> i \<le> unat max_s \<and> n = of_nat i"
      then obtain i where "unat min_s < i" "i \<le> unat max_s" "n = of_nat i" by blast
      with small [of i] show "unat min_s < unat n \<and> unat n \<le> unat max_s" by simp
    next
      assume "unat min_s < unat n \<and> unat n \<le> unat max_s"
      then show "\<exists>i. unat min_s < i \<and> i \<le> unat max_s \<and> n = of_nat i"
        by (intro exI [of _ "unat n"]) simp
    qed
    finally show "n \<in> set ?xs \<longleftrightarrow> n \<in> {min_s <.. max_s}"
      by (simp add: word_less_nat_alt word_le_nat_alt)
  qed
  moreover have "length ?xs = unat max_s - unat min_s" by (simp only: length_map length_upt)
  ultimately show ?thesis using range by blast
qed

text \<open>The maximum with another start.\<close>

lemma fold_max: "fold (\<lambda>p m. max m (g p)) ps (max a b) = max a (fold (\<lambda>p m. max m (g p)) ps b)"
  for a b :: "'b::linorder"
  by (induction ps arbitrary: b) (simp_all add: max.assoc)

lemma max_seq_start: "max_seq start V = max start (max_seq 0 V)"
proof -
  have "fold (\<lambda>vc m. fold (\<lambda>p m. max m (pf_seq_num p)) (vc_prepared_proofs vc) m) V (max a b) =
      max a (fold (\<lambda>vc m. fold (\<lambda>p m. max m (pf_seq_num p)) (vc_prepared_proofs vc) m) V b)"
    for a b :: u64
    by (induction V arbitrary: b) (simp_all add: fold_max)
  from this [of start 0] show ?thesis by (simp add: max_seq_def max.commute word_zero_le max_absorb2)
qed

text \<open>The size test of a backup accepts the O set of the primary.\<close>

lemma length_new_view_set:
  assumes "new_view_set E v V = Some O'" and "min_seq V \<noteq> - 1"
  shows "length O' = unat (max_seq (min_seq V) V - min_seq V)"
proof -
  let ?min = "min_seq V" and ?max = "max_seq 0 V"
  from assms(1) obtain xs where xs: "seq_range ?min ?max = Some xs"
    "O' = map (new_preprepare E v V) xs" by (auto simp: new_view_set_def)
  then have "?max \<noteq> - 1" by (auto simp: seq_range_def)
  with seq_range_Some [OF this assms(2)] xs have len: "length O' = unat ?max - unat ?min" by auto
  show ?thesis
  proof (cases "?min \<le> ?max")
    case True
    then have "max_seq ?min V = ?max" by (simp add: max_seq_start [of ?min] max_def)
    with len True show ?thesis by (simp add: unat_sub)
  next
    case False
    then have "max_seq ?min V = ?min" by (simp add: max_seq_start [of ?min] max_def)
    with len False show ?thesis by (simp add: word_le_nat_alt)
  qed
qed

section \<open>The choice of a proof\<close>

text \<open>The proofs in the order in which the loops meet them.\<close>

definition proofs :: "ViewChangeMsg list \<Rightarrow> PrepareProof list" where
  "proofs V = concat (map vc_prepared_proofs V)"

lemma choose_proof_fold: "choose_proof n V = snd (fold (choose_step n) (proofs V) (0, None))"
proof -
  have "fold (\<lambda>vc. fold (choose_step n) (vc_prepared_proofs vc)) V acc =
      fold (choose_step n) (proofs V) acc" for acc
    by (induction V arbitrary: acc) (simp_all add: proofs_def)
  then show ?thesis by (simp add: choose_proof_def)
qed

definition chosen :: "u64 \<Rightarrow> PrepareProof list \<Rightarrow> u32 \<times> u256 option \<Rightarrow> bool" where
  "chosen n ps acc \<longleftrightarrow>
     (\<forall>p \<in> set ps. pf_seq_num p = n \<longrightarrow> pf_view p \<le> fst acc) \<and>
     (case snd acc of
        None \<Rightarrow> fst acc = 0
      | Some d \<Rightarrow> fst acc \<noteq> 0 \<and>
          (\<exists>p \<in> set ps. pf_seq_num p = n \<and> pf_view p = fst acc \<and> pf_digest p = d))"

lemma chosen_fold: "chosen n ps (fold (choose_step n) ps (0, None))"
proof (induction ps rule: rev_induct)
  case Nil
  show ?case by (simp add: chosen_def)
next
  case (snoc p ps)
  let ?acc = "fold (choose_step n) ps (0, None)"
  show ?case
  proof (cases "pf_seq_num p = n \<and> fst ?acc < pf_view p")
    case True
    with snoc have "pf_view q \<le> pf_view p" if "q \<in> set ps" "pf_seq_num q = n" for q
      using that by (fastforce simp: chosen_def)
    moreover from True have "pf_view p \<noteq> 0" by (metis word_not_simps(1))
    moreover have "fold (choose_step n) (ps @ [p]) (0, None) = (pf_view p, Some (pf_digest p))"
      using True by (simp add: choose_step_def [of n p ?acc])
    ultimately show ?thesis using True by (auto simp: chosen_def)
  next
    case False
    then have "fold (choose_step n) (ps @ [p]) (0, None) = ?acc" by (auto simp: choose_step_def [of n p ?acc])
    with snoc False show ?thesis by (auto simp: chosen_def not_less split: option.splits)
  qed
qed

lemma choose_proof_Some:
  assumes "choose_proof n V = Some d"
  shows "\<exists>p \<in> set (proofs V). pf_seq_num p = n \<and> pf_digest p = d \<and> 0 < pf_view p \<and>
    (\<forall>q \<in> set (proofs V). pf_seq_num q = n \<longrightarrow> pf_view q \<le> pf_view p)"
proof -
  let ?acc = "fold (choose_step n) (proofs V) (0, None)"
  from assms have "snd ?acc = Some d" by (simp add: choose_proof_fold)
  with chosen_fold [of n "proofs V"] obtain p where p: "p \<in> set (proofs V)" "pf_seq_num p = n"
    "pf_view p = fst ?acc" "pf_digest p = d" "fst ?acc \<noteq> 0"
    "\<forall>q \<in> set (proofs V). pf_seq_num q = n \<longrightarrow> pf_view q \<le> fst ?acc"
    by (auto simp: chosen_def)
  then show ?thesis by (intro bexI [of _ p]) (auto simp: word_neq_0_conv)
qed

lemma choose_proof_None:
  "choose_proof n V = None \<longleftrightarrow> (\<forall>p \<in> set (proofs V). pf_seq_num p = n \<longrightarrow> pf_view p = 0)"
proof
  let ?acc = "fold (choose_step n) (proofs V) (0, None)"
  assume "choose_proof n V = None"
  then have "snd ?acc = None" by (simp add: choose_proof_fold)
  with chosen_fold [of n "proofs V"] show "\<forall>p \<in> set (proofs V). pf_seq_num p = n \<longrightarrow> pf_view p = 0"
    by (auto simp: chosen_def)
next
  assume *: "\<forall>p \<in> set (proofs V). pf_seq_num p = n \<longrightarrow> pf_view p = 0"
  show "choose_proof n V = None"
  proof (cases "choose_proof n V")
    case (Some d)
    from choose_proof_Some [OF this] * show ?thesis by fastforce
  qed simp
qed

section \<open>The new-view message of the primary is accepted\<close>

lemma emit_sees [simp]:
  "primary_undefined c (emit acts s) = primary_undefined c s"
  by (simp add: primary_undefined_def)

lemma on_newview_enters:
  assumes "comes_from_primary_of c (trunc v) s" and "nd_n s \<noteq> 0" and "nd_view_changing s"
    and "zext (nd_view s) < v" and "v < 2 ^ 32"
    and "unat (2 * nd_f s + 1) \<le> length V" and "min_seq V \<noteq> - 1"
    and "new_view_set E v V = Some O'"
  shows "nd_view (on_newview E (NewViewMsg_ctor D (trunc v) V O') c s) = trunc v \<and>
    \<not> nd_view_changing (on_newview E (NewViewMsg_ctor D (trunc v) V O') c s)"
proof -
  have v: "zext (trunc v) = v"
  proof -
    have "unat (zext (trunc v)) = unat v"
      using assms(5) by (simp add: word_less_nat_alt unsigned_ucast_eq unsigned_take_bit_eq take_bit_nat_eq_self)
    then show ?thesis by (simp add: word_unat_eq_iff)
  qed
  have len: "length O' = unat (max_seq (min_seq V) V - min_seq V)"
    by (rule length_new_view_set [OF assms(8,7)])
  show ?thesis
    using assms(1-4,6) len
    by (simp add: on_newview_def Let_def v primary_undefined_def comes_from_primary_of_emit not_le)
qed

section \<open>The stored view-change messages\<close>

text \<open>
  The store is keyed by view and by sender: \<open>2 f + 1\<close> entries are votes of \<open>2 f + 1\<close> different
  replicas, and each is a vote for the view under which it is stored.
\<close>

definition votes_ok :: "u32 \<Rightarrow> (u32, ViewChangeMsg) std_map \<Rightarrow> bool" where
  "votes_ok v vcs \<longleftrightarrow> std_wf vcs \<and>
     (\<forall>r m. std_find vcs r = Some m \<longrightarrow> vc_replica_id m = r \<and> trunc (vc_next_view m) = v)"

definition store_ok :: "'svc node \<Rightarrow> bool" where
  "store_ok s \<longleftrightarrow> std_wf (nd_view_change_store s) \<and>
     (\<forall>v vcs. std_find (nd_view_change_store s) v = Some vcs \<longrightarrow> votes_ok v vcs)"

lemma store_ok_cong: "nd_view_change_store t = nd_view_change_store s \<Longrightarrow> store_ok s \<Longrightarrow> store_ok t"
  by (simp add: store_ok_def)

lemma votes_ok_set:
  "votes_ok v vcs \<Longrightarrow> trunc (vc_next_view m) = v \<Longrightarrow> votes_ok v (std_set (vc_replica_id m) m vcs)"
  by (simp add: votes_ok_def)

lemma store_ok_ref: "store_ok s \<Longrightarrow> votes_ok v (std_ref [] (nd_view_change_store s) v)"
  by (cases "std_find (nd_view_change_store s) v") (simp_all add: store_ok_def votes_ok_def)

lemma store_ok_store: "store_ok s \<Longrightarrow> store_ok (store_view_change m s)"
  using votes_ok_set [OF store_ok_ref [where v = "trunc (vc_next_view m)"], of s m]
  by (simp add: store_ok_def store_view_change_def Let_def)

lemma store_ok_viewchange:
  assumes "store_ok s"
  shows "store_ok (on_viewchange E m s)"
proof -
  let ?s = "emit [count_msg (WViewChange m) False] s"
  have s: "store_ok ?s" "store_ok (emit acts ?s)" for acts
    using assms by (simp_all add: store_ok_def)
  then have t: "store_ok (store_view_change m ?s)" by (intro store_ok_store)
  have "store_ok (emit acts (store_view_change m ?s))" "store_ok (enter_view E v V O' (store_view_change m ?s))"
    for acts v V O'
    by (rule store_ok_cong [OF _ t]; simp add: enter_view_def Let_def)+
  with s t show ?thesis by (simp add: on_viewchange_def Let_def split: option.split)
qed

lemma store_ok_step: "store_ok s \<Longrightarrow> store_ok (step E ev s)"
proof (cases ev)
  case (Deliver c w)
  assume "store_ok s"
  with Deliver show ?thesis
    by (cases w) (simp_all add: on_preprepare_def store_ok_viewchange, simp_all add: store_ok_def)
next
  case Timeout
  assume "store_ok s"
  then have "store_ok (start_view_change E s)"
    unfolding start_view_change_def Let_def
    by (intro store_ok_viewchange) (simp add: store_ok_def)
  with Timeout show ?thesis by simp
qed (simp_all add: store_ok_def)

interpretation view_store: node_invariant "\<lambda>E s. store_ok s"
  by unfold_locales (simp_all add: store_ok_step, simp add: store_ok_def Node_ctor_def)

end
