(* ===== verification/Node_Properties.thy ===== *)
theory Node_Properties
  imports Scenarios Node_Timer Node_Output New_View
begin

text \<open>
  The properties of a single node, for every run: any sequence of events from the constructed
  state, with messages of any content. The witnesses evaluate the run of a backup that orders,
  commits and executes one operation.
\<close>

lemma run_const:
  assumes "run E s t"
  shows "nd_id t = nd_id s" "nd_n t = nd_n s" "nd_f t = nd_f s" "nd_L t = nd_L s" "nd_K t = nd_K s"
    "nd_vc_timeout t = nd_vc_timeout s"
  using assms by (induction rule: run.induct) simp_all

lemma ctor_sel [simp]:
  "nd_L (Node_ctor E i cfg svc b) = cfg_log_size cfg" "nd_id (Node_ctor E i cfg svc b) = i"
  "nd_n (Node_ctor E i cfg svc b) = cfg_num_replicas cfg"
  "nd_K (Node_ctor E i cfg svc b) = cfg_checkpoint_interval cfg"
  "nd_vc_timeout (Node_ctor E i cfg svc b) = cfg_vc_timeout cfg"
  "nd_f (Node_ctor E i cfg svc b) = (cfg_num_replicas cfg - 1) div 3"
  by (simp_all add: Node_ctor_def)

section \<open>A concrete run\<close>

definition backup_events :: "event list" where
  "backup_events = [AddReplica 0 0, AddClient 7 7, hello 0, propose 3 ''op'', prepare_from 3 3,
     commit_from 0 3, commit_from 3 3]"

definition backup_state :: "nat node" where
  "backup_state = fold (step demo_env) backup_events (demo_node 1)"

lemma backup_run: "run demo_env (Node_ctor demo_env 1 demo_config 0 False) backup_state"
  unfolding backup_state_def demo_node_def by (rule run_fold)

lemma backup_history:
  "history backup_state = [\<lparr>ex_view = 0, ex_op = ''op'', ex_seq = 1, ex_digest = 3\<rparr>]"
  by code_simp

section \<open>Execution\<close>

text \<open>
  C8. The lines EXECUTED of a replica carry the sequence numbers 1, 2, 3, ... without gap or
  repetition, \<open>last_exec_\<close> is their number, and the service is in the state that their operations
  produce from the initial one. Each of the operations was logged as LOCALLY COMMITTED, in the same
  view and under the same sequence number and digest.
\<close>

theorem history_in_order:
  assumes "run E (Node_ctor E i cfg svc b) s"
  shows "map ex_seq (history s) = map of_nat [1 ..< Suc (length (history s))] \<and>
    nd_last_exec s = of_nat (length (history s)) \<and>
    nd_service s = run_ops (env_service E) (svc_initialize (env_service E) svc) (operations s) \<and>
    (\<forall>x \<in> set (history s).
       Log (LogCommitted (ex_view x) (ex_op x) (ex_seq x) (ex_digest x)) \<in> set (nd_out s))"
  using exec_ok_run [OF assms] by (simp add: exec_ok_def history_ok_def)

theorem history_in_order_witness:
  "nd_last_exec backup_state = 1 \<and> nd_service backup_state = 1 \<and>
   Log (LogCommitted 0 ''op'' 1 3) \<in> set (nd_out backup_state)"
proof -
  have "env_service demo_env = counter_service" by (simp add: demo_env_def)
  with history_in_order [OF backup_run] show ?thesis
    by (simp add: backup_history counter_service_def)
qed

text \<open>
  C11. The loop of \<open>try_execute\<close> ends: with one turn more than the log has entries it stops at a
  sequence number whose entry is missing or not committed, and further turns change nothing.
\<close>

theorem execution_loop_ends:
  assumes "std_wf (nd_reqlog s)" and "length (nd_reqlog s) < 2 ^ 64"
  shows "(\<forall>k. execute_loop (Suc (length (nd_reqlog s)) + k) E s = try_execute E s) \<and>
    (case std_find (nd_reqlog s) (nd_last_exec (try_execute E s) + 1) of
       None \<Rightarrow> True | Some e \<Rightarrow> re_stage e \<noteq> COMMITTED)"
proof -
  have stop: "case std_find (nd_reqlog s) (nd_last_exec (try_execute E s) + 1) of
      None \<Rightarrow> True | Some e \<Rightarrow> re_stage e \<noteq> COMMITTED"
    by (rule try_execute_stops [OF assms])
  then have "execute_loop (Suc (length (nd_reqlog s)) + k) E s = try_execute E s" for k
    using execute_loop_stable [of s "Suc (length (nd_reqlog s))" E k]
    unfolding try_execute_def by blast
  with stop show ?thesis by blast
qed

theorem execution_loop_ends_witness:
  "execute_loop 10 demo_env backup_state = try_execute demo_env backup_state"
proof -
  have len: "length (nd_reqlog backup_state) = 1" by code_simp
  then have short: "length (nd_reqlog backup_state) < 2 ^ 64" by simp
  have wf: "std_wf (nd_reqlog backup_state)"
    using reqlog.holds [OF backup_run] by (simp add: reqlog_ok_def)
  note execution_loop_ends [OF wf short, THEN conjunct1, THEN spec, of 8 demo_env]
  moreover have "Suc (length (nd_reqlog backup_state)) + 8 = 10" by (simp add: len)
  ultimately show ?thesis by (simp only:)
qed

section \<open>The log and the window\<close>

text \<open>
  C19. The request log is well formed in every run: its keys increase strictly, an entry without a
  pre-prepare is in its initial stage with the default digest, and an entry with one is filed
  under its own sequence number and has left the initial stage.
\<close>

theorem log_well_formed:
  assumes "run E (Node_ctor E i cfg svc b) s"
  shows "std_wf (nd_reqlog s) \<and> (\<forall>n e. std_find (nd_reqlog s) n = Some e \<longrightarrow>
    (if re_has_preprepare e then re_seq e = n \<and> re_stage e \<noteq> NONE
     else re_digest e = env_null_digest E \<and> re_stage e = NONE))"
  using reqlog.holds [OF assms] by (simp add: reqlog_ok_def entry_ok_def)

theorem log_well_formed_witness: "std_wf (nd_reqlog backup_state)"
  using log_well_formed [OF backup_run] by blast

text \<open>
  C21. Memory is bounded whatever messages arrive: the log never holds more than \<open>L_ + 1\<close> entries,
  all of them at a distance of at most \<open>L_\<close> above the low watermark, and \<open>H_ = h_ + L_\<close>.
\<close>

theorem log_bounded:
  assumes "run E (Node_ctor E i cfg svc b) s"
  shows "nd_H s = nd_h s + zext (cfg_log_size cfg) \<and>
    (\<forall>k \<in> log_keys s. nd_h s \<le> k \<and> k - nd_h s \<le> zext (cfg_log_size cfg)) \<and>
    length (nd_reqlog s) \<le> Suc (unat (cfg_log_size cfg))"
proof -
  have L: "nd_L s = cfg_log_size cfg" using run_const(4) [OF assms] by simp
  have "window_ok s" by (rule window.holds [OF assms])
  moreover have "std_wf (nd_reqlog s)" using reqlog.holds [OF assms] by (simp add: reqlog_ok_def)
  ultimately show ?thesis
    using length_log_bound [of s] by (simp add: window_ok_def near_def L)
qed

theorem log_bounded_witness: "length (nd_reqlog backup_state) \<le> 201"
  using log_bounded [OF backup_run] by (simp add: demo_config_def)

section \<open>Checkpoints\<close>

text \<open>
  C22. A checkpoint message that completes a quorum of \<open>2 f + 1\<close> equal votes moves the window to its
  sequence number and erases exactly the entries up to it; every later entry keeps its content.
\<close>

theorem stable_checkpoint:
  assumes "\<not> ck_seq_num m < nd_h s"
    and "\<not> cv_stable (checkpoint_at (ck_seq_num m) s)"
    and "unat (2 * nd_f s + 1) \<le> card (insert (ck_replica_id m)
           (vote_set (ck_state_digest m) (checkpoint_at (ck_seq_num m) s)))"
  shows "nd_h (on_checkpoint m s) = ck_seq_num m \<and>
    nd_H (on_checkpoint m s) = ck_seq_num m + zext (nd_L s) \<and>
    nd_last_stable_digest (on_checkpoint m s) = ck_state_digest m \<and>
    (\<forall>k. std_find (nd_reqlog (on_checkpoint m s)) k =
       (if k \<le> ck_seq_num m then None else std_find (nd_reqlog s) k)) \<and>
    (\<forall>k. nd_checkpoints (on_checkpoint m s) k \<noteq> None \<longrightarrow> ck_seq_num m \<le> k)"
proof -
  have cv: "vote_set d (add_vote d r cv) = insert r (vote_set d cv)"
    "cv_stable (add_vote d r cv) = cv_stable cv" for d r cv
    by (simp_all add: vote_set_def add_vote_def update_conv')
  have at: "checkpoint_at n (emit acts s) = checkpoint_at n s" for n acts
    by (simp add: checkpoint_at_def)
  obtain t where t: "on_checkpoint m s = stabilise (ck_seq_num m) (ck_state_digest m) t"
    "nd_L t = nd_L s" "nd_reqlog t = nd_reqlog s"
    using assms by (simp add: on_checkpoint_def Let_def cv at)
  show ?thesis
    unfolding t(1)
    by (simp add: t(2,3) stable_defs
        restrict_map_def not_less Let_def)
qed

definition checkpoint_votes_state :: "nat node" where
  "checkpoint_votes_state = fold (step demo_env)
     [Deliver 0 (WCheckpoint (CheckpointMsg_ctor mute_stream 1 9 0)),
      Deliver 2 (WCheckpoint (CheckpointMsg_ctor mute_stream 1 9 2))] backup_state"

theorem stable_checkpoint_witness:
  "nd_h (on_checkpoint (CheckpointMsg_ctor mute_stream 1 9 3) checkpoint_votes_state) = 1 \<and>
   std_find (nd_reqlog (on_checkpoint (CheckpointMsg_ctor mute_stream 1 9 3)
     checkpoint_votes_state)) 1 = None"
proof -
  let ?m = "CheckpointMsg_ctor mute_stream 1 9 3"
  have "\<not> ck_seq_num ?m < nd_h checkpoint_votes_state" by code_simp
  moreover have "\<not> cv_stable (checkpoint_at (ck_seq_num ?m) checkpoint_votes_state)" by code_simp
  moreover have "unat (2 * nd_f checkpoint_votes_state + 1) \<le> card (insert (ck_replica_id ?m)
      (vote_set (ck_state_digest ?m) (checkpoint_at (ck_seq_num ?m) checkpoint_votes_state)))"
    by code_simp
  ultimately show ?thesis using stable_checkpoint [of ?m checkpoint_votes_state] by simp
qed

section \<open>Timer and configuration\<close>

text \<open>
  C28. Every delay with which a node starts its timer is the configured one, cut at 300 seconds:
  the exponential backoff never shows, the shift in its computation never goes too far, and the
  timer is never running during a view change it could interrupt.
\<close>

theorem timer_delay_constant:
  assumes "run E (Node_ctor E i cfg svc b) s"
  shows "(\<forall>x. TimerAdd x \<in> set (nd_out s) \<longrightarrow> x = min (cfg_vc_timeout cfg) 300) \<and>
    Trap ShiftTooFar \<notin> set (nd_out s) \<and> (nd_timer_running s \<longrightarrow> \<not> nd_view_changing s) \<and>
    (nd_view_changing s \<or> nd_view_change_timeout_count s = 0)"
proof -
  have "timer_ok (cfg_vc_timeout cfg) s"
    using timer.holds [OF assms] run_const(6) [OF assms] by simp
  then show ?thesis unfolding timer_ok_def timer_act_ok_def by fastforce
qed

theorem timer_delay_constant_witness:
  "TimerAdd 2 \<in> set (nd_out backup_state) \<and> nd_view_change_timeout_count backup_state = 0 \<and>
   Trap ShiftTooFar \<notin> set (nd_out backup_state)"
proof -
  have "nd_view_changing backup_state = False" by code_simp
  moreover have "list_ex (\<lambda>a. case a of TimerAdd x \<Rightarrow> True | _ \<Rightarrow> False) (nd_out backup_state)"
    by code_simp
  then obtain a where a: "a \<in> set (nd_out backup_state)" "case a of TimerAdd x \<Rightarrow> True | _ \<Rightarrow> False"
    unfolding list_ex_iff by blast
  from a(2) obtain x where "a = TimerAdd x" by (cases a) simp_all
  with a(1) have "TimerAdd x \<in> set (nd_out backup_state)" by simp
  ultimately show ?thesis
    using timer_delay_constant [OF backup_run] by (auto simp: demo_config_def)
qed

text \<open>With at least one replica and a non-zero checkpoint interval no handler divides by zero.\<close>

lemma no_division_by_zero:
  assumes "run E (Node_ctor E i cfg svc b) s"
    and "cfg_num_replicas cfg \<noteq> 0" and "cfg_checkpoint_interval cfg \<noteq> 0"
  shows "Trap DivisionByZero \<notin> set (nd_out s)"
  using division.out_ok_run [OF assms(1) refl] assms(2,3) by (auto simp: division.out_ok_def)

section \<open>Messages on the wire\<close>

text \<open>
  C29. On a little-endian host the bytes of every message a node sends are the encoding of its
  fields, and the receiver, which dispatches on the opcode, decodes them to the message that was
  sent (without the byte buffer itself), as long as strings and vectors are shorter than 2^32.
\<close>

theorem sent_messages_decode:
  assumes "run E (Node_ctor E i cfg svc b) s" and "Send c w \<in> set (nd_out s)"
    and "little_endian (env_stream E)" and "wire_ok w"
  shows "wire_serialized w = wire_encode (env_stream E) w \<and>
    read_wire (env_stream E) (opcode_of (wire_type w)) (wire_serialized w) = Some (wire_strip w)"
proof -
  have "sends.out_ok (env_stream E) s" by (rule sends.out_ok_run [OF assms(1) refl]) simp
  with assms(2) have "wire_built (env_stream E) w" unfolding sends.out_ok_def by blast
  then show ?thesis
    using little_endian.read_encode [OF assms(3,4)] by (simp add: wire_built_def)
qed

definition wire_env :: "nat env" where
  "wire_env = demo_env\<lparr>env_stream := le_stream id\<rparr>"

theorem sent_messages_decode_witness:
  "let w = WHandshake (HandshakeMsg_ctor (le_stream id) 1)
   in read_wire (le_stream id) (opcode_of (wire_type w)) (wire_serialized w) = Some (wire_strip w)"
proof -
  let ?s = "Node_ctor wire_env 1 demo_config 0 False"
  let ?w = "WHandshake (HandshakeMsg_ctor (le_stream id) 1)"
  have run: "run wire_env ?s (step wire_env (Connection 5 True) ?s)"
    by (rule run.run_step [OF run.run_refl same_env_refl])
  have sent: "Send 5 ?w \<in> set (nd_out (step wire_env (Connection 5 True) ?s))"
    by (simp add: on_connection_def wire_env_def)
  have ok: "little_endian (env_stream wire_env)" "wire_ok ?w"
    by (simp_all add: wire_env_def le.little_endian_axioms)
  have "read_wire (env_stream wire_env) (opcode_of (wire_type ?w)) (wire_serialized ?w) =
      Some (wire_strip ?w)"
    using sent_messages_decode [OF run sent ok] by blast
  moreover have "env_stream wire_env = le_stream id" by (simp add: wire_env_def)
  ultimately show ?thesis by (simp only: Let_def)
qed

section \<open>View changes\<close>

definition changing_state :: "nat node" where
  "changing_state = fold (step demo_env) [hello 1, Timeout] (demo_node 2)"

definition demo_votes :: "ViewChangeMsg list" where
  "demo_votes = map (\<lambda>i. ViewChangeMsg_ctor mute_stream 1 0 i [] [PrepareProof_ctor 0 1 3]) [0, 1, 2]"

lemma demo_new_view: "\<exists>O'. new_view_set demo_env 1 demo_votes = Some O'"
proof -
  have "max_seq 0 demo_votes = 1" by code_simp
  then show ?thesis by (simp add: new_view_set_def seq_range_def)
qed

text \<open>
  C24. A view change completes. The replica that is the primary of view \<open>v\<close>, not older than its own, enters it as
  soon as it holds view-change messages of \<open>2 f + 1\<close> replicas for it and the loop over sequence numbers
  ends, and sends every connected peer a new-view message with exactly these messages. A backup that has
  left its view (it is changing views), is in a lower view than \<open>v\<close>, and receives this message over a connection it knows as
  that of the primary of \<open>v\<close>, enters \<open>v\<close> too: the message passes all its tests. (The stable checkpoint
  reported must not be the largest 64-bit number, and the view must fit 32 bits; a backup that is not
  changing views ignores the message.)
\<close>

theorem view_change_completes:
  assumes "\<not> vc_next_view m < zext (nd_view s)" and "nd_n s \<noteq> 0"
    and "vc_next_view m mod zext (nd_n s) = zext (nd_id s)" and "vc_next_view m < 2 ^ 32"
    and "V = map snd (std_set (vc_replica_id m) m
           (std_ref [] (nd_view_change_store s) (trunc (vc_next_view m))))"
    and "unat (2 * nd_f s + 1) \<le> length V" and "new_view_set E (vc_next_view m) V = Some O'"
    and "comes_from_primary_of c (trunc (vc_next_view m)) q" and "nd_n q \<noteq> 0" and "nd_f q = nd_f s"
    and "nd_view_changing q" and "zext (nd_view q) < vc_next_view m" and "min_seq V \<noteq> - 1"
  shows "let t = on_viewchange E m s;
      nv = NewViewMsg_ctor (env_stream E) (trunc (vc_next_view m)) V O'; u = on_newview E nv c q
    in nd_view t = trunc (vc_next_view m) \<and> \<not> nd_view_changing t \<and>
       (\<forall>i cn. (i, cn) \<in> set (nd_peers s) \<longrightarrow> i \<noteq> nd_id s \<longrightarrow> env_conn_ok E cn \<longrightarrow>
          Send cn (WNewView nv) \<in> set (nd_out t)) \<and>
       nd_view u = trunc (vc_next_view m) \<and> \<not> nd_view_changing u"
proof -
  let ?v = "vc_next_view m" and ?s = "store_view_change m (emit [count_msg (WViewChange m) False] s)"
  let ?nv = "NewViewMsg_ctor (env_stream E) (trunc ?v) V O'"
  have store: "map snd (std_ref [] (nd_view_change_store ?s) (trunc ?v)) = V"
    by (simp add: store_view_change_def Let_def std_ref_def assms(5))
  then have len: "length (std_ref [] (nd_view_change_store ?s) (trunc ?v)) = length V"
    using length_map by metis
  have enter: "on_viewchange E m s = enter_view E ?v V O' ?s"
    using assms(1-3,6,7) by (simp add: on_viewchange_def Let_def store len)
  have "Send cn (WNewView ?nv) \<in> set (nd_out (on_viewchange E m s))"
    if "(i, cn) \<in> set (nd_peers s)" "i \<noteq> nd_id s" "env_conn_ok E cn" for i cn
  proof -
    have "appends (broadcast E (WNewView ?nv) ?s) (on_viewchange E m s)"
      by (simp add: enter enter_view_def Let_def)
    moreover have "Send cn (WNewView ?nv) \<in> set (nd_out (broadcast E (WNewView ?nv) ?s))"
      using that by (auto simp: store_view_change_def Let_def)
    ultimately show ?thesis by (auto simp: appends_def)
  qed
  moreover have "nd_view (on_viewchange E m s) = trunc ?v" "\<not> nd_view_changing (on_viewchange E m s)"
    by (simp_all add: enter enter_view_def Let_def)
  ultimately show ?thesis
    using on_newview_enters [OF assms(8,9,11,12,4) _ assms(13,7)] assms(6,10) by (simp add: Let_def)
qed

text \<open>Replica 1 hears from replicas 0 and 3 that they leave view 0, and leaves it itself.\<close>

definition electing_state :: "nat node" where
  "electing_state = fold (step demo_env)
     (AddReplica 2 2 # map (\<lambda>m. Deliver 0 (WViewChange m)) (take 2 demo_votes)) (demo_node 1)"

theorem view_change_completes_witness:
  "nd_view (on_viewchange demo_env (demo_votes ! 2) electing_state) = 1 \<and>
   nd_view (on_newview demo_env (NewViewMsg_ctor mute_stream 1 demo_votes
     (the (new_view_set demo_env 1 demo_votes))) 1 changing_state) = 1"
proof -
  let ?m = "demo_votes ! 2"
  have m: "vc_next_view ?m = 1" "trunc (1 :: u64) = 1" by (simp_all add: demo_votes_def)
  have V: "demo_votes = map snd (std_set (vc_replica_id ?m) ?m
      (std_ref [] (nd_view_change_store electing_state) (trunc (vc_next_view ?m))))" by code_simp
  obtain O' where O': "new_view_set demo_env (vc_next_view ?m) demo_votes = Some O'"
    using demo_new_view by (auto simp: m)
  have s: "\<not> vc_next_view ?m < zext (nd_view electing_state)" "nd_n electing_state \<noteq> 0"
    "vc_next_view ?m mod zext (nd_n electing_state) = zext (nd_id electing_state)"
    "vc_next_view ?m < 2 ^ 32" by code_simp+
  have q: "comes_from_primary_of 1 (trunc (vc_next_view ?m)) changing_state" "nd_n changing_state \<noteq> 0"
    "nd_f changing_state = nd_f electing_state" "nd_view_changing changing_state"
    "zext (nd_view changing_state) < vc_next_view ?m" "min_seq demo_votes \<noteq> - 1" by code_simp+
  have "unat (2 * nd_f electing_state + 1) \<le> length demo_votes" by code_simp
  from view_change_completes [OF s V this O' q] O' show ?thesis by (simp add: m Let_def demo_env_def)
qed

text \<open>
  C25. If the loop that computes it ends (and the stable checkpoint is not the largest 64-bit number), the O set
  of a new view numbers exactly the gap between the latest stable checkpoint and
  the highest prepared sequence number, in increasing order, every pre-prepare in the new view.
  Its digest is that of a proof of the highest view among the proofs for its number, if that
  view is greater than 0, and the hash of the empty string otherwise; its request is empty.
\<close>

theorem new_view_set_correct:
  assumes "new_view_set E v V = Some O'" and "min_seq V \<noteq> - 1"
  shows "distinct (map pp_seq_num O') \<and> sorted (map pp_seq_num O') \<and>
    set (map pp_seq_num O') = {min_seq V <.. max_seq 0 V} \<and>
    (\<forall>pp \<in> set O'. pp_view pp = trunc v \<and> rq_operation (pp_req pp) = [] \<and>
       (if \<exists>p \<in> set (proofs V). pf_seq_num p = pp_seq_num pp \<and> pf_view p \<noteq> 0
        then \<exists>p \<in> set (proofs V). pf_seq_num p = pp_seq_num pp \<and> pf_digest p = pp_req_digest pp \<and>
               (\<forall>q \<in> set (proofs V). pf_seq_num q = pp_seq_num pp \<longrightarrow> pf_view q \<le> pf_view p)
        else pp_req_digest pp = env_hash_string E []))"
proof -
  from assms(1) obtain xs where xs: "seq_range (min_seq V) (max_seq 0 V) = Some xs"
    "O' = map (new_preprepare E v V) xs" by (auto simp: new_view_set_def)
  then have "max_seq 0 V \<noteq> - 1" by (auto simp: seq_range_def)
  with seq_range_Some [OF this assms(2)] xs(1) have range: "distinct xs" "sorted xs"
    "set xs = {min_seq V <.. max_seq 0 V}" by auto
  have seq: "pp_seq_num (new_preprepare E v V n) = n" for n
    by (simp add: new_preprepare_def Let_def split: option.split)
  then have "map pp_seq_num O' = xs" by (simp add: xs(2) comp_def)
  moreover have "pp_view pp = trunc v \<and> rq_operation (pp_req pp) = [] \<and>
       (if \<exists>p \<in> set (proofs V). pf_seq_num p = pp_seq_num pp \<and> pf_view p \<noteq> 0
        then \<exists>p \<in> set (proofs V). pf_seq_num p = pp_seq_num pp \<and> pf_digest p = pp_req_digest pp \<and>
               (\<forall>q \<in> set (proofs V). pf_seq_num q = pp_seq_num pp \<longrightarrow> pf_view q \<le> pf_view p)
        else pp_req_digest pp = env_hash_string E [])" if pp: "pp = new_preprepare E v V n" for pp n
  proof (cases "choose_proof n V")
    case None
    then show ?thesis
      using choose_proof_None [of n V] by (auto simp: pp seq) (simp_all add: new_preprepare_def Let_def)
  next
    case (Some d)
    from choose_proof_Some [OF Some] obtain p where p: "p \<in> set (proofs V)" "pf_seq_num p = n"
      "pf_digest p = d" "0 < pf_view p"
      "\<forall>q \<in> set (proofs V). pf_seq_num q = n \<longrightarrow> pf_view q \<le> pf_view p" by blast
    moreover have "pp_req_digest pp = d" "pp_view pp = trunc v" "rq_operation (pp_req pp) = []"
      by (simp_all add: pp new_preprepare_def Some Let_def)
    ultimately show ?thesis by (auto simp: pp seq)
  qed
  ultimately show ?thesis using range unfolding xs(2) by (simp only: set_map) blast
qed

theorem new_view_set_correct_witness:
  "set (map pp_seq_num (the (new_view_set demo_env 1 demo_votes))) = {1} \<and>
   pp_req_digest ` set (the (new_view_set demo_env 1 demo_votes)) \<subseteq> {env_hash_string demo_env []}"
proof -
  obtain O' where O': "new_view_set demo_env 1 demo_votes = Some O'"
    using demo_new_view by blast
  have min: "min_seq demo_votes \<noteq> - 1" by code_simp
  have "{min_seq demo_votes <.. max_seq 0 demo_votes} = {1}"
  proof -
    have "min_seq demo_votes = 0" "max_seq 0 demo_votes = 1" by code_simp+
    moreover have "{0 <.. 1 :: u64} = {1}" by (auto simp: word_le_nat_alt word_less_nat_alt word_unat_eq_iff)
    ultimately show ?thesis by simp
  qed
  moreover have "\<forall>p \<in> set (proofs demo_votes). pf_view p = 0"
    by (simp add: proofs_def demo_votes_def)
  ultimately show ?thesis using new_view_set_correct [OF O' min] by (auto simp: O')
qed

section \<open>Votes\<close>

text \<open>Events that can bring a request or a pre-prepare into the log.\<close>

fun proposes :: "event \<Rightarrow> bool" where
  "proposes (Deliver c (WRequest m)) = True"
| "proposes (Deliver c (WPrePrepare m)) = True"
| "proposes (Deliver c (WNewView m)) = True"
| "proposes ev = False"

text \<open>
  C20. Only requests, pre-prepares and new-view messages change what an entry of the log is about.
  Under any other event an entry stays, keeps its request, view and digest, loses no vote and never
  goes back to an earlier stage, except that a checkpoint message may erase entries up to what
  is the low watermark after it.
\<close>

theorem votes_accumulate:
  assumes "\<not> proposes ev" and "std_find (nd_reqlog s) n = Some e"
  shows "(\<exists>e'. std_find (nd_reqlog (step E ev s)) n = Some e' \<and> grows e e') \<or>
    (\<exists>c m. ev = Deliver c (WCheckpoint m)) \<and> n \<le> nd_h (step E ev s)"
proof (cases ev)
  case (Deliver c w)
  show ?thesis
  proof (cases w)
    case (WPrepare m)
    with Deliver log_grows_prepare [of s E m c] assms(2) show ?thesis by (auto simp: log_grows_def)
  next
    case (WCommit m)
    with Deliver log_grows_commit [of s E m] assms(2) show ?thesis by (auto simp: log_grows_def)
  next
    case (WCheckpoint m)
    with Deliver assms(2) show ?thesis
      by (auto simp: on_checkpoint_def stable_defs Let_def
          restrict_map_def)
  qed (use Deliver assms in simp_all)
qed (use assms in simp_all)

theorem votes_accumulate_witness:
  "\<exists>e'. std_find (nd_reqlog (step demo_env Timeout backup_state)) 1 = Some e' \<and>
     grows (entry demo_env 1 backup_state) e'"
proof -
  have "std_find (nd_reqlog backup_state) 1 = Some (entry demo_env 1 backup_state)" by code_simp
  from votes_accumulate [OF _ this, of Timeout demo_env] show ?thesis by simp
qed

section \<open>Requests\<close>

text \<open>
  C26. A primary inside its window gives a request that it neither has answered nor has in
  progress the next sequence number, files it with its hash as PRE-PREPARED and with its own
  prepare vote, offers it to every connected peer, and touches no other entry.
\<close>

theorem primary_orders_request:
  assumes "\<forall>info. nd_last_replies s (rq_client_id m) = Some info \<longrightarrow> cri_timestamp info \<noteq> rq_timestamp m"
    and "\<not> nd_view_changing s" and "nd_n s \<noteq> 0" and "is_primary s"
    and "nd_h s \<le> nd_seq_num s" and "nd_seq_num s < nd_H s" and "\<not> in_progress m s"
  shows "let t = on_request E m s; n = nd_seq_num s + 1 in
    nd_seq_num t = n \<and> nd_last_exec t = nd_last_exec s \<and>
    (\<exists>e. std_find (nd_reqlog t) n = Some e \<and> re_req e = m \<and> re_digest e = env_hash_request E m \<and>
       re_view e = nd_view s \<and> re_seq e = n \<and> re_stage e = PRE_PREPARED \<and> re_has_preprepare e \<and>
       nd_id s \<in> re_prepares e) \<and>
    (\<forall>k. k \<noteq> n \<longrightarrow> std_find (nd_reqlog t) k = std_find (nd_reqlog s) k) \<and>
    (\<forall>i c. (i, c) \<in> set (nd_peers s) \<longrightarrow> i \<noteq> nd_id s \<longrightarrow> env_conn_ok E c \<longrightarrow>
       Send c (WPrePrepare (PrePrepareMsg_ctor (env_stream E) (nd_view s) n
         (env_hash_request E m) m)) \<in> set (nd_out t))"
proof -
  let ?s = "emit [count_msg (WRequest m) False] s" and ?n = "nd_seq_num s + 1"
  have "on_request E m s = assign_request E m ?s"
    using assms by (intro on_request_orders) auto
  moreover have "\<forall>i c. (i, c) \<in> set (nd_peers s) \<longrightarrow> i \<noteq> nd_id s \<longrightarrow> env_conn_ok E c \<longrightarrow>
      Send c (WPrePrepare (PrePrepareMsg_ctor (env_stream E) (nd_view s) ?n
        (env_hash_request E m) m)) \<in> set (nd_out (assign_request E m ?s))"
    by (auto simp: assign_request_def Let_def)
  ultimately show ?thesis
    by (simp add: nd_reqlog_assign Let_def)
qed

definition primary_state :: "nat node" where
  "primary_state = fold (step demo_env) [AddReplica 1 1] (demo_node 0)"

theorem primary_orders_request_witness:
  "Send 1 (WPrePrepare (PrePrepareMsg_ctor mute_stream 0 1 3 (demo_request ''op'')))
     \<in> set (nd_out (on_request demo_env (demo_request ''op'') primary_state))"
proof -
  let ?m = "demo_request ''op''"
  have last: "nd_last_replies primary_state (rq_client_id ?m) = None" by code_simp
  have cond: "\<not> nd_view_changing primary_state" "nd_n primary_state \<noteq> 0" "is_primary primary_state"
    "nd_h primary_state \<le> nd_seq_num primary_state" "nd_seq_num primary_state < nd_H primary_state"
    "\<not> in_progress ?m primary_state"
    by code_simp+
  have vals: "nd_peers primary_state = [(1, 1)]" "nd_view primary_state = 0" "nd_id primary_state = 0"
    "nd_seq_num primary_state = 0" "env_hash_request demo_env ?m = 3"
    by code_simp+
  have env: "env_stream demo_env = mute_stream" "env_conn_ok demo_env 1" by (simp_all add: demo_env_def)
  have "\<forall>info. nd_last_replies primary_state (rq_client_id ?m) = Some info \<longrightarrow>
      cri_timestamp info \<noteq> rq_timestamp ?m" by (simp add: last)
  from primary_orders_request [OF this cond, of demo_env] vals env show ?thesis
    unfolding Let_def by (auto simp: vals env)
qed

text \<open>
  C27. After a request has been executed, a retransmission of it (same client, same timestamp) is
  answered from the cache with the result of that execution and changes nothing else: the
  service is not called again.
\<close>

theorem retransmission_answered:
  assumes "rq_client_id m = rq_client_id (re_req e)" and "rq_timestamp m = rq_timestamp (re_req e)"
  shows "let t = execute_entry E e s;
      result = snd (svc_execute (env_service E) (nd_service s) (rq_operation (re_req e)));
      reply = WReply (ReplyMsg_ctor (env_stream E) (nd_view s) (rq_timestamp m) (rq_client_id m)
        (nd_id s) result)
    in on_request E m t = emit (count_msg (WRequest m) False # count_msg reply True #
         via_sends E (map_of (nd_clients s) (rq_client_id m)) reply) t"
proof -
  have "nd_last_replies (execute_entry E e s) (rq_client_id m) =
      Some \<lparr>cri_timestamp = rq_timestamp m, cri_replica_id = nd_id s,
        cri_result = snd (svc_execute (env_service E) (nd_service s) (rq_operation (re_req e)))\<rparr>"
    using assms
    by (simp add: execute_entry_def send_to_client_def make_checkpoint_def Let_def split: prod.split)
  then show ?thesis
    by (simp add: on_request_def Let_def send_to_client_def send_via_def via_sends_def emit_emit)
qed

definition demo_entry :: ReqLogEntry where
  "demo_entry = (new_entry demo_env)\<lparr>re_req := demo_request ''op'', re_stage := COMMITTED\<rparr>"

theorem retransmission_answered_witness:
  "nd_service (on_request demo_env (demo_request ''op'') (execute_entry demo_env demo_entry primary_state)) =
     nd_service (execute_entry demo_env demo_entry primary_state)"
proof -
  have "rq_client_id (demo_request ''op'') = rq_client_id (re_req demo_entry)"
    "rq_timestamp (demo_request ''op'') = rq_timestamp (re_req demo_entry)" by (simp_all add: demo_entry_def)
  from retransmission_answered [OF this, of demo_env primary_state] show ?thesis by (simp only: Let_def emit_sel)
qed

section \<open>Views\<close>

fun small_view :: "event \<Rightarrow> bool" where
  "small_view (Deliver c (WViewChange m)) = (vc_next_view m < 2 ^ 32)"
| "small_view (Deliver c (WNewView m)) = (nv_next_view m < 2 ^ 32)"
| "small_view _ = True"

lemma zext_trunc: "v < 2 ^ 32 \<Longrightarrow> zext (trunc v) = v" for v :: u64
proof -
  assume "v < 2 ^ 32"
  then have "unat (zext (trunc v)) = unat v"
    by (simp add: word_less_nat_alt unsigned_ucast_eq unsigned_take_bit_eq take_bit_nat_eq_self)
  then show "zext (trunc v) = v" by (simp add: word_unat_eq_iff)
qed

lemma trunc_ge: "\<not> v < zext x \<Longrightarrow> v < 2 ^ 32 \<Longrightarrow> x \<le> trunc v"
proof -
  assume v: "\<not> v < zext x" "v < 2 ^ 32"
  have "unat (trunc v) = unat v" using zext_trunc [OF v(2)] unat_zext [of "trunc v"] by simp
  with v(1) show "x \<le> trunc v" by (simp add: word_le_nat_alt word_less_nat_alt not_less)
qed

lemma view_viewchange:
  assumes "vc_next_view m < 2 ^ 32"
  shows "nd_view s \<le> nd_view (on_viewchange E m s)"
  using trunc_ge [OF _ assms, of "nd_view s"]
  by (auto simp: viewchange_defs Let_def split: option.split)

text \<open>The view part of the next property.\<close>

lemma view_step:
  assumes "small_view ev"
  shows "nd_view s \<le> nd_view (step E ev s)"
proof (cases ev)
  case (Deliver c w)
  show ?thesis
  proof (cases w)
    case (WViewChange m)
    with assms Deliver show ?thesis by (simp add: view_viewchange)
  next
    case (WNewView m)
    with assms Deliver show ?thesis
      using trunc_ge [of "nv_next_view m" "nd_view s"]
      by (cases rule: on_newview_cases [of E m c s]) (auto simp: not_less)
  qed (simp_all add: Deliver on_preprepare_def)
next
  case Timeout
  have "zext x < 2 ^ 32" for x :: u32
    using unsigned_less [of x, where 'a = nat] by (simp add: word_less_nat_alt)
  then have "nd_view s \<le> nd_view (start_view_change E s)"
    unfolding start_view_change_def Let_def
    by (rule_tac order_trans [OF _ view_viewchange]) (simp_all add: ViewChangeMsg_ctor_def)
  with Timeout show ?thesis by simp
qed simp_all

lemma history_step: "\<exists>xs. history (step E ev s) = history s @ xs"
  using appends_step [of s E ev] by (auto simp: appends_def)

text \<open>
  C23. Nothing goes backwards: under every event the low watermark does not decrease, the executed
  operations stay a prefix of the later ones, and the view does not decrease, provided the
  64-bit view numbers of view-change and new-view messages fit the 32-bit view of the node
  (the constructors of both messages only produce such numbers).
\<close>

theorem progress_monotone:
  assumes "small_view ev"
  shows "nd_h s \<le> nd_h (step E ev s) \<and> nd_view s \<le> nd_view (step E ev s) \<and>
    (\<exists>xs. history (step E ev s) = history s @ xs)"
  using nd_h_mono view_step [OF assms] history_step by blast

theorem progress_monotone_witness:
  "nd_h backup_state \<le> nd_h (step demo_env Timeout backup_state) \<and>
   nd_view backup_state \<le> nd_view (step demo_env Timeout backup_state)"
  using progress_monotone [of Timeout backup_state demo_env] by simp

end
