(* ===== verification/Node_Progress.thy ===== *)
theory Node_Progress
  imports Scenarios
begin

text \<open>
  Progress in the normal case. A backup gets the pre-prepare for the sequence number it has to
  execute next. Whatever the order in which matching prepare messages (before or after it) and commit
  messages reach it, once they come from enough replicas it has prepared, committed and executed the
  entry and answered the client. This is the code's side of liveness; that the messages arrive is
  up to the network and the other replicas.
\<close>

section \<open>Waiting and done\<close>

text \<open>The parts of the state that the wait does not change.\<close>

definition stands :: "'svc node \<Rightarrow> 'svc node \<Rightarrow> bool" where
  "stands s t \<longleftrightarrow> nd_id t = nd_id s \<and> nd_n t = nd_n s \<and> nd_f t = nd_f s \<and> nd_view t = nd_view s \<and>
     nd_view_changing t = nd_view_changing s \<and> nd_h t = nd_h s \<and> nd_H t = nd_H s \<and>
     nd_last_exec t = nd_last_exec s \<and> nd_service t = nd_service s \<and> nd_clients t = nd_clients s \<and>
     nd_conn_to_peer t = nd_conn_to_peer s \<and> history t = history s"

definition same_request :: "ReqLogEntry \<Rightarrow> ReqLogEntry \<Rightarrow> bool" where
  "same_request e e' \<longleftrightarrow> re_view e' = re_view e \<and> re_seq e' = re_seq e \<and> re_digest e' = re_digest e \<and>
     re_req e' = re_req e \<and> re_has_preprepare e'"

definition waits :: "u64 \<Rightarrow> ReqLogEntry \<Rightarrow> u32 set \<Rightarrow> u32 set \<Rightarrow> 'svc node \<Rightarrow> 'svc node \<Rightarrow> bool" where
  "waits n e A B s t \<longleftrightarrow> stands s t \<and> (\<exists>e'. std_find (nd_reqlog t) n = Some e' \<and> same_request e e' \<and>
     A \<subseteq> re_prepares e' \<and> B \<subseteq> re_commits e' \<and>
     (re_stage e' = PRE_PREPARED \<and> card (re_prepares e') < unat (2 * nd_f s) \<or>
      re_stage e' = PREPARED \<and> nd_id s \<in> re_commits e' \<and> card (re_commits e') < unat (2 * nd_f s + 1)))"

text \<open>The operation is the next one of the history, and a client with a connection has its reply.\<close>

definition served :: "'svc env \<Rightarrow> ReqLogEntry \<Rightarrow> 'svc node \<Rightarrow> 'svc node \<Rightarrow> bool" where
  "served E e s t \<longleftrightarrow>
     (\<exists>xs. history t = history s @ \<lparr>ex_view = re_view e, ex_op = rq_operation (re_req e),
        ex_seq = re_seq e, ex_digest = re_digest e\<rparr> # xs) \<and>
     (\<forall>c. map_of (nd_clients s) (rq_client_id (re_req e)) = Some c \<longrightarrow> env_conn_ok E c \<longrightarrow>
        Send c (WReply (ReplyMsg_ctor (env_stream E) (nd_view s) (rq_timestamp (re_req e))
          (rq_client_id (re_req e)) (nd_id s)
          (snd (svc_execute (env_service E) (nd_service s) (rq_operation (re_req e)))))) \<in> set (nd_out t))"

lemma served_appends: "served E e s t \<Longrightarrow> appends t u \<Longrightarrow> served E e s u"
  by (auto simp: served_def appends_def)

lemma served_execute_entry:
  assumes "stands s t" and "same_request e e'"
  shows "served E e s (execute_entry E e' t)"
proof -
  let ?op = "rq_operation (re_req e)" and ?cid = "rq_client_id (re_req e)"
  let ?w = "WReply (ReplyMsg_ctor (env_stream E) (nd_view s) (rq_timestamp (re_req e)) ?cid (nd_id s)
    (snd (svc_execute (env_service E) (nd_service s) ?op)))"
  let ?t = "send_to_client E ?cid ?w (t\<lparr>nd_service :=
    fst (svc_execute (env_service E) (nd_service s) ?op)\<rparr>)"
  have "appends ?t (execute_entry E e' t)"
    using assms by (simp add: execute_entry_def stands_def same_request_def Let_def split: prod.split)
  then have out: "set (nd_out ?t) \<subseteq> set (nd_out (execute_entry E e' t))" by (auto simp: appends_def)
  have "Send c ?w \<in> set (nd_out ?t)" if "map_of (nd_clients s) ?cid = Some c" "env_conn_ok E c" for c
    using that assms(1) by (simp add: send_to_client_def send_via_def via_sends_def stands_def)
  with out assms show ?thesis
    unfolding served_def by (auto simp: stands_def same_request_def)
qed

lemma served_try_commit:
  assumes "stands s t" and "std_find (nd_reqlog t) n = Some e'" and "same_request e e'"
    and "n = nd_last_exec s + 1" and "commit_ready E n t"
  shows "served E e s (try_commit E n t)"
proof -
  let ?u = "update_entry E n (\<lambda>e. e\<lparr>re_stage := COMMITTED\<rparr>) (emit [committed_line e',
     Metric (ObservePhase ''commit'' (env_elapsed E ''commit'' n))] t)"
  let ?e = "e'\<lparr>re_stage := COMMITTED\<rparr>"
  have entry: "entry E n t = e'" by (simp add: entry_def std_ref_def assms(2))
  then have "try_commit E n t = try_execute E ?u"
    using assms(5) by (simp add: try_commit_def commit_ready_def committed_line_def Let_def)
  also have "\<dots> = execute_loop (length (nd_reqlog ?u)) E (execute_entry E ?e ?u)"
  proof -
    have "nd_last_exec ?u + 1 = n" using assms(1,4) by (simp add: stands_def)
    moreover have "std_find (nd_reqlog ?u) n = Some ?e" by (simp add: entry)
    ultimately show ?thesis by (simp only: try_execute_def execute_loop.simps option.case) simp
  qed
  finally have "appends (execute_entry E ?e ?u) (try_commit E n t)"
    by (simp add: appends_execute_loop)
  moreover have "served E e s (execute_entry E ?e ?u)"
    using assms(1,3) by (intro served_execute_entry) (auto simp: stands_def same_request_def committed_line_def)
  ultimately show ?thesis by (rule served_appends [rotated])
qed

section \<open>One message\<close>

lemma try_commit_waits:
  assumes "stands s t" and "std_find (nd_reqlog t) n = Some e'" and "same_request e e'"
    and "n = nd_last_exec s + 1" and "A \<subseteq> re_prepares e'" and "B \<subseteq> re_commits e'"
    and "re_stage e' = PREPARED" and "nd_id s \<in> re_commits e'"
  shows "served E e s (try_commit E n t) \<or> waits n e A B s (try_commit E n t)"
proof (cases "commit_ready E n t")
  case True
  with served_try_commit [OF assms(1-4)] show ?thesis by blast
next
  case False
  have "entry E n t = e'" by (simp add: entry_def std_ref_def assms(2))
  with False assms(7) have "try_commit E n t = t" "card (re_commits e') < unat (2 * nd_f s + 1)"
    using assms(1) by (auto simp: try_commit_def commit_ready_def stands_def Let_def)
  with assms show ?thesis by (auto simp: waits_def)
qed

lemma try_prepare_waits:
  assumes "stands s t" and "std_find (nd_reqlog t) n = Some e'" and "same_request e e'"
    and "n = nd_last_exec s + 1" and "A \<subseteq> re_prepares e'" and "B \<subseteq> re_commits e'"
    and "re_stage e' = PRE_PREPARED"
  shows "served E e s (try_prepare E n t) \<or> waits n e A B s (try_prepare E n t)"
proof (cases "prepare_ready E n t")
  case True
  let ?u = "prepared_state E n t"
  let ?e = "e'\<lparr>re_stage := PREPARED, re_commits := insert (nd_id t) (re_commits e')\<rparr>"
  have entry: "entry E n t = e'" by (simp add: entry_def std_ref_def assms(2))
  have "stands s ?u"
    using assms(1) by (auto simp: stands_def prepared_state_def Let_def)
  moreover have "std_find (nd_reqlog ?u) n = Some ?e" by (simp add: entry)
  moreover have "same_request e ?e" using assms(3) by (simp add: same_request_def)
  ultimately show ?thesis
    using try_commit_waits [of s ?u n ?e e A B E] assms True
    by (auto simp: try_prepare_eq stands_def)
next
  case False
  have "entry E n t = e'" by (simp add: entry_def std_ref_def assms(2))
  with False assms(3,7) have "try_prepare E n t = t" "card (re_prepares e') < unat (2 * nd_f s)"
    using assms(1) by (auto simp: try_prepare_eq prepare_ready_def stands_def same_request_def)
  with assms show ?thesis by (auto simp: waits_def)
qed

text \<open>A prepare or commit message that matches the entry \<open>e\<close> under \<open>n\<close>.\<close>

fun helps :: "u64 \<Rightarrow> ReqLogEntry \<Rightarrow> 'svc node \<Rightarrow> event \<Rightarrow> bool" where
  "helps n e s (Deliver c (WPrepare m)) = (pr_view m = nd_view s \<and> pr_seq_num m = n \<and>
     pr_req_digest m = re_digest e \<and> \<not> comes_from_primary c s)"
| "helps n e s (Deliver c (WCommit m)) = (cm_view m = nd_view s \<and> cm_seq_num m = n \<and>
     cm_req_digest m = re_digest e)"
| "helps n e s ev = False"

fun prepare_id :: "event \<Rightarrow> u32 set" where
  "prepare_id (Deliver c (WPrepare m)) = {pr_replica_id m}"
| "prepare_id ev = {}"

fun commit_id :: "event \<Rightarrow> u32 set" where
  "commit_id (Deliver c (WCommit m)) = {cm_replica_id m}"
| "commit_id ev = {}"

lemma waits_on_prepare:
  assumes "waits n e A B s t" and "helps n e s (Deliver c (WPrepare m))"
    and "n = nd_last_exec s + 1" and "\<not> nd_view_changing s" and "in_window n s" and "nd_n s \<noteq> 0"
  shows "served E e s (on_prepare E m c t) \<or> waits n e (insert (pr_replica_id m) A) B s (on_prepare E m c t)"
proof -
  from assms(1) obtain e' where st: "stands s t" and e': "std_find (nd_reqlog t) n = Some e'"
    "same_request e e'" "A \<subseteq> re_prepares e'" "B \<subseteq> re_commits e'"
    and stage: "re_stage e' = PRE_PREPARED \<and> card (re_prepares e') < unat (2 * nd_f s) \<or>
      re_stage e' = PREPARED \<and> nd_id s \<in> re_commits e' \<and> card (re_commits e') < unat (2 * nd_f s + 1)"
    by (auto simp: waits_def)
  let ?e = "e'\<lparr>re_prepares := insert (pr_replica_id m) (re_prepares e')\<rparr>"
  let ?t = "touch_entry E n (emit [count_msg (WPrepare m) False] t)"
  let ?u = "update_entry E n (\<lambda>e. e\<lparr>re_prepares := insert (pr_replica_id m) (re_prepares e)\<rparr>)
     (emit [Log (LogPrepareAccepted (re_digest e') (pr_req_digest m))] ?t)"
  have entry: "entry E n t = e'" by (simp add: entry_def std_ref_def e'(1))
  let ?r = "emit [count_msg (WPrepare m) False] t"
  have "\<not> comes_from_primary c ?r" "\<not> primary_undefined c ?r" "in_window n ?r" "\<not> nd_view_changing ?r"
    using assms(2,4,5,6) st
    by (auto simp: comes_from_primary_def primary_undefined_def primary_def in_window_def stands_def
        split: option.splits)
  then have on: "on_prepare E m c t = try_prepare E n ?u"
    using assms(2) st e'(2) entry by (simp add: on_prepare_def stands_def same_request_def Let_def)
  have u: "stands s ?u" "std_find (nd_reqlog ?u) n = Some ?e" "same_request e ?e"
    using st e'(2) by (simp_all add: stands_def same_request_def entry)
  show ?thesis
  proof (cases "re_stage e' = PRE_PREPARED")
    case True
    then show ?thesis
      unfolding on using e'(3,4) by (intro try_prepare_waits [OF u assms(3)]) auto
  next
    case False
    with u(2) have "try_prepare E n ?u = ?u"
      by (simp add: try_prepare_eq prepare_ready_def entry_def std_ref_def)
    with False stage u e'(3,4) show ?thesis unfolding on by (auto simp: waits_def)
  qed
qed

lemma waits_on_commit:
  assumes "waits n e A B s t" and "helps n e s (Deliver c (WCommit m))"
    and "n = nd_last_exec s + 1" and "\<not> nd_view_changing s" and "in_window n s"
  shows "served E e s (on_commit E m t) \<or> waits n e A (insert (cm_replica_id m) B) s (on_commit E m t)"
proof -
  from assms(1) obtain e' where st: "stands s t" and e': "std_find (nd_reqlog t) n = Some e'"
    "same_request e e'" "A \<subseteq> re_prepares e'" "B \<subseteq> re_commits e'"
    and stage: "re_stage e' = PRE_PREPARED \<and> card (re_prepares e') < unat (2 * nd_f s) \<or>
      re_stage e' = PREPARED \<and> nd_id s \<in> re_commits e' \<and> card (re_commits e') < unat (2 * nd_f s + 1)"
    by (auto simp: waits_def)
  let ?e = "e'\<lparr>re_commits := insert (cm_replica_id m) (re_commits e')\<rparr>"
  let ?t = "touch_entry E n (emit [count_msg (WCommit m) False] t)"
  let ?u = "update_entry E n (\<lambda>e. e\<lparr>re_commits := insert (cm_replica_id m) (re_commits e)\<rparr>) ?t"
  have entry: "entry E n t = e'" by (simp add: entry_def std_ref_def e'(1))
  have "in_window n (emit [count_msg (WCommit m) False] t)" "\<not> nd_view_changing t"
    using assms(4,5) st by (auto simp: in_window_def stands_def)
  then have on: "on_commit E m t = try_commit E n ?u"
    using assms(2) st e'(2) entry by (simp add: on_commit_def stands_def same_request_def Let_def)
  have u: "stands s ?u" "std_find (nd_reqlog ?u) n = Some ?e" "same_request e ?e"
    using st e'(2) by (simp_all add: stands_def same_request_def entry)
  show ?thesis
  proof (cases "re_stage e' = PREPARED")
    case True
    with stage show ?thesis
      unfolding on using e'(3,4) by (intro try_commit_waits [OF u assms(3)]) auto
  next
    case False
    with u(2) have "try_commit E n ?u = ?u"
      by (simp add: try_commit_def entry_def std_ref_def Let_def)
    with False stage u e'(3,4) show ?thesis unfolding on by (auto simp: waits_def)
  qed
qed

lemma waits_short:
  assumes "waits n e A B s t"
  shows "card A < unat (2 * nd_f s) \<or> card (insert (nd_id s) B) < unat (2 * nd_f s + 1)"
proof -
  from assms obtain e' :: ReqLogEntry where e': "A \<subseteq> re_prepares e'" "B \<subseteq> re_commits e'"
    and few: "card (re_prepares e') < unat (2 * nd_f s) \<or>
      nd_id s \<in> re_commits e' \<and> card (re_commits e') < unat (2 * nd_f s + 1)"
    unfolding waits_def by blast
  from few show ?thesis
  proof
    assume "card (re_prepares e') < unat (2 * nd_f s)"
    with card_mono [OF _ e'(1)] show ?thesis by (simp add: le_less_trans)
  next
    assume c: "nd_id s \<in> re_commits e' \<and> card (re_commits e') < unat (2 * nd_f s + 1)"
    with e'(2) have "card (insert (nd_id s) B) \<le> card (re_commits e')" by (intro card_mono) auto
    with c show ?thesis by linarith
  qed
qed

section \<open>Any order of the messages\<close>

lemma messages_serve:
  assumes "list_all (helps n e s) evs" and "waits n e A B s t"
    and "n = nd_last_exec s + 1" and "\<not> nd_view_changing s" and "in_window n s" and "nd_n s \<noteq> 0"
  shows "served E e s (fold (step E) evs t) \<or>
    waits n e (A \<union> \<Union> (prepare_id ` set evs)) (B \<union> \<Union> (commit_id ` set evs)) s (fold (step E) evs t)"
  using assms(1,2)
proof (induction evs arbitrary: A B t)
  case (Cons ev evs)
  have "served E e s (step E ev t) \<or> waits n e (A \<union> prepare_id ev) (B \<union> commit_id ev) s (step E ev t)"
  proof (cases "(n, e, s, ev)" rule: helps.cases)
    case (1 n' e' s' c m)
    then show ?thesis using waits_on_prepare [OF Cons.prems(2) _ assms(3-6)] Cons.prems(1) by simp
  next
    case (2 n' e' s' c m)
    then show ?thesis using waits_on_commit [OF Cons.prems(2) _ assms(3-5)] Cons.prems(1) by simp
  qed (use Cons.prems(1) in auto)
  then show ?case
  proof
    assume "served E e s (step E ev t)"
    moreover have "appends (step E ev t) (fold (step E) evs (step E ev t))"
    proof (induction evs rule: rev_induct)
      case (snoc ev' evs)
      then show ?case using appends_trans appends_step by fastforce
    qed simp
    ultimately show ?thesis by (auto intro: served_appends)
  next
    assume "waits n e (A \<union> prepare_id ev) (B \<union> commit_id ev) s (step E ev t)"
    from Cons.IH [OF _ this] Cons.prems(1) show ?thesis by (simp add: Un_assoc)
  qed
qed simp

text \<open>A replica that waits, and gets enough votes, has served the request.\<close>

lemma enough_votes_serve:
  assumes "list_all (helps n e s) evs" and "waits n e A B s t"
    and "n = nd_last_exec s + 1" and "\<not> nd_view_changing s" and "in_window n s" and "nd_n s \<noteq> 0"
    and "unat (2 * nd_f s) \<le> card (A \<union> \<Union> (prepare_id ` set evs))"
    and "unat (2 * nd_f s + 1) \<le> card (insert (nd_id s) (B \<union> \<Union> (commit_id ` set evs)))"
  shows "served E e s (fold (step E) evs t)"
  using messages_serve [OF assms(1-6), of E]
proof
  assume "waits n e (A \<union> \<Union> (prepare_id ` set evs)) (B \<union> \<Union> (commit_id ` set evs)) s (fold (step E) evs t)"
  from waits_short [OF this] assms(7,8) show ?thesis by linarith
qed

lemma served_fold: "served E e s t \<Longrightarrow> served E e s (fold (step E) evs t)"
proof (induction evs arbitrary: t)
  case (Cons ev evs)
  from served_appends [OF Cons.prems appends_step] show ?case by (simp add: Cons.IH)
qed simp

section \<open>From the pre-prepare to the reply\<close>

text \<open>The entry that a pre-prepare makes of the one that is there, or of a new one.\<close>

definition accepted_entry :: "'svc env \<Rightarrow> PrePrepareMsg \<Rightarrow> 'svc node \<Rightarrow> ReqLogEntry" where
  "accepted_entry E m s = (entry E (pp_seq_num m) s)\<lparr>re_view := pp_view m, re_seq := pp_seq_num m,
     re_digest := pp_req_digest m, re_req := pp_req m, re_has_preprepare := True,
     re_stage := PRE_PREPARED, re_prepares := insert (nd_id s) (re_prepares (entry E (pp_seq_num m) s))\<rparr>"

lemma find_accepted:
  "std_find (nd_reqlog (accepted_state E m s)) (pp_seq_num m) = Some (accepted_entry E m s)"
  by (simp add: accepted_state_def accepted_entry_def Let_def)

lemma stands_accepted: "stands s t \<Longrightarrow> stands s (accepted_state E m t)"
  by (auto simp: stands_def accepted_state_def Let_def)

lemma preprepare_serves_or_waits:
  assumes "pp_seq_num m = nd_last_exec s + 1" and "pp_view m = nd_view s" and "\<not> nd_view_changing s"
    and "in_window (pp_seq_num m) s" and "nd_n s \<noteq> 0" and "comes_from_primary c s"
    and "re_has_preprepare (entry E (pp_seq_num m) s) \<longrightarrow> re_digest (entry E (pp_seq_num m) s) = pp_req_digest m"
  shows "served E (accepted_entry E m s) s (on_preprepare E m c s) \<or>
    waits (pp_seq_num m) (accepted_entry E m s) (re_prepares (accepted_entry E m s))
      (re_commits (accepted_entry E m s)) s (on_preprepare E m c s)"
proof -
  let ?t = "emit [count_msg (WPrePrepare m) False] s" and ?e = "accepted_entry E m s"
  have "comes_from_primary c ?t" "\<not> primary_undefined c ?t" "in_window (pp_seq_num m) ?t"
    using assms(4-6) by (auto simp: comes_from_primary_def primary_undefined_def primary_def in_window_def
        split: option.splits)
  then have on: "on_preprepare E m c s = try_prepare E (pp_seq_num m) (accepted_state E m ?t)"
    using assms(2,3,7)
    by (auto simp: on_preprepare_def on_preprepare_impl_def accept_preprepare_eq entry_def Let_def)
  have e: "accepted_entry E m ?t = ?e" by (simp add: accepted_entry_def entry_def)
  show ?thesis unfolding on
  proof (rule try_prepare_waits)
    show "stands s (accepted_state E m ?t)" by (intro stands_accepted) (simp add: stands_def)
    show "std_find (nd_reqlog (accepted_state E m ?t)) (pp_seq_num m) = Some ?e"
      by (simp only: find_accepted e)
    show "same_request ?e ?e" "re_stage ?e = PRE_PREPARED"
      by (simp_all add: same_request_def accepted_entry_def)
  qed (use assms(1) in simp_all)
qed

text \<open>
  C9. A backup at work in its view gets from the primary the pre-prepare for the sequence number after
  its last executed one, inside its window, and holds no pre-prepare of another digest for it. With the
  prepare messages it already has for the number, however many, and with matching prepare messages
  (not over a connection of the primary) and commit messages that come later, in any order, it then has
  the prepare votes of \<open>2f\<close> replicas and the commit votes of \<open>2f + 1\<close>, its own votes counted. Then it
  has executed the operation of the pre-prepare next, and sent the result to the client if it has
  a connection to it.
\<close>

theorem normal_case_executes:
  assumes "pp_seq_num m = nd_last_exec s + 1" and "pp_view m = nd_view s" and "\<not> nd_view_changing s"
    and "in_window (pp_seq_num m) s" and "nd_n s \<noteq> 0" and "comes_from_primary c s"
    and "re_has_preprepare (entry E (pp_seq_num m) s) \<longrightarrow> re_digest (entry E (pp_seq_num m) s) = pp_req_digest m"
    and "list_all (helps (pp_seq_num m) (accepted_entry E m s) s) evs"
    and "unat (2 * nd_f s) \<le>
      card (insert (nd_id s) (re_prepares (entry E (pp_seq_num m) s) \<union> \<Union> (prepare_id ` set evs)))"
    and "unat (2 * nd_f s + 1) \<le>
      card (insert (nd_id s) (re_commits (entry E (pp_seq_num m) s) \<union> \<Union> (commit_id ` set evs)))"
  shows "served E (accepted_entry E m s) s (fold (step E) (Deliver c (WPrePrepare m) # evs) s)"
  using preprepare_serves_or_waits [OF assms(1-7)]
proof
  assume "served E (accepted_entry E m s) s (on_preprepare E m c s)"
  from served_fold [OF this] show ?thesis by simp
next
  assume "waits (pp_seq_num m) (accepted_entry E m s) (re_prepares (accepted_entry E m s))
      (re_commits (accepted_entry E m s)) s (on_preprepare E m c s)"
  from enough_votes_serve [OF assms(8) this assms(1,3-5), of E] assms(9,10) show ?thesis
    by (simp add: accepted_entry_def)
qed

text \<open>
  Replica 1 of four has the prepare messages of the replicas 2 and 3 when the pre-prepare arrives, so
  that it prepares at once; commit messages of two replicas follow.
\<close>

definition early_prepares :: "nat node" where
  "early_prepares = fold (step demo_env) [AddClient 7 7, hello 0, hello 2, hello 3, prepare_from 3 3, prepare_from 2 3]
     (demo_node 1)"

definition late_preprepare :: PrePrepareMsg where
  "late_preprepare = PrePrepareMsg_ctor mute_stream 0 1 3 (demo_request ''op'')"

theorem normal_case_executes_witness:
  "served demo_env (accepted_entry demo_env late_preprepare early_prepares) early_prepares
     (fold (step demo_env) [Deliver 0 (WPrePrepare late_preprepare), commit_from 0 3, commit_from 3 3]
        early_prepares)"
proof (rule normal_case_executes)
  show "pp_seq_num late_preprepare = nd_last_exec early_prepares + 1" by code_simp
  show "pp_view late_preprepare = nd_view early_prepares" by code_simp
  show "\<not> nd_view_changing early_prepares" by code_simp
  show "in_window (pp_seq_num late_preprepare) early_prepares" by code_simp
  show "nd_n early_prepares \<noteq> 0" by code_simp
  show "comes_from_primary 0 early_prepares" by code_simp
  show "re_has_preprepare (entry demo_env (pp_seq_num late_preprepare) early_prepares) \<longrightarrow>
      re_digest (entry demo_env (pp_seq_num late_preprepare) early_prepares) = pp_req_digest late_preprepare"
    by code_simp
  show "list_all (helps (pp_seq_num late_preprepare) (accepted_entry demo_env late_preprepare early_prepares)
      early_prepares) [commit_from 0 3, commit_from 3 3]" by code_simp
  show "unat (2 * nd_f early_prepares) \<le> card (insert (nd_id early_prepares)
      (re_prepares (entry demo_env (pp_seq_num late_preprepare) early_prepares) \<union>
       \<Union> (prepare_id ` set [commit_from 0 3, commit_from 3 3])))" by code_simp
  show "unat (2 * nd_f early_prepares + 1) \<le> card (insert (nd_id early_prepares)
      (re_commits (entry demo_env (pp_seq_num late_preprepare) early_prepares) \<union>
       \<Union> (commit_id ` set [commit_from 0 3, commit_from 3 3])))" by code_simp
qed

section \<open>From the request to the reply of the primary\<close>

text \<open>The entry of the primary for a request that it orders.\<close>

definition ordered_entry :: "'svc env \<Rightarrow> RequestMsg \<Rightarrow> 'svc node \<Rightarrow> ReqLogEntry" where
  "ordered_entry E m s = (entry E (nd_seq_num s + 1) s)\<lparr>re_view := nd_view s, re_seq := nd_seq_num s + 1,
     re_digest := env_hash_request E m, re_req := m, re_has_preprepare := True,
     re_stage := PRE_PREPARED, re_prepares := insert (nd_id s) (re_prepares (entry E (nd_seq_num s + 1) s))\<rparr>"

lemma next_in_window: "nd_h s \<le> nd_seq_num s \<Longrightarrow> nd_seq_num s < nd_H s \<Longrightarrow> in_window (nd_seq_num s + 1) s"
proof -
  assume le: "nd_h s \<le> nd_seq_num s" and less: "nd_seq_num s < nd_H s"
  then have "nd_h s \<le> nd_seq_num s + 1" using u64_succ_gt [OF less] by (simp add: order.strict_implies_order order_trans)
  with inc_le [OF less] show ?thesis by (simp add: in_window_def not_less)
qed

lemma request_waits:
  assumes "\<forall>info. nd_last_replies s (rq_client_id m) = Some info \<longrightarrow> cri_timestamp info \<noteq> rq_timestamp m"
    and "\<not> nd_view_changing s" and "nd_n s \<noteq> 0" and "is_primary s"
    and "nd_h s \<le> nd_seq_num s" and "nd_seq_num s < nd_H s" and "\<not> in_progress m s"
    and "card (re_prepares (ordered_entry E m s)) < unat (2 * nd_f s)"
  shows "waits (nd_seq_num s + 1) (ordered_entry E m s) (re_prepares (ordered_entry E m s))
    (re_commits (ordered_entry E m s)) s (on_request E m s)"
proof -
  let ?t = "emit [count_msg (WRequest m) False] s"
  have "on_request E m s = assign_request E m ?t"
    using assms by (intro on_request_orders) auto
  moreover have "std_find (nd_reqlog (assign_request E m ?t)) (nd_seq_num s + 1) = Some (ordered_entry E m s)"
    by (simp add: assign_request_def ordered_entry_def entry_def Let_def)
  moreover have "stands s (assign_request E m ?t)"
    by (simp add: stands_def assign_request_def Let_def)
  ultimately show ?thesis
    using assms(8) by (auto simp: waits_def same_request_def ordered_entry_def)
qed

text \<open>
  C10. The same for the primary: it is at work, all it has ordered is executed, and a request arrives that it
  has neither answered nor in progress, while its window is not full and the number to come does not yet have
  the prepare votes of \<open>2f\<close> replicas, its own one counted. If matching prepare messages (not over a connection
  that claims the id of the primary) and commit messages follow, in any order, until with its own votes there are prepare
  votes of \<open>2f\<close> replicas and commit votes of \<open>2f + 1\<close>, then it has executed the request and sent the
  result to the client if it has a connection to it.
\<close>

theorem primary_executes_request:
  assumes "\<forall>info. nd_last_replies s (rq_client_id m) = Some info \<longrightarrow> cri_timestamp info \<noteq> rq_timestamp m"
    and "\<not> nd_view_changing s" and "nd_n s \<noteq> 0" and "is_primary s"
    and "nd_h s \<le> nd_seq_num s" and "nd_seq_num s < nd_H s" and "\<not> in_progress m s"
    and "nd_seq_num s = nd_last_exec s"
    and "card (insert (nd_id s) (re_prepares (entry E (nd_seq_num s + 1) s))) < unat (2 * nd_f s)"
    and "list_all (helps (nd_seq_num s + 1) (ordered_entry E m s) s) evs"
    and "unat (2 * nd_f s) \<le>
      card (insert (nd_id s) (re_prepares (entry E (nd_seq_num s + 1) s) \<union> \<Union> (prepare_id ` set evs)))"
    and "unat (2 * nd_f s + 1) \<le>
      card (insert (nd_id s) (re_commits (entry E (nd_seq_num s + 1) s) \<union> \<Union> (commit_id ` set evs)))"
  shows "served E (ordered_entry E m s) s (fold (step E) (Deliver c (WRequest m) # evs) s)"
proof -
  have "waits (nd_seq_num s + 1) (ordered_entry E m s) (re_prepares (ordered_entry E m s))
      (re_commits (ordered_entry E m s)) s (on_request E m s)"
    using assms(9) by (intro request_waits assms(1-7)) (simp add: ordered_entry_def)
  moreover have "in_window (nd_seq_num s + 1) s"
    using assms(5,6) by (intro next_in_window)
  ultimately show ?thesis
    using enough_votes_serve [OF assms(10) _ _ assms(2) _ assms(3), of _ _ _ E] assms(8,11,12)
    by (simp add: ordered_entry_def)
qed

text \<open>The primary of four replicas; a commit message overtakes the prepare messages.\<close>

definition asked_primary :: "nat node" where
  "asked_primary = fold (step demo_env) [AddClient 7 7, AddReplica 1 1, hello 1, hello 2] (demo_node 0)"

theorem primary_executes_request_witness:
  "served demo_env (ordered_entry demo_env (demo_request ''op'') asked_primary) asked_primary
     (fold (step demo_env) [ask ''op'', commit_from 2 3, prepare_from 1 3, prepare_from 2 3, commit_from 1 3] asked_primary)"
  unfolding ask_def
proof (rule primary_executes_request)
  have "nd_last_replies asked_primary (rq_client_id (demo_request ''op'')) = None" by code_simp
  then show "\<forall>info. nd_last_replies asked_primary (rq_client_id (demo_request ''op'')) = Some info \<longrightarrow>
      cri_timestamp info \<noteq> rq_timestamp (demo_request ''op'')" by simp
  show "\<not> nd_view_changing asked_primary" by code_simp
  show "nd_n asked_primary \<noteq> 0" by code_simp
  show "is_primary asked_primary" by code_simp
  show "nd_h asked_primary \<le> nd_seq_num asked_primary" by code_simp
  show "nd_seq_num asked_primary < nd_H asked_primary" by code_simp
  show "\<not> in_progress (demo_request ''op'') asked_primary" by code_simp
  show "nd_seq_num asked_primary = nd_last_exec asked_primary" by code_simp
  show "card (insert (nd_id asked_primary) (re_prepares (entry demo_env (nd_seq_num asked_primary + 1) asked_primary)))
      < unat (2 * nd_f asked_primary)" by code_simp
  show "list_all (helps (nd_seq_num asked_primary + 1) (ordered_entry demo_env (demo_request ''op'') asked_primary)
      asked_primary) [commit_from 2 3, prepare_from 1 3, prepare_from 2 3, commit_from 1 3]" by code_simp
  show "unat (2 * nd_f asked_primary) \<le> card (insert (nd_id asked_primary)
      (re_prepares (entry demo_env (nd_seq_num asked_primary + 1) asked_primary) \<union>
       \<Union> (prepare_id ` set [commit_from 2 3, prepare_from 1 3, prepare_from 2 3, commit_from 1 3])))" by code_simp
  show "unat (2 * nd_f asked_primary + 1) \<le> card (insert (nd_id asked_primary)
      (re_commits (entry demo_env (nd_seq_num asked_primary + 1) asked_primary) \<union>
       \<Union> (commit_id ` set [commit_from 2 3, prepare_from 1 3, prepare_from 2 3, commit_from 1 3])))" by code_simp
qed

end
