(* ===== verification/Node_Replies.thy ===== *)
theory Node_Replies
  imports Node_Handlers
begin

text \<open>
  What a replica tells its clients. A reply carries the id of the replica that sends it; the client
  and the timestamp in it are those of a request that had come to the replica and whose
  operation it has executed, and the result is what the service returned for the operation then, in the
  state that the operations before it had produced. The same holds of the results it
  keeps for retransmissions.
\<close>

text \<open>The operation at position \<open>j\<close> of a history and the result of its execution there.\<close>

definition result_at :: "'svc service \<Rightarrow> 'svc \<Rightarrow> string list \<Rightarrow> nat \<Rightarrow> string" where
  "result_at S svc ops j = snd (svc_execute S (run_ops S svc (take j ops)) (ops ! j))"

definition answered :: "'svc service \<Rightarrow> 'svc \<Rightarrow> RequestMsg set \<Rightarrow> string list \<Rightarrow> u32 \<Rightarrow> u64 \<Rightarrow> string \<Rightarrow> bool" where
  "answered S svc R ops cid ts res \<longleftrightarrow> (\<exists>q \<in> R. \<exists>j < length ops. rq_client_id q = cid \<and>
     rq_timestamp q = ts \<and> ops ! j = rq_operation q \<and> res = result_at S svc ops j)"

lemma result_at_append: "j < length ops \<Longrightarrow> result_at S svc (ops @ ops') j = result_at S svc ops j"
  by (simp add: result_at_def nth_append)

lemma result_at_cong:
  assumes "take (Suc j) ops = take (Suc j) ops'" and "j < length ops" and "j < length ops'"
  shows "result_at S svc ops j = result_at S svc ops' j \<and> ops ! j = ops' ! j"
proof -
  have "take j ops = take j ops'" "ops ! j = ops' ! j"
    using assms by (simp_all add: take_Suc_conv_app_nth)
  then show ?thesis by (simp add: result_at_def)
qed

lemma answered_append: "answered S svc R ops cid ts res \<Longrightarrow> answered S svc R (ops @ ops') cid ts res"
  unfolding answered_def by (metis length_append nth_append result_at_append trans_less_add1)

lemma answered_mono: "answered S svc R ops cid ts res \<Longrightarrow> R \<subseteq> R' \<Longrightarrow> answered S svc R' ops cid ts res"
  unfolding answered_def by blast

lemma answered_now:
  assumes "q \<in> R"
  shows "answered S svc R (ops @ [rq_operation q]) (rq_client_id q) (rq_timestamp q)
    (snd (svc_execute S (run_ops S svc ops) (rq_operation q)))"
  unfolding answered_def
  by (intro bexI [OF _ assms] exI [of _ "length ops"]) (simp add: result_at_def)

definition answers_ok :: "'svc service \<Rightarrow> 'svc \<Rightarrow> RequestMsg set \<Rightarrow> 'svc node \<Rightarrow> bool" where
  "answers_ok S svc R s \<longleftrightarrow> log_sourced R (nd_reqlog s) \<and> nd_service s = run_ops S svc (operations s) \<and>
     (\<forall>c m. Send c (WReply m) \<in> set (nd_out s) \<longrightarrow> rp_replica_id m = nd_id s \<and>
        answered S svc R (operations s) (rp_client_id m) (rp_timestamp m) (rp_result m)) \<and>
     (\<forall>i info. nd_last_replies s i = Some info \<longrightarrow>
        answered S svc R (operations s) i (cri_timestamp info) (cri_result info))"

lemma answers_ok_mono: "answers_ok S svc R s \<Longrightarrow> R \<subseteq> R' \<Longrightarrow> answers_ok S svc R' s"
  unfolding answers_ok_def by (meson answered_mono log_sourced_mono)

lemma answers_ok_emit:
  assumes "answers_ok S svc R s" and "\<forall>a \<in> set acts. harmless a"
  shows "answers_ok S svc R (emit acts s)"
  using assms execs_harmless [OF assms(2)] by (auto simp: answers_ok_def harmless_def)

text \<open>A reply to a client: the own id, and a result of the history.\<close>

lemma answers_ok_reply:
  assumes "answers_ok S svc R s" and "answered S svc R (operations s) cid ts res"
  shows "answers_ok S svc R (send_to_client E i (WReply (ReplyMsg_ctor D v ts cid (nd_id s) res)) s)"
  using assms by (auto simp: answers_ok_def send_to_client_def send_via_def via_sends_def split: option.splits)

lemma answers_ok_execute_entry:
  assumes "answers_ok (env_service E) svc R s" and "re_req e \<in> R"
  shows "answers_ok (env_service E) svc R (execute_entry E e s)"
proof -
  let ?S = "env_service E" and ?q = "re_req e" and ?t = "execute_entry E e s"
  let ?res = "snd (svc_execute ?S (nd_service s) (rq_operation ?q))"
  have ops: "operations ?t = operations s @ [rq_operation ?q]" by simp
  have now: "answered ?S svc R (operations ?t) (rq_client_id ?q) (rq_timestamp ?q) ?res"
    using answered_now [OF assms(2), of ?S svc "operations s"] assms(1) unfolding ops answers_ok_def by simp
  have old: "answered ?S svc R (operations s) cid ts res \<Longrightarrow> answered ?S svc R (operations ?t) cid ts res"
    for cid ts res unfolding ops by (rule answered_append)
  have svc: "nd_service ?t = run_ops ?S svc (operations ?t)" and log: "log_sourced R (nd_reqlog ?t)"
    and id: "nd_id ?t = nd_id s"
    using assms by (simp_all add: answers_ok_def)
  have "rp_replica_id m = nd_id s \<and> rp_client_id m = rq_client_id ?q \<and>
      rp_timestamp m = rq_timestamp ?q \<and> rp_result m = ?res"
    if "Send c (WReply m) \<in> set (nd_out ?t)" "Send c (WReply m) \<notin> set (nd_out s)" for c m
    using that
    by (auto simp: execute_entry_def send_to_client_def make_checkpoint_def timer_defs via_sends_def Let_def
        split: prod.splits if_splits option.splits)
  with now old assms(1) have sent: "rp_replica_id m = nd_id s \<and>
      answered ?S svc R (operations ?t) (rp_client_id m) (rp_timestamp m) (rp_result m)"
    if "Send c (WReply m) \<in> set (nd_out ?t)" for c m
    using that unfolding answers_ok_def by metis
  have "i = rq_client_id ?q \<and> cri_timestamp info = rq_timestamp ?q \<and> cri_result info = ?res"
    if "nd_last_replies ?t i = Some info" "nd_last_replies s i \<noteq> Some info" for i info
    using that
    by (auto simp: execute_entry_def send_to_client_def make_checkpoint_def Let_def
        split: prod.splits if_splits)
  with now old assms(1) have "answered ?S svc R (operations ?t) i (cri_timestamp info) (cri_result info)"
    if "nd_last_replies ?t i = Some info" for i info
    using that unfolding answers_ok_def by metis
  with sent svc log show ?thesis unfolding answers_ok_def id by blast
qed

lemma answers_ok_checkpoint:
  assumes "answers_ok S svc R s"
  shows "answers_ok S svc R (on_checkpoint m s)"
proof -
  have same: "Send c (WReply r) \<in> set (nd_out s)" if "Send c (WReply r) \<in> set (nd_out (on_checkpoint m s))" for c r
    using that
    by (auto simp: on_checkpoint_def stable_defs Let_def
        split: if_splits)
  have "log_sourced R (nd_reqlog (on_checkpoint m s))"
    using assms by (simp add: on_checkpoint_def stable_defs
        answers_ok_def Let_def)
  moreover have "history (on_checkpoint m s) = history s" using idle_checkpoint [of s m] by (simp add: idle_def)
  ultimately show ?thesis using assms unfolding answers_ok_def by (auto dest!: same)
qed

interpretation replies: handler_invariant E "answers_ok (env_service E) svc R" "\<lambda>_. True" R for E svc R
proof unfold_locales
  fix s :: "'a node" and acts
  assume "answers_ok (env_service E) svc R s" "\<forall>a \<in> set acts. harmless a"
  then show "answers_ok (env_service E) svc R (emit acts s)" by (rule answers_ok_emit)
next
  fix s :: "'a node" and rm :: RequestMsg and info
  assume "answers_ok (env_service E) svc R s" "nd_last_replies s (rq_client_id rm) = Some info"
    "cri_timestamp info = rq_timestamp rm"
  then show "answers_ok (env_service E) svc R (send_to_client E (rq_client_id rm) (WReply (ReplyMsg_ctor
      (env_stream E) (nd_view s) (rq_timestamp rm) (rq_client_id rm) (nd_id s) (cri_result info))) s)"
    by (intro answers_ok_reply) (simp_all add: answers_ok_def, metis)
qed (simp_all add: answers_ok_execute_entry answers_ok_checkpoint, simp_all add: answers_ok_def)

definition requests :: "event list \<Rightarrow> RequestMsg set" where
  "requests evs = (\<Union>ev \<in> set evs. requests_in ev)"

lemma answers_ok_trace:
  assumes "trace E (Node_ctor E i cfg svc b) evs s"
  shows "answers_ok (env_service E) (svc_initialize (env_service E) svc) (requests evs) s"
  using assms
proof (induction rule: trace.induct)
  case trace_refl
  show ?case by (simp add: answers_ok_def Node_ctor_def)
next
  case (trace_step evs t E' ev)
  have "answers_ok (env_service E) (svc_initialize (env_service E) svc) (requests (evs @ [ev])) t"
    by (rule answers_ok_mono [OF trace_step.IH]) (auto simp: requests_def)
  moreover have "requests_in ev \<subseteq> requests (evs @ [ev])" by (auto simp: requests_def)
  ultimately show ?case
    using replies.kept [of E' _ "requests (evs @ [ev])" t ev]
    by (simp add: same_env_sel [OF trace_step.hyps(2)])
qed

end
