(* ===== verification/Client.thy ===== *)
theory Client
  imports Messages Metrics
begin

text \<open>
  The client of \<open>include/pbft/client.hh\<close> and \<open>src/client.cc\<close>. A promise is kept in \<open>cl_done\<close> once
  \<open>set_value\<close> is called on it; a blocked call of \<open>invoke\<close> is a record of the request and of the
  time it waits next, and its loop is the event \<open>ClExpired\<close>, which happens when a wait of a call
  ends before the promise is set. The mutex makes \<open>on_reply\<close> and \<open>invoke_async\<close> atomic; \<open>invoke\<close>
  does not take it, and the model treats its first part as atomic too.
\<close>

section \<open>State\<close>

type_synonym client_conn = nat

record ClientTLSConfig =
  ctls_cert_file :: string
  ctls_key_file :: string

record ClientConfig =
  ccfg_num_replicas :: u32
  ccfg_request_timeout :: u32
  ccfg_tls_config :: "ClientTLSConfig option"

record InflightRequest =
  if_timestamp :: u64
  if_seen_replicas :: "u32 set"
  if_result_counts :: "(string \<times> nat) list"

datatype client_action =
    ClSend client_conn RequestMsg
  | ClMetric metric_call
  | ClTrap

record client =
  cl_id :: u32
  cl_n :: u32
  cl_f :: u32
  cl_timeout :: u32
  cl_current_view :: u32
  cl_timestamp :: u64
  cl_inflight :: "u64 \<rightharpoonup> InflightRequest"
  cl_replicas :: "(u32 \<times> client_conn) list"
  cl_done :: "(u64 \<times> string) list"
  cl_out :: "client_action list"

text \<open>
  \<open>Client::Client\<close>; the member \<open>timestamp_\<close> is not initialised, so its first value is an argument.
\<close>

definition Client_ctor :: "u32 \<Rightarrow> ClientConfig \<Rightarrow> u64 \<Rightarrow> client" where
  "Client_ctor client_id config timestamp =
     \<lparr>cl_id = client_id, cl_n = ccfg_num_replicas config,
      cl_f = (ccfg_num_replicas config - 1) div 3, cl_timeout = ccfg_request_timeout config,
      cl_current_view = 1, cl_timestamp = timestamp, cl_inflight = Map.empty,
      cl_replicas = [], cl_done = [], cl_out = []\<rparr>"

definition cl_emit :: "client_action list \<Rightarrow> client \<Rightarrow> client" where
  "cl_emit acts s = s\<lparr>cl_out := cl_out s @ acts\<rparr>"

definition client_add_replica :: "u32 \<Rightarrow> client_conn \<Rightarrow> client \<Rightarrow> client" where
  "client_add_replica i c s =
     (if i = cl_id s then s else s\<lparr>cl_replicas := AList.update i c (cl_replicas s)\<rparr>)"

definition primary_hint :: "client \<Rightarrow> u32" where
  "primary_hint s = cl_current_view s mod cl_n s"

definition request_metric :: "RequestMsg \<Rightarrow> client_action" where
  "request_metric m = ClMetric (IncMsg ''request'' (length (rq_serialized m)) True)"

definition broadcast_request :: "(client_conn \<Rightarrow> bool) \<Rightarrow> RequestMsg \<Rightarrow> client \<Rightarrow> client" where
  "broadcast_request conn_ok m s =
     cl_emit (concat (map (\<lambda>(i, c). if conn_ok c then [ClSend c m, request_metric m] else [])
       (cl_replicas s))) s"

section \<open>Replies\<close>

text \<open>\<open>auto &cnt = request.result_counts[m.result]; cnt++\<close>\<close>

definition count_of :: "string \<Rightarrow> InflightRequest \<Rightarrow> nat" where
  "count_of res r = (case map_of (if_result_counts r) res of None \<Rightarrow> 0 | Some k \<Rightarrow> k)"

definition count_result :: "string \<Rightarrow> InflightRequest \<Rightarrow> InflightRequest" where
  "count_result res r =
     r\<lparr>if_result_counts := AList.update res (Suc (count_of res r)) (if_result_counts r)\<rparr>"

definition on_reply :: "ReplyMsg \<Rightarrow> client \<Rightarrow> client" where
  "on_reply m s =
     (let s = cl_emit [ClMetric (IncMsg ''reply'' (length (rp_serialized m)) False)] s
      in if rp_client_id m \<noteq> cl_id s then s
         else
           let s = (if cl_current_view s < rp_view m then s\<lparr>cl_current_view := rp_view m\<rparr> else s)
           in case cl_inflight s (rp_timestamp m) of
                None \<Rightarrow> s
              | Some r \<Rightarrow>
                  if rp_replica_id m \<in> if_seen_replicas r then s
                  else
                    let r = r\<lparr>if_seen_replicas := insert (rp_replica_id m) (if_seen_replicas r)\<rparr>;
                        r = count_result (rp_result m) r
                    in if unat (cl_f s + 1) \<le> count_of (rp_result m) r
                       then s\<lparr>cl_done := cl_done s @ [(rp_timestamp m, rp_result m)],
                              cl_inflight := (cl_inflight s)(rp_timestamp m := None)\<rparr>
                       else s\<lparr>cl_inflight := (cl_inflight s)(rp_timestamp m \<mapsto> r)\<rparr>)"

section \<open>Requests\<close>

text \<open>
  The common part of \<open>invoke_async\<close> and \<open>invoke\<close>. \<open>emplace\<close> keeps an entry that is already there.
\<close>

definition issue :: "data_stream \<Rightarrow> (client_conn \<Rightarrow> bool) \<Rightarrow> string \<Rightarrow> client \<Rightarrow> client \<times> RequestMsg" where
  "issue D conn_ok operation s =
     (let ts = cl_timestamp s + 1;
          s = s\<lparr>cl_timestamp := ts\<rparr>;
          req = RequestMsg_ctor D operation ts (cl_id s);
          s = (case cl_inflight s ts of
                 Some _ \<Rightarrow> s
               | None \<Rightarrow> s\<lparr>cl_inflight := (cl_inflight s)(ts \<mapsto>
                   \<lparr>if_timestamp = ts, if_seen_replicas = {}, if_result_counts = []\<rparr>)\<rparr>)
      in if cl_n s = 0 then (cl_emit [ClTrap] s, req)
         else case map_of (cl_replicas s) (primary_hint s) of
                Some c \<Rightarrow> (cl_emit [ClSend c req, request_metric req] s, req)
              | None \<Rightarrow> (broadcast_request conn_ok req s, req))"

definition invoke_async :: "data_stream \<Rightarrow> (client_conn \<Rightarrow> bool) \<Rightarrow> string \<Rightarrow> client \<Rightarrow> client" where
  "invoke_async D conn_ok operation s = fst (issue D conn_ok operation s)"

text \<open>
  A call of \<open>invoke\<close> that waits: its request and \<open>current_timeout\<close>, a \<open>std::chrono::milliseconds\<close>
  with a signed 64-bit count, read by \<open>sint\<close>. The constructor gets the unsigned 32-bit \<open>timeout_\<close>.
\<close>

type_synonym milliseconds = "64 word"

record waiting =
  wt_request :: RequestMsg
  wt_timeout :: milliseconds

definition invoke :: "data_stream \<Rightarrow> (client_conn \<Rightarrow> bool) \<Rightarrow> string \<Rightarrow> client \<Rightarrow> client \<times> waiting" where
  "invoke D conn_ok operation s =
     (let (s, req) = issue D conn_ok operation s
      in (s, \<lparr>wt_request = req, wt_timeout = ucast (cl_timeout s)\<rparr>))"

text \<open>\<open>current_timeout *= 2\<close>: signed overflow is undefined behaviour, here \<open>None\<close>.\<close>

definition doubled :: "milliseconds \<Rightarrow> milliseconds option" where
  "doubled t =
     (if - (2 ^ 63) \<le> 2 * sint t \<and> 2 * sint t < 2 ^ 63 then Some (2 * t) else None)"

text \<open>
  One turn of the loop: the value if the promise is set, else a retransmission. The call waits on,
  unless the timeout overflows: then the code says nothing of what follows, which is marked in the
  output, and no waiting call is left.
\<close>

definition invoke_turn ::
  "(client_conn \<Rightarrow> bool) \<Rightarrow> waiting \<Rightarrow> client \<Rightarrow> string + (client \<times> waiting option)" where
  "invoke_turn conn_ok w s =
     (case map_of (cl_done s) (rq_timestamp (wt_request w)) of
        Some result \<Rightarrow> Inl result
      | None \<Rightarrow>
          let s = broadcast_request conn_ok (wt_request w) s
          in case doubled (wt_timeout w) of
               Some t \<Rightarrow> Inr (s, Some (w\<lparr>wt_timeout := t\<rparr>))
             | None \<Rightarrow> Inr (cl_emit [ClTrap] s, None))"

section \<open>Events\<close>

datatype client_event =
    ClReply ReplyMsg
  | ClInvoke string
  | ClExpired waiting
  | ClAddReplica u32 client_conn

fun client_step :: "data_stream \<Rightarrow> (client_conn \<Rightarrow> bool) \<Rightarrow> client_event \<Rightarrow> client \<Rightarrow> client" where
  "client_step D conn_ok (ClReply m) s = on_reply m s"
| "client_step D conn_ok (ClInvoke op) s = invoke_async D conn_ok op s"
| "client_step D conn_ok (ClExpired w) s =
     (case invoke_turn conn_ok w s of Inl _ \<Rightarrow> s | Inr (s, _) \<Rightarrow> s)"
| "client_step D conn_ok (ClAddReplica i c) s = client_add_replica i c s"

definition client_run :: "data_stream \<Rightarrow> (client_conn \<Rightarrow> bool) \<Rightarrow> client_event list \<Rightarrow> client \<Rightarrow> client" where
  "client_run D conn_ok evs s = fold (client_step D conn_ok) evs s"

text \<open>A wait that ends only adds to the output.\<close>

lemma expired_emits: "\<exists>acts. client_step D conn_ok (ClExpired w) s = cl_emit acts s"
proof (cases "map_of (cl_done s) (rq_timestamp (wt_request w))")
  case None
  then show ?thesis
    by (cases "doubled (wt_timeout w)")
      (auto simp: invoke_turn_def broadcast_request_def cl_emit_def Let_def)
next
  case (Some res)
  then show ?thesis by (auto simp: invoke_turn_def cl_emit_def intro: exI [of _ "[]"])
qed

section \<open>What a result stands on\<close>

text \<open>Replica \<open>r\<close> has sent this client the result \<open>res\<close> for the request \<open>ts\<close>.\<close>

definition replied :: "client_event list \<Rightarrow> u32 \<Rightarrow> u64 \<Rightarrow> u32 \<Rightarrow> string \<Rightarrow> bool" where
  "replied evs i ts r res \<longleftrightarrow> (\<exists>m. ClReply m \<in> set evs \<and> rp_client_id m = i \<and>
     rp_timestamp m = ts \<and> rp_replica_id m = r \<and> rp_result m = res)"

text \<open>The counters of a request count the first replies of the replicas seen.\<close>

definition tally_ok :: "client_event list \<Rightarrow> u32 \<Rightarrow> u64 \<Rightarrow> InflightRequest \<Rightarrow> bool" where
  "tally_ok evs i ts r \<longleftrightarrow> (\<exists>first.
     (\<forall>res. count_of res r = card {x \<in> if_seen_replicas r. first x = res}) \<and>
     (\<forall>x \<in> if_seen_replicas r. replied evs i ts x (first x)))"

definition client_ok :: "client_event list \<Rightarrow> client \<Rightarrow> bool" where
  "client_ok evs s \<longleftrightarrow>
     (\<forall>ts r. cl_inflight s ts = Some r \<longrightarrow> tally_ok evs (cl_id s) ts r) \<and>
     (\<forall>ts res. (ts, res) \<in> set (cl_done s) \<longrightarrow>
        unat (cl_f s + 1) \<le> card {x. replied evs (cl_id s) ts x res})"

lemma replied_mono: "replied evs i ts r res \<Longrightarrow> replied (evs @ evs') i ts r res"
  by (auto simp: replied_def)

lemma tally_ok_mono: "tally_ok evs i ts r \<Longrightarrow> tally_ok (evs @ evs') i ts r"
  unfolding tally_ok_def by (meson replied_mono)

lemma client_ok_mono: "client_ok evs s \<Longrightarrow> client_ok (evs @ evs') s"
proof -
  assume ok: "client_ok evs s"
  have "card {x. replied evs (cl_id s) ts x res} \<le> card {x. replied (evs @ evs') (cl_id s) ts x res}"
    for ts res by (rule card_mono) (auto simp: replied_mono)
  with ok show ?thesis
    unfolding client_ok_def by (meson tally_ok_mono order_trans)
qed

lemma count_of_count_result:
  "count_of res' (count_result res r) = (if res' = res then Suc (count_of res r) else count_of res' r)"
  by (simp add: count_of_def count_result_def update_conv')

lemma tally_ok_reply:
  assumes "tally_ok evs i ts r" and "x \<notin> if_seen_replicas r" and "replied evs i ts x res"
  shows "tally_ok evs i ts
    (count_result res (r\<lparr>if_seen_replicas := insert x (if_seen_replicas r)\<rparr>))"
proof -
  from assms(1) obtain first where
    count: "\<And>res. count_of res r = card {y \<in> if_seen_replicas r. first y = res}"
    and first: "\<forall>y \<in> if_seen_replicas r. replied evs i ts y (first y)"
    by (auto simp: tally_ok_def)
  let ?g = "first(x := res)" and ?A = "if_seen_replicas r"
  have same: "{y \<in> insert x ?A. ?g y = res'} =
      (if res' = res then insert x {y \<in> ?A. first y = res'} else {y \<in> ?A. first y = res'})" for res'
    using assms(2) by auto
  have "count_of res' (r\<lparr>if_seen_replicas := insert x ?A\<rparr>) = count_of res' r" for res'
    by (simp add: count_of_def)
  then have "count_of res' (count_result res (r\<lparr>if_seen_replicas := insert x ?A\<rparr>)) =
      card {y \<in> insert x ?A. ?g y = res'}" for res'
    unfolding same using assms(2) by (simp add: count_of_count_result count)
  moreover have "\<forall>y \<in> insert x ?A. replied evs i ts y (?g y)" using first assms(3) by auto
  ultimately show ?thesis
    unfolding tally_ok_def by (intro exI [of _ ?g]) (simp add: count_result_def)
qed

lemma tally_ok_count:
  assumes "tally_ok evs i ts r"
  shows "count_of res r \<le> card {x. replied evs i ts x res}"
proof -
  from assms obtain first where "count_of res r = card {y \<in> if_seen_replicas r. first y = res}"
    "\<forall>y \<in> if_seen_replicas r. replied evs i ts y (first y)" by (auto simp: tally_ok_def)
  then show ?thesis by (auto intro!: card_mono)
qed

lemma client_ok_on_reply:
  assumes "client_ok evs s" and "ClReply m \<in> set evs"
  shows "client_ok evs (on_reply m s)"
proof (cases "rp_client_id m = cl_id s \<and> (\<exists>r. cl_inflight s (rp_timestamp m) = Some r \<and>
    rp_replica_id m \<notin> if_seen_replicas r)")
  case True
  then obtain r where r: "rp_client_id m = cl_id s" "cl_inflight s (rp_timestamp m) = Some r"
    "rp_replica_id m \<notin> if_seen_replicas r" by blast
  let ?r = "count_result (rp_result m)
    (r\<lparr>if_seen_replicas := insert (rp_replica_id m) (if_seen_replicas r)\<rparr>)"
  have "tally_ok evs (cl_id s) (rp_timestamp m) ?r"
    using assms r by (intro tally_ok_reply) (auto simp: client_ok_def replied_def)
  with tally_ok_count [OF this, of "rp_result m"] assms(1) r show ?thesis
    by (auto simp: client_ok_def on_reply_def cl_emit_def Let_def)
next
  case False
  with assms show ?thesis
    by (auto simp: client_ok_def on_reply_def cl_emit_def Let_def split: option.split)
qed

lemma tally_ok_new: "tally_ok evs i ts \<lparr>if_timestamp = ts', if_seen_replicas = {}, if_result_counts = []\<rparr>"
  by (simp add: tally_ok_def count_of_def)

lemma client_ok_issue: "client_ok evs s \<Longrightarrow> client_ok evs (fst (issue D conn_ok op s))"
  by (auto simp: client_ok_def issue_def cl_emit_def broadcast_request_def Let_def tally_ok_new
      split: option.split)

lemma client_ok_step:
  assumes "client_ok evs s"
  shows "client_ok (evs @ [ev]) (client_step D conn_ok ev s)"
proof -
  have ok: "client_ok (evs @ [ev]) s" using assms by (rule client_ok_mono)
  show ?thesis
  proof (cases ev)
    case (ClReply m)
    with ok show ?thesis by (simp add: client_ok_on_reply)
  next
    case (ClInvoke op)
    with ok show ?thesis by (simp add: client_ok_issue invoke_async_def)
  next
    case (ClExpired w)
    with expired_emits [of D conn_ok w s] obtain acts where "client_step D conn_ok ev s = cl_emit acts s"
      by blast
    with ok show ?thesis by (simp add: client_ok_def cl_emit_def)
  qed (use ok in \<open>auto simp: client_ok_def client_add_replica_def\<close>)
qed

lemma client_ok_run: "client_ok evs (client_run D conn_ok evs (Client_ctor i cfg t0))"
proof (induction evs rule: rev_induct)
  case Nil
  show ?case by (simp add: client_run_def client_ok_def Client_ctor_def)
next
  case (snoc ev evs)
  from client_ok_step [OF this] show ?case by (simp add: client_run_def)
qed

lemma client_step_const [simp]:
  "cl_id (client_step D conn_ok ev s) = cl_id s" "cl_f (client_step D conn_ok ev s) = cl_f s"
  by (cases ev; simp add: on_reply_def invoke_async_def issue_def invoke_turn_def
      broadcast_request_def cl_emit_def client_add_replica_def Let_def split: option.split sum.split)+

lemma client_run_const [simp]:
  "cl_id (client_run D conn_ok evs s) = cl_id s" "cl_f (client_run D conn_ok evs s) = cl_f s"
  by (induction evs arbitrary: s) (simp_all add: client_run_def)

section \<open>Enough matching replies\<close>

text \<open>A reply \<open>m\<close> to the request \<open>ts\<close> of this client, with the result \<open>res\<close>.\<close>

definition answers :: "u64 \<Rightarrow> string \<Rightarrow> client \<Rightarrow> ReplyMsg \<Rightarrow> bool" where
  "answers ts res s m \<longleftrightarrow> rp_client_id m = cl_id s \<and> rp_timestamp m = ts \<and> rp_result m = res"

lemma on_reply_const [simp]: "cl_id (on_reply m s) = cl_id s" "cl_f (on_reply m s) = cl_f s"
  using client_step_const [of undefined undefined "ClReply m" s] by simp_all

lemma answers_on_reply [simp]: "answers ts res (on_reply m s) = answers ts res s"
  by (simp add: answers_def fun_eq_iff)

lemma done_mono: "set (cl_done s) \<subseteq> set (cl_done (on_reply m s))"
  by (auto simp: on_reply_def cl_emit_def Let_def split: option.split)

lemma done_fold: "set (cl_done s) \<subseteq> set (cl_done (fold on_reply ms s))"
proof (induction ms arbitrary: s)
  case (Cons m ms)
  with done_mono [of s m] show ?case by force
qed simp

text \<open>The threshold is reached, or one more replica has been counted.\<close>

lemma on_reply_counts:
  assumes "cl_inflight s ts = Some r" and "answers ts res s m" and "rp_replica_id m \<notin> if_seen_replicas r"
  obtains "(ts, res) \<in> set (cl_done (on_reply m s))"
  | r' where "cl_inflight (on_reply m s) ts = Some r'" "count_of res r' = Suc (count_of res r)"
      "if_seen_replicas r' = insert (rp_replica_id m) (if_seen_replicas r)"
      "count_of res r' < unat (cl_f s + 1)"
proof -
  let ?r = "count_result res (r\<lparr>if_seen_replicas := insert (rp_replica_id m) (if_seen_replicas r)\<rparr>)"
  have count: "count_of res ?r = Suc (count_of res r)"
    by (simp add: count_of_count_result) (simp add: count_of_def)
  show thesis
  proof (cases "unat (cl_f s + 1) \<le> count_of res ?r")
    case True
    then have "(ts, res) \<in> set (cl_done (on_reply m s))"
      using assms by (auto simp: on_reply_def answers_def cl_emit_def Let_def)
    then show thesis by (rule that(1))
  next
    case False
    then have "cl_inflight (on_reply m s) ts = Some ?r"
      using assms by (auto simp: on_reply_def answers_def cl_emit_def Let_def)
    with False count show thesis by (intro that(2) [of ?r]) (simp_all add: count_result_def)
  qed
qed

lemma enough_replies:
  assumes "cl_inflight s ts = Some r" and "\<forall>m \<in> set ms. answers ts res s m"
    and "distinct (map rp_replica_id ms)" and "\<forall>m \<in> set ms. rp_replica_id m \<notin> if_seen_replicas r"
    and "unat (cl_f s + 1) \<le> count_of res r + length ms" and "count_of res r < unat (cl_f s + 1)"
  shows "(ts, res) \<in> set (cl_done (fold on_reply ms s))"
  using assms
proof (induction ms arbitrary: s r)
  case (Cons m ms)
  have m: "answers ts res s m" "rp_replica_id m \<notin> if_seen_replicas r" using Cons.prems by simp_all
  show ?case
  proof (rule on_reply_counts [OF Cons.prems(1) m])
    assume "(ts, res) \<in> set (cl_done (on_reply m s))"
    with done_fold show ?thesis by force
  next
    fix r' assume r': "cl_inflight (on_reply m s) ts = Some r'" "count_of res r' = Suc (count_of res r)"
      "if_seen_replicas r' = insert (rp_replica_id m) (if_seen_replicas r)"
      "count_of res r' < unat (cl_f s + 1)"
    have "(ts, res) \<in> set (cl_done (fold on_reply ms (on_reply m s)))"
    proof (rule Cons.IH [OF r'(1)])
      show "\<forall>m' \<in> set ms. rp_replica_id m' \<notin> if_seen_replicas r'"
        using Cons.prems(3,4) by (auto simp: r'(3)) (metis imageI)
    qed (use Cons.prems r' in simp_all)
    then show ?thesis by simp
  qed
qed simp

section \<open>A request is answered at most once\<close>

text \<open>
  The timestamps handed out so far are \<open>t0 + 1, \<dots>, t0 + k\<close>; as long as they do not wrap around, a
  timestamp that is answered is not in flight again.
\<close>

definition issued :: "u64 \<Rightarrow> nat \<Rightarrow> u64 set" where
  "issued t0 k = (\<lambda>j. t0 + of_nat j) ` {1 .. k}"

definition once :: "u64 \<Rightarrow> nat \<Rightarrow> client \<Rightarrow> bool" where
  "once t0 k s \<longleftrightarrow> cl_timestamp s = t0 + of_nat k \<and> distinct (map fst (cl_done s)) \<and>
     fst ` set (cl_done s) \<inter> dom (cl_inflight s) = {} \<and>
     fst ` set (cl_done s) \<union> dom (cl_inflight s) \<subseteq> issued t0 k"

lemma issued_Suc: "issued t0 (Suc k) = insert (t0 + of_nat (Suc k)) (issued t0 k)"
  by (simp add: issued_def atLeastAtMostSuc_conv)

lemma fresh_timestamp: "Suc k < 2 ^ 64 \<Longrightarrow> t0 + of_nat (Suc k) \<notin> issued t0 k"
proof
  assume k: "Suc k < 2 ^ 64" and "t0 + of_nat (Suc k) \<in> issued t0 k"
  then obtain j where j: "j \<le> k" "(of_nat (Suc k) :: u64) = of_nat j"
    by (auto simp: issued_def simp del: of_nat_Suc)
  with of_nat_inj_u64 [OF k _ j(2)] k show False by simp
qed

lemma once_on_reply: "once t0 k s \<Longrightarrow> once t0 k (on_reply m s)"
  by (auto simp: once_def on_reply_def cl_emit_def dom_def Let_def split: option.split)

lemma issue_sel:
  "cl_timestamp (fst (issue D conn_ok op s)) = cl_timestamp s + 1"
  "cl_done (fst (issue D conn_ok op s)) = cl_done s"
  "dom (cl_inflight (fst (issue D conn_ok op s))) = insert (cl_timestamp s + 1) (dom (cl_inflight s))"
  by (auto simp: issue_def cl_emit_def broadcast_request_def Let_def split: option.split)

lemma once_issue:
  assumes "once t0 k s" and "Suc k < 2 ^ 64"
  shows "once t0 (Suc k) (fst (issue D conn_ok op s))"
proof -
  have ts: "cl_timestamp s + 1 = t0 + of_nat (Suc k)" using assms(1) by (simp add: once_def)
  have "t0 + of_nat (Suc k) \<notin> fst ` set (cl_done s)"
    using fresh_timestamp [OF assms(2), of t0] assms(1) unfolding once_def by blast
  moreover have "distinct (map fst (cl_done s))" "fst ` set (cl_done s) \<inter> dom (cl_inflight s) = {}"
    "fst ` set (cl_done s) \<union> dom (cl_inflight s) \<subseteq> issued t0 k" using assms(1) by (simp_all add: once_def)
  ultimately show ?thesis
    unfolding once_def issue_sel ts issued_Suc by (simp only: Int_insert_right) auto
qed

lemma once_step:
  assumes "once t0 k s" and "\<forall>op. ev \<noteq> ClInvoke op"
  shows "once t0 k (client_step D conn_ok ev s)"
proof (cases ev)
  case (ClReply m)
  with assms(1) show ?thesis by (simp add: once_on_reply)
next
  case (ClExpired w)
  with expired_emits [of D conn_ok w s] obtain acts where "client_step D conn_ok ev s = cl_emit acts s"
    by blast
  with assms(1) show ?thesis by (simp add: once_def cl_emit_def)
qed (use assms in \<open>auto simp: once_def client_add_replica_def\<close>)

text \<open>The operations of the calls, in their order; the \<open>k\<close>-th one has the timestamp \<open>t0 + k + 1\<close>.\<close>

definition calls :: "client_event list \<Rightarrow> string list" where
  "calls evs = concat (map (\<lambda>ev. case ev of ClInvoke op \<Rightarrow> [op] | _ \<Rightarrow> []) evs)"

abbreviation invocations :: "client_event list \<Rightarrow> nat" where
  "invocations evs \<equiv> length (calls evs)"

lemma once_run:
  "invocations evs < 2 ^ 64 \<Longrightarrow> once t0 (invocations evs) (client_run D conn_ok evs (Client_ctor i cfg t0))"
proof (induction evs rule: rev_induct)
  case Nil
  show ?case by (simp add: once_def client_run_def calls_def Client_ctor_def issued_def)
next
  case (snoc ev evs)
  let ?s = "client_run D conn_ok evs (Client_ctor i cfg t0)"
  have run: "client_run D conn_ok (evs @ [ev]) (Client_ctor i cfg t0) = client_step D conn_ok ev ?s"
    by (simp add: client_run_def)
  have "invocations evs < 2 ^ 64" using snoc.prems by (simp add: calls_def)
  then have IH: "once t0 (invocations evs) ?s" by (rule snoc.IH)
  show ?case
  proof (cases "\<exists>op. ev = ClInvoke op")
    case True
    then obtain op where op: "ev = ClInvoke op" by blast
    then have k: "invocations (evs @ [ev]) = Suc (invocations evs)" by (simp add: calls_def)
    with snoc.prems have "Suc (invocations evs) < 2 ^ 64" by (simp only:)
    with once_issue [OF IH] show ?thesis
      unfolding run k by (simp only: op client_step.simps invoke_async_def)
  next
    case False
    then have k: "invocations (evs @ [ev]) = invocations evs"
      by (cases ev) (simp_all add: calls_def)
    from False once_step [OF IH] show ?thesis unfolding run k by blast
  qed
qed

section \<open>The properties of the client\<close>

text \<open>A client of four replicas that issues one request and hears from two of them.\<close>

definition demo_client :: client where
  "demo_client = Client_ctor 7 \<lparr>ccfg_num_replicas = 4, ccfg_request_timeout = 500, ccfg_tls_config = None\<rparr> 0"

definition demo_reply :: "u32 \<Rightarrow> ReplyMsg" where
  "demo_reply r = \<lparr>rp_serialized = [], rp_view = 0, rp_timestamp = 1, rp_client_id = 7,
     rp_replica_id = r, rp_result = ''OK''\<rparr>"

definition demo_client_events :: "client_event list" where
  "demo_client_events = [ClAddReplica 1 11, ClInvoke ''op'', ClReply (demo_reply 0), ClReply (demo_reply 2)]"

definition waiting_client :: client where
  "waiting_client = client_run mute_stream (\<lambda>_. True) (take 2 demo_client_events) demo_client"

text \<open>
  C31. A result is delivered only if at least \<open>f + 1\<close> different replica ids have replied to that
  request with exactly that result, and for each request at most one is delivered, as long as fewer
  than \<open>2 ^ 64\<close> requests are issued.
\<close>

theorem delivered_result_backed:
  assumes "s = client_run D conn_ok evs (Client_ctor i cfg t0)" and "(ts, res) \<in> set (cl_done s)"
    and "length (calls evs) < 2 ^ 64"
  shows "unat ((ccfg_num_replicas cfg - 1) div 3 + 1) \<le> card {r. replied evs i ts r res} \<and>
    distinct (map fst (cl_done s))"
proof -
  have "unat ((ccfg_num_replicas cfg - 1) div 3 + 1) \<le> card {r. replied evs i ts r res}"
    using client_ok_run [of evs D conn_ok i cfg t0] assms(1,2) by (simp add: client_ok_def Client_ctor_def)
  moreover have "distinct (map fst (cl_done s))" using once_run [OF assms(3)] by (simp add: once_def assms(1))
  ultimately show ?thesis by blast
qed

theorem delivered_result_backed_witness:
  "(1, ''OK'') \<in> set (cl_done (client_run mute_stream (\<lambda>_. True) demo_client_events demo_client)) \<and>
   unat ((4 - 1) div 3 + 1 :: u32) \<le> card {r. replied demo_client_events 7 1 r ''OK''}"
proof -
  have "(1, ''OK'') \<in> set (cl_done (client_run mute_stream (\<lambda>_. True) demo_client_events demo_client))"
    by code_simp
  moreover have "length (calls demo_client_events) < 2 ^ 64"
    by (simp add: demo_client_events_def calls_def)
  ultimately show ?thesis
    using delivered_result_backed [OF refl, of 1 "''OK''" mute_stream "\<lambda>_. True" demo_client_events 7
      "\<lparr>ccfg_num_replicas = 4, ccfg_request_timeout = 500, ccfg_tls_config = None\<rparr>" 0]
    by (simp add: demo_client_def)
qed

text \<open>
  C32. It is delivered as soon as that many have: in any state in which the request is in flight
  and has no replies yet, the replies of \<open>f + 1\<close> different replicas with one result fulfil the promise
  with this result, whatever replies to other requests and clients were there before.
\<close>

theorem matching_replies_deliver:
  assumes "cl_inflight s ts = Some \<lparr>if_timestamp = ts, if_seen_replicas = {}, if_result_counts = []\<rparr>"
    and "\<forall>m \<in> set ms. answers ts res s m" and "distinct (map rp_replica_id ms)"
    and "length ms = unat (cl_f s + 1)" and "cl_f s + 1 \<noteq> 0"
  shows "(ts, res) \<in> set (cl_done (fold on_reply ms s))"
  using assms(5) by (intro enough_replies [OF assms(1-3)]) (simp_all add: assms(4) count_of_def unat_gt_0)

theorem matching_replies_deliver_witness:
  "(1, ''OK'') \<in> set (cl_done (fold on_reply [demo_reply 0, demo_reply 2] waiting_client))"
proof (rule matching_replies_deliver)
  show "cl_inflight waiting_client 1 =
      Some \<lparr>if_timestamp = 1, if_seen_replicas = {}, if_result_counts = []\<rparr>" by code_simp
  show "\<forall>m \<in> set [demo_reply 0, demo_reply 2]. answers 1 ''OK'' waiting_client m" by code_simp
  show "length [demo_reply 0, demo_reply 2] = unat (cl_f waiting_client + 1)" by code_simp
  show "cl_f waiting_client + 1 \<noteq> 0" by code_simp
qed (simp add: demo_reply_def)

text \<open>The loop of a call, for at most the given number of turns that wait in vain.\<close>

fun wait_turns ::
  "(client_conn \<Rightarrow> bool) \<Rightarrow> nat \<Rightarrow> waiting \<Rightarrow> client \<Rightarrow> string + (client \<times> waiting option)" where
  "wait_turns conn_ok 0 w s = Inr (s, Some w)"
| "wait_turns conn_ok (Suc k) w s =
     (case invoke_turn conn_ok w s of
        Inl res \<Rightarrow> Inl res
      | Inr (s, None) \<Rightarrow> Inr (s, None)
      | Inr (s, Some w) \<Rightarrow> wait_turns conn_ok k w s)"

definition resent :: "(client_conn \<Rightarrow> bool) \<Rightarrow> RequestMsg \<Rightarrow> client \<Rightarrow> client_action list" where
  "resent conn_ok m s =
     [a. (i, c) \<leftarrow> cl_replicas s, conn_ok c, a \<leftarrow> [ClSend c m, request_metric m]]"

lemma broadcast_request_resent: "broadcast_request conn_ok m s = cl_emit (resent conn_ok m s) s"
  by (simp add: broadcast_request_def resent_def if_distrib [of "\<lambda>x. x @ _"] cong: if_cong)

lemma cl_emit_cl_emit: "cl_emit bs (cl_emit as s) = cl_emit (as @ bs) s"
  by (simp add: cl_emit_def)

lemma resent_cl_emit: "resent conn_ok m (cl_emit as s) = resent conn_ok m s"
  by (simp add: resent_def cl_emit_def)

lemma cl_done_cl_emit: "cl_done (cl_emit as s) = cl_done s"
  by (simp add: cl_emit_def)

lemmas resending = broadcast_request_resent cl_emit_cl_emit resent_cl_emit cl_done_cl_emit

lemma sint_word_of_int:
  fixes x :: int
  assumes "- (2 ^ 63) \<le> x" and "x < 2 ^ 63"
  shows "sint (word_of_int x :: milliseconds) = x"
  using assms by (simp add: signed_of_int signed_take_bit_int_eq_self)

lemma sint_doubled: "2 * sint t < 2 ^ 63 \<Longrightarrow> 0 \<le> sint t \<Longrightarrow> sint (2 * t) = 2 * sint (t :: milliseconds)"
  using sint_word_of_int [of "2 * sint t"] by simp

lemma doubled_Some: "2 * sint t < 2 ^ 63 \<Longrightarrow> 0 \<le> sint t \<Longrightarrow> doubled t = Some (2 * t)"
  by (simp add: doubled_def)

lemma doubled_None: "2 ^ 63 \<le> 2 * sint t \<Longrightarrow> doubled t = None"
  by (simp add: doubled_def)

text \<open>The first wait of a call lasts the configured timeout; it is never negative.\<close>

lemma invoke_timeout: "sint (wt_timeout (snd (invoke D conn_ok op s))) = uint (cl_timeout s)"
proof -
  have "- (2 ^ 63) \<le> uint (cl_timeout s)" by (rule order_trans [of _ 0]) simp_all
  moreover have "uint (cl_timeout s) < 2 ^ 32" using uint_bounded [of "cl_timeout s"] by simp
  then have "uint (cl_timeout s) < 2 ^ 63" by simp
  moreover have "cl_timeout (fst (issue D conn_ok op s)) = cl_timeout s"
    by (simp add: issue_def cl_emit_def broadcast_request_def Let_def split: option.split)
  ultimately show ?thesis
    using sint_word_of_int [of "uint (cl_timeout s)"] by (simp add: invoke_def case_prod_beta)
qed

text \<open>
  C33. While a call of \<open>invoke\<close> waits in vain, each turn of its loop sends the request again to every
  replica with a working connection and doubles the time it waits, for as long as that time fits the
  signed 64-bit count of milliseconds. The turn whose doubling does not fit still sends the request,
  and its overflow is undefined behaviour: the loop has no defined turn after it.
\<close>

theorem retransmission_backoff:
  assumes "map_of (cl_done s) (rq_timestamp (wt_request w)) = None" and "0 \<le> sint (wt_timeout w)"
  shows "if 2 ^ k * sint (wt_timeout w) < 2 ^ 63
    then \<exists>t. sint t = 2 ^ k * sint (wt_timeout w) \<and> wait_turns conn_ok k w s =
      Inr (cl_emit (concat (replicate k (resent conn_ok (wt_request w) s))) s, Some (w\<lparr>wt_timeout := t\<rparr>))
    else \<exists>j < k. 2 ^ j * sint (wt_timeout w) < 2 ^ 63 \<and> 2 ^ 63 \<le> 2 ^ Suc j * sint (wt_timeout w) \<and>
      wait_turns conn_ok k w s =
      Inr (cl_emit (concat (replicate (Suc j) (resent conn_ok (wt_request w) s)) @ [ClTrap]) s, None)"
  using assms
proof (induction k arbitrary: w s)
  case 0
  have "sint (wt_timeout w) < 2 ^ 63" using sint_lt [of "wt_timeout w"] by simp
  then show ?case by (auto simp: cl_emit_def intro: exI [of _ "wt_timeout w"])
next
  case (Suc k)
  let ?t = "sint (wt_timeout w)" and ?R = "resent conn_ok (wt_request w) s"
  show ?case
  proof (cases "2 * ?t < 2 ^ 63")
    case True
    let ?w = "w\<lparr>wt_timeout := 2 * wt_timeout w\<rparr>" and ?s = "cl_emit ?R s"
    have t: "sint (wt_timeout ?w) = 2 * ?t" using sint_doubled [OF True] Suc.prems(2) by simp
    have turns: "wait_turns conn_ok (Suc k) w s = wait_turns conn_ok k ?w ?s"
      using Suc.prems True by (simp add: invoke_turn_def doubled_Some resending Let_def)
    have "map_of (cl_done ?s) (rq_timestamp (wt_request ?w)) = None" "0 \<le> sint (wt_timeout ?w)"
      using Suc.prems t by (simp_all add: resending)
    note IH = Suc.IH [OF this, unfolded t]
    show ?thesis
    proof (cases "2 ^ k * (2 * ?t) < 2 ^ 63")
      case fits: True
      with IH show ?thesis unfolding turns by (auto simp: resending algebra_simps)
    next
      case False
      with IH obtain j where "j < k" "2 ^ j * (2 * ?t) < 2 ^ 63" "2 ^ 63 \<le> 2 ^ Suc j * (2 * ?t)"
        "wait_turns conn_ok k ?w ?s =
         Inr (cl_emit (concat (replicate (Suc j) (resent conn_ok (wt_request ?w) ?s)) @ [ClTrap]) ?s, None)"
        by (auto simp only: if_False)
      with False show ?thesis unfolding turns
        by (auto simp: resending algebra_simps intro!: exI [of _ "Suc j"])
    qed
  next
    case False
    then have "wait_turns conn_ok (Suc k) w s = Inr (cl_emit (?R @ [ClTrap]) s, None)"
      using Suc.prems by (simp add: invoke_turn_def doubled_None resending Let_def)
    moreover have "\<not> 2 ^ Suc k * ?t < 2 ^ 63"
    proof -
      have "1 * (2 * ?t) \<le> 2 ^ k * (2 * ?t)" using Suc.prems(2) by (intro mult_right_mono) simp_all
      also have "\<dots> = 2 ^ Suc k * ?t" by simp
      finally show ?thesis using False by linarith
    qed
    moreover have "?t < 2 ^ 63" using sint_lt [of "wt_timeout w"] by simp
    ultimately show ?thesis using False by (auto intro!: exI [of _ 0])
  qed
qed

text \<open>
  The call of a client with a timeout of 500 milliseconds: it waits 4000 after three turns in vain, and
  the 55th doubling overflows.
\<close>

definition demo_call :: "client \<times> waiting" where
  "demo_call = invoke mute_stream (\<lambda>_. True) ''op'' (client_add_replica 1 11 demo_client)"

theorem retransmission_backoff_witness:
  "(\<exists>t. sint t = 4000 \<and> wait_turns (\<lambda>_. True) 3 (snd demo_call) (fst demo_call) =
     Inr (cl_emit (concat (replicate 3 (resent (\<lambda>_. True) (wt_request (snd demo_call)) (fst demo_call))))
         (fst demo_call), Some ((snd demo_call)\<lparr>wt_timeout := t\<rparr>))) \<and>
   (\<exists>j < 55. wait_turns (\<lambda>_. True) 55 (snd demo_call) (fst demo_call) =
     Inr (cl_emit (concat (replicate (Suc j) (resent (\<lambda>_. True) (wt_request (snd demo_call)) (fst demo_call)))
         @ [ClTrap]) (fst demo_call), None))"
proof -
  have "sint (wt_timeout (snd demo_call)) = uint (cl_timeout (client_add_replica 1 11 demo_client))"
    by (simp only: demo_call_def invoke_timeout)
  also have "\<dots> = 500" by (simp add: client_add_replica_def demo_client_def Client_ctor_def)
  finally have t: "sint (wt_timeout (snd demo_call)) = 500" .
  have "map_of (cl_done (fst demo_call)) (rq_timestamp (wt_request (snd demo_call))) = None" by code_simp
  note backoff = retransmission_backoff [OF this, unfolded t, where conn_ok = "\<lambda>_. True"]
  show ?thesis using backoff [where k = 3] backoff [where k = 55] by auto
qed

end
