(* ===== verification/Lifecycle.thy ===== *)
theory Lifecycle
  imports Node_View_Change Client Decimal_Text
begin

text \<open>
  What \<open>Node\<close> and \<open>Client\<close> do besides the protocol: the part of their constructors that sets up the
  network, the metrics server and the logger, \<open>start\<close>, \<open>stop\<close>, \<open>run\<close>, the destructor of the client and
  the logging of connections. An object of either class has a \<open>host\<close>: the name of the logger that
  \<open>logger_\<close> points to (\<open>None\<close> for the null pointer) and the calls it has made on the event loop, the network
  and the logger, in order; a use of the null pointer is recorded as \<open>NullLogger\<close>.

  The libraries are the record \<open>runtime\<close>: the metrics server and the logger registry act on the state
  \<open>'w\<close> of the process and can throw, and so can \<open>connect_sync\<close>; an address has the members \<open>ip\<close> and
  \<open>port\<close>.
\<close>

section \<open>Exceptions\<close>

datatype exn = InvalidArgument | OutOfRange | RuntimeError string | LibraryError string

definition bind_sum :: "'e + 'a \<Rightarrow> ('a \<Rightarrow> 'e + 'b) \<Rightarrow> 'e + 'b" where
  "bind_sum x f = (case x of Inl e \<Rightarrow> Inl e | Inr v \<Rightarrow> f v)"

lemma bind_sum_simps [simp]: "bind_sum (Inl e) f = Inl e" "bind_sum (Inr v) f = f v"
  by (simp_all add: bind_sum_def)

lemma bind_sum_Inr: "bind_sum x f = Inr y \<longleftrightarrow> (\<exists>v. x = Inr v \<and> f v = Inr y)"
  by (cases x) simp_all

section \<open>Addresses as text\<close>

text \<open>
  The macro \<open>NETADDR_STR\<close>. \<open>htonl\<close> puts the most significant byte first and \<open>inet_ntop\<close> writes the bytes in
  the order of memory; \<open>snprintf\<close> leaves room for the final zero in the buffer of 64.
\<close>

definition octet :: "nat \<Rightarrow> u32 \<Rightarrow> nat" where
  "octet k ip = unat (take_bit 8 (drop_bit (8 * k) ip))"

definition inet_ntop :: "u32 \<Rightarrow> string" where
  "inet_ntop ip = show_nat (octet 3 ip) @ CHR ''.'' # show_nat (octet 2 ip) @ CHR ''.'' #
     show_nat (octet 1 ip) @ CHR ''.'' # show_nat (octet 0 ip)"

definition netaddr_str :: "u32 \<Rightarrow> u32 \<Rightarrow> string" where
  "netaddr_str ip port = take 63 (inet_ntop ip @ CHR '':'' # show_nat (unat port))"

section \<open>The libraries and the host of an object\<close>

record ('a, 'w) runtime =
  rt_expose :: "string \<Rightarrow> 'w \<Rightarrow> exn + 'w"
  rt_create_logger :: "string \<Rightarrow> string \<Rightarrow> 'w \<Rightarrow> exn + 'w"
  rt_drop_logger :: "string \<Rightarrow> 'w \<Rightarrow> 'w"
  rt_connect :: "'a \<Rightarrow> exn + conn"
  rt_ip :: "'a \<Rightarrow> u32"
  rt_port :: "'a \<Rightarrow> u32"

datatype 'a host_call =
    EnableTls "(string \<times> string) option"
  | SetInfoLevel
  | SetPattern string
  | RegHandler MsgType
  | RegConnHandler
  | NetStart
  | NetListen 'a
  | ConnectSync 'a
  | NetTerminate conn
  | NetStop
  | EcDispatch
  | EcStop
  | ThreadStart
  | ThreadJoin
  | Stdout string
  | LogLine string
  | LoggerFlush
  | NullLogger

record 'a host =
  ho_logger :: "string option"
  ho_calls :: "'a host_call list"

definition calling :: "'a host_call list \<Rightarrow> 'a host \<Rightarrow> 'a host" where
  "calling cs h = h\<lparr>ho_calls := ho_calls h @ cs\<rparr>"

text \<open>\<open>logger_->info(...)\<close>\<close>

definition log_info :: "string \<Rightarrow> 'a host \<Rightarrow> 'a host" where
  "log_info line h = (case ho_logger h of None \<Rightarrow> calling [NullLogger] h | Some _ \<Rightarrow> calling [LogLine line] h)"

definition log_pattern :: string where
  "log_pattern = ''[%Y-%m-%dT%H:%M:%S.%e] [%n] [%^%l%$] %v''"

text \<open>The logger and its file; \<open>fmt::format\<close> writes the id in decimal.\<close>

definition open_logger ::
  "('a, 'w) runtime \<Rightarrow> string \<Rightarrow> (string \<times> string) option \<Rightarrow> MsgType list \<Rightarrow> 'w \<Rightarrow> exn + ('a host \<times> 'w)" where
  "open_logger L name tls handlers w =
     bind_sum (rt_create_logger L name (''logs/'' @ name @ ''.log'') w) (\<lambda>w.
       Inr (\<lparr>ho_logger = Some name, ho_calls = EnableTls tls # SetInfoLevel # SetPattern log_pattern #
              map RegHandler handlers\<rparr>, w))"

section \<open>The node\<close>

definition node_metrics_addr :: "u32 \<Rightarrow> string" where
  "node_metrics_addr i = ''0.0.0.0:'' @ to_string (9460 + i)"

definition node_logger :: "u32 \<Rightarrow> string" where
  "node_logger i = ''node-'' @ to_string i"

definition node_handlers :: "MsgType list" where
  "node_handlers = [HANDSHAKE, REQUEST, PRE_PREPARE, PREPARE, COMMIT, CHECKPOINT, VIEW_CHANGE, NEW_VIEW]"

text \<open>The part of the constructor that \<open>Node_ctor\<close> leaves out.\<close>

definition Node_host :: "('a, 'w) runtime \<Rightarrow> u32 \<Rightarrow> NodeConfig \<Rightarrow> 'w \<Rightarrow> exn + ('a host \<times> 'w)" where
  "Node_host L replica_id config w =
     (let tls = map_option (\<lambda>t. (ntls_cert_file t, ntls_key_file t)) (cfg_tls_config config)
      in bind_sum (rt_expose L (node_metrics_addr replica_id) w) (\<lambda>w.
         bind_sum (open_logger L (node_logger replica_id) tls node_handlers w) (\<lambda>(h, w).
           Inr (calling [RegConnHandler] h, w))))"

definition node_start :: "'a \<Rightarrow> 'a host \<Rightarrow> 'a host" where
  "node_start listen_addr h = calling [NetStart, NetListen listen_addr] h"

definition connected_line :: "('a, 'w) runtime \<Rightarrow> string \<Rightarrow> u32 \<Rightarrow> 'a \<Rightarrow> string" where
  "connected_line L kind i addr =
     ''CONNECTED '' @ kind @ '' id='' @ to_string i @ '' addr='' @ netaddr_str (rt_ip L addr) (rt_port L addr)"

text \<open>\<open>add_replica\<close> and \<open>add_client\<close> with the connection they make and the line they log.\<close>

definition Node_add_replica ::
  "('a, 'w) runtime \<Rightarrow> u32 \<Rightarrow> 'a \<Rightarrow> 'svc node \<times> 'a host \<Rightarrow> exn + ('svc node \<times> 'a host)" where
  "Node_add_replica L i addr = (\<lambda>(s, h).
     if i = nd_id s then Inr (s, h)
     else bind_sum (rt_connect L addr) (\<lambda>c.
       Inr (add_replica i c s, log_info (connected_line L ''REPLICA'' i addr) (calling [ConnectSync addr] h))))"

definition Node_add_client ::
  "('a, 'w) runtime \<Rightarrow> u32 \<Rightarrow> 'a \<Rightarrow> 'svc node \<times> 'a host \<Rightarrow> exn + ('svc node \<times> 'a host)" where
  "Node_add_client L i addr = (\<lambda>(s, h).
     bind_sum (rt_connect L addr) (\<lambda>c.
       Inr (add_client i c s, log_info (connected_line L ''CLIENT'' i addr) (calling [ConnectSync addr] h))))"

text \<open>The pointer \<open>net_\<close> is set by the constructor and never reset, so \<open>if (net_)\<close> always holds.\<close>

definition node_stop :: "('a, 'w) runtime \<Rightarrow> 'svc node \<Rightarrow> 'a host \<times> 'w \<Rightarrow> 'a host \<times> 'w" where
  "node_stop L s = (\<lambda>(h, w).
     let h = calling (EcStop # map (NetTerminate \<circ> snd) (nd_peers s) @
               map (NetTerminate \<circ> snd) (nd_clients s) @ [NetStop]) h
     in case ho_logger h of
          None \<Rightarrow> (h, w)
        | Some name \<Rightarrow> ((calling [LoggerFlush] h)\<lparr>ho_logger := None\<rparr>, rt_drop_logger L name w))"

definition node_run :: "'a host \<Rightarrow> 'a host" where
  "node_run h = calling [EcDispatch] (log_info ''RUNNING'' h)"

section \<open>The client\<close>

definition client_metrics_addr :: "u32 \<Rightarrow> string" where
  "client_metrics_addr i = ''0.0.0.0:'' @ to_string (9560 + i)"

definition client_logger :: "u32 \<Rightarrow> string" where
  "client_logger i = ''client-'' @ to_string i"

definition client_handlers :: "MsgType list" where
  "client_handlers = [REPLY]"

definition Client_host :: "('a, 'w) runtime \<Rightarrow> u32 \<Rightarrow> ClientConfig \<Rightarrow> 'w \<Rightarrow> exn + ('a host \<times> 'w)" where
  "Client_host L client_id config w =
     (let tls = map_option (\<lambda>t. (ctls_cert_file t, ctls_key_file t)) (ccfg_tls_config config)
      in bind_sum (rt_expose L (client_metrics_addr client_id) w)
           (open_logger L (client_logger client_id) tls client_handlers))"

definition client_start :: "'a \<Rightarrow> 'a host \<Rightarrow> 'a host" where
  "client_start listen_addr h = calling [NetStart, NetListen listen_addr] h"

definition Client_add_replica ::
  "('a, 'w) runtime \<Rightarrow> u32 \<Rightarrow> 'a \<Rightarrow> client \<times> 'a host \<Rightarrow> exn + (client \<times> 'a host)" where
  "Client_add_replica L i addr = (\<lambda>(s, h).
     if i = cl_id s then Inr (s, h)
     else bind_sum (rt_connect L addr) (\<lambda>c.
       Inr (client_add_replica i c s,
            log_info (connected_line L ''REPLICA'' i addr) (calling [ConnectSync addr] h))))"

definition client_stop :: "client \<Rightarrow> 'a host \<Rightarrow> 'a host" where
  "client_stop s h = calling (EcStop # map (NetTerminate \<circ> snd) (cl_replicas s) @ [NetStop]) h"

definition client_dispatch :: "'a host \<Rightarrow> 'a host" where
  "client_dispatch h = calling [EcDispatch] h"

text \<open>The destructor.\<close>

definition client_destroy :: "('a, 'w) runtime \<Rightarrow> 'a host \<times> 'w \<Rightarrow> 'a host \<times> 'w" where
  "client_destroy L = (\<lambda>(h, w).
     case ho_logger h of None \<Rightarrow> (h, w) | Some name \<Rightarrow> (calling [LoggerFlush] h, rt_drop_logger L name w))"

section \<open>Facts about text\<close>







text \<open>The metrics servers of a node and a client on one machine take the same address.\<close>

lemma metrics_addr_clash: "node_metrics_addr i = client_metrics_addr j \<longleftrightarrow> i = j + 100"
proof -
  have "node_metrics_addr i = client_metrics_addr j \<longleftrightarrow> 9460 + i = 9560 + j"
    by (simp add: node_metrics_addr_def client_metrics_addr_def)
  also have "\<dots> \<longleftrightarrow> i = j + 100" by (auto simp: algebra_simps)
  finally show ?thesis .
qed

section \<open>The life of a node\<close>

lemma calling_sel [simp]: "ho_logger (calling cs h) = ho_logger h" "ho_calls (calling cs h) = ho_calls h @ cs"
  by (simp_all add: calling_def)

text \<open>
  What the logger registry of \<open>spdlog\<close> documents, with \<open>reg\<close> for the names that are registered: a logger can be created
  only if its name is free (and may fail for other reasons, such as its file), it then has the name, and \<open>drop\<close>
  frees the name; the metrics server does not touch the registry.
\<close>

definition registry_laws :: "('a, 'w) runtime \<Rightarrow> ('w \<Rightarrow> string set) \<Rightarrow> bool" where
  "registry_laws L reg \<longleftrightarrow>
     (\<forall>name path w w'. rt_create_logger L name path w = Inr w' \<longrightarrow>
        name \<notin> reg w \<and> reg w' = insert name (reg w)) \<and>
     (\<forall>name w. reg (rt_drop_logger L name w) = reg w - {name}) \<and>
     (\<forall>addr w w'. rt_expose L addr w = Inr w' \<longrightarrow> reg w' = reg w)"

lemma open_logger_registers:
  assumes "registry_laws L reg" and "open_logger L name tls ms w = Inr (h, w')"
  shows "name \<notin> reg w \<and> reg w' = insert name (reg w) \<and> ho_logger h = Some name"
  using assms by (auto simp: open_logger_def bind_sum_Inr registry_laws_def)

lemma Node_host_registers:
  assumes "registry_laws L reg" and "Node_host L i cfg w = Inr (h, w')"
  shows "node_logger i \<notin> reg w \<and> reg w' = insert (node_logger i) (reg w) \<and> ho_logger h = Some (node_logger i)"
proof -
  from assms(2) obtain w1 h1 where w1: "rt_expose L (node_metrics_addr i) w = Inr w1"
    "open_logger L (node_logger i) (map_option (\<lambda>t. (ntls_cert_file t, ntls_key_file t)) (cfg_tls_config cfg))
       node_handlers w1 = Inr (h1, w')" "h = calling [RegConnHandler] h1"
    by (auto simp: Node_host_def bind_sum_Inr split: prod.splits)
  moreover have "reg w1 = reg w" using assms(1) w1(1) unfolding registry_laws_def by blast
  ultimately show ?thesis using open_logger_registers [OF assms(1) w1(2)] by simp
qed

text \<open>
  C38. A node holds the name of its logger from its constructor to \<open>stop\<close>. Until then a second node
  with the same id cannot be created in the process: its constructor throws. \<open>stop\<close> ends the event loop,
  then terminates every connection to a peer and to a client, then stops the network, and gives the name back,
  after which a new node can register it; calling it again does not touch the registry, and
  calling \<open>run\<close> after it uses a null pointer.
\<close>

theorem node_stop_releases:
  assumes "registry_laws L reg" and "Node_host L i cfg w = Inr (h0, w0)"
    and "ho_logger h = ho_logger h0" and "reg w1 = reg w0" and "node_stop L s (h, w1) = (h2, w2)"
  shows "(\<exists>e. Node_host L i cfg' w1 = Inl e) \<and> reg w2 = reg w \<and> node_logger i \<notin> reg w2 \<and>
    ho_calls h2 = ho_calls h @ EcStop # map NetTerminate (map snd (nd_peers s) @ map snd (nd_clients s)) @
      [NetStop, LoggerFlush] \<and>
    snd (node_stop L s (h2, w2)) = w2 \<and> NullLogger \<in> set (ho_calls (node_run h2))"
proof -
  note reg = Node_host_registers [OF assms(1,2)]
  have "\<exists>e. Node_host L i cfg' w1 = Inl e"
  proof (cases "Node_host L i cfg' w1")
    case (Inr r)
    then obtain h' w' where "Node_host L i cfg' w1 = Inr (h', w')" by (cases r) simp
    from Node_host_registers [OF assms(1) this] reg assms(4) show ?thesis by simp
  qed blast
  moreover have h2: "h2 = (calling (EcStop # map NetTerminate (map snd (nd_peers s) @ map snd (nd_clients s)) @
      [NetStop, LoggerFlush]) h)\<lparr>ho_logger := None\<rparr>" "w2 = rt_drop_logger L (node_logger i) w1"
    using assms(3,5) reg by (auto simp: node_stop_def calling_def Let_def comp_def)
  moreover have "reg (rt_drop_logger L (node_logger i) w1) = reg w1 - {node_logger i}"
    using assms(1) unfolding registry_laws_def by blast
  ultimately show ?thesis
    using reg assms(4) by (simp add: node_stop_def node_run_def log_info_def Let_def)
qed

text \<open>A runtime whose process state is the list of the logger names.\<close>

definition demo_runtime :: "(nat, string list) runtime" where
  "demo_runtime = \<lparr>rt_expose = (\<lambda>_ w. Inr w),
     rt_create_logger = (\<lambda>name _ w. if name \<in> set w then Inl (LibraryError name) else Inr (name # w)),
     rt_drop_logger = (\<lambda>name w. removeAll name w), rt_connect = Inr, rt_ip = of_nat, rt_port = of_nat\<rparr>"

lemma demo_registry: "registry_laws demo_runtime set"
  by (simp add: registry_laws_def demo_runtime_def)

theorem node_stop_releases_witness:
  "\<forall>cfg (s :: nat node). \<exists>h w e. Node_host demo_runtime 1 cfg [] = Inr (h, w) \<and>
     Node_host demo_runtime 1 cfg w = Inl e \<and> set (snd (node_stop demo_runtime s (h, w))) = {}"
proof (intro allI)
  fix cfg and s :: "nat node"
  obtain h w where c: "Node_host demo_runtime 1 cfg [] = Inr (h, w)"
    by (simp add: Node_host_def open_logger_def demo_runtime_def)
  obtain h2 w2 where d: "node_stop demo_runtime s (h, w) = (h2, w2)" by fastforce
  from node_stop_releases [OF demo_registry c refl refl d, of cfg] c d
  show "\<exists>h w e. Node_host demo_runtime 1 cfg [] = Inr (h, w) \<and> Node_host demo_runtime 1 cfg w = Inl e \<and>
      set (snd (node_stop demo_runtime s (h, w))) = {}" by auto
qed

text \<open>The client keeps its name through \<open>stop\<close> and gives it back when it is destroyed.\<close>

lemma client_destroy_releases:
  assumes "registry_laws L reg" and "Client_host L i cfg w = Inr (h0, w0)"
    and "ho_logger h = ho_logger h0" and "reg w1 = reg w0"
  shows "ho_logger (client_stop s h) = Some (client_logger i) \<and>
    reg (snd (client_destroy L (client_stop s h, w1))) = reg w"
proof -
  from assms(2) obtain w' where w': "rt_expose L (client_metrics_addr i) w = Inr w'"
    "open_logger L (client_logger i) (map_option (\<lambda>t. (ctls_cert_file t, ctls_key_file t)) (ccfg_tls_config cfg))
       client_handlers w' = Inr (h0, w0)"
    by (auto simp: Client_host_def bind_sum_Inr)
  moreover have "reg w' = reg w" using assms(1) w'(1) unfolding registry_laws_def by blast
  moreover have "reg (rt_drop_logger L (client_logger i) w1) = reg w1 - {client_logger i}"
    using assms(1) unfolding registry_laws_def by blast
  ultimately show ?thesis
    using open_logger_registers [OF assms(1) w'(2)] assms(3,4) by (simp add: client_stop_def client_destroy_def)
qed

end
