(* ===== verification/Applications.thy ===== *)
theory Applications
  imports Lifecycle KV_Store
begin

text \<open>
  The two programs of \<open>examples/kv_store\<close>: \<open>create_node\<close> and \<open>main\<close> of \<open>kv_store.cc\<close>, and \<open>main\<close> of
  \<open>kv_client.cc\<close>. The JSON library, the file system and the constructors of \<open>NetAddr\<close> are the record
  \<open>lib\<close>, the libraries behind \<open>Node\<close> and \<open>Client\<close> the record \<open>runtime\<close>; an operation of theirs that throws returns \<open>Inl\<close>. \<open>std::stoi\<close> is modelled: white space, an
  optional sign, the longest run of digits, an error without digits or outside of \<open>int\<close>.
\<close>

section \<open>Loops and libraries\<close>

text \<open>A loop over the elements of a list whose body may throw.\<close>

fun for_each :: "('x \<Rightarrow> 's \<Rightarrow> 'e + 's) \<Rightarrow> 'x list \<Rightarrow> 's \<Rightarrow> 'e + 's" where
  "for_each f [] s = Inr s"
| "for_each f (x # xs) s = bind_sum (f x s) (for_each f xs)"

record ('j, 'a) lib =
  lib_open :: "string \<Rightarrow> string option"
  lib_parse :: "string \<Rightarrow> exn + 'j"
  lib_value_int :: "'j \<Rightarrow> string \<Rightarrow> int \<Rightarrow> exn + int"
  lib_value_double :: "'j \<Rightarrow> string \<Rightarrow> real \<Rightarrow> exn + real"
  lib_contains :: "'j \<Rightarrow> string \<Rightarrow> bool"
  lib_at :: "'j \<Rightarrow> string \<Rightarrow> 'j"
  lib_items :: "'j \<Rightarrow> (string \<times> 'j) list"
  lib_string :: "'j \<Rightarrow> exn + string"
  lib_addr :: "string \<Rightarrow> exn + 'a"
  lib_default_addr :: 'a
  lib_addr_text :: "'a \<Rightarrow> string"

definition stoi :: "string \<Rightarrow> exn + int" where
  "stoi s =
     (let s = skip_ws s;
          neg = (case s of c # _ \<Rightarrow> c = CHR ''-'' | [] \<Rightarrow> False);
          s = (case s of c # r \<Rightarrow> if c = CHR ''-'' \<or> c = CHR ''+'' then r else s | [] \<Rightarrow> s);
          ds = takeWhile is_digit s;
          v = (if neg then - digits_value ds else digits_value ds)
      in if ds = [] then Inl InvalidArgument
         else if v < - (2 ^ 31) \<or> 2 ^ 31 \<le> v then Inl OutOfRange
         else Inr v)"

text \<open>\<open>NetAddr addr(val.get<std::string>())\<close>\<close>

definition net_addr :: "('j, 'a) lib \<Rightarrow> 'j \<Rightarrow> exn + 'a" where
  "net_addr L v = bind_sum (lib_string L v) (lib_addr L)"

text \<open>Console output; an exception is printed with its \<open>what()\<close>, which is a parameter.\<close>

datatype console = Out string | Err string

definition endl :: string where
  "endl = [CHR 0x0A]"

section \<open>Creating a node\<close>

definition read_node_config :: "('j, 'a) lib \<Rightarrow> 'j \<Rightarrow> exn + NodeConfig" where
  "read_node_config L data =
     bind_sum (lib_value_int L data ''num_replicas'' 4) (\<lambda>n.
     bind_sum (lib_value_int L data ''log_size'' 100) (\<lambda>l.
     bind_sum (lib_value_int L data ''checkpoint_interval'' 50) (\<lambda>k.
     bind_sum (lib_value_double L data ''vc_timeout'' 2) (\<lambda>t.
       Inr \<lparr>cfg_num_replicas = of_int n, cfg_log_size = of_int l, cfg_checkpoint_interval = of_int k,
            cfg_vc_timeout = t, cfg_tls_config = None\<rparr>))))"

text \<open>The address of the node itself: the first entry whose key reads as its id.\<close>

fun own_addr :: "('j, 'a) lib \<Rightarrow> u32 \<Rightarrow> (string \<times> 'j) list \<Rightarrow> exn + 'a" where
  "own_addr L node_id [] = Inr (lib_default_addr L)"
| "own_addr L node_id ((key, val) # items) =
     bind_sum (stoi key) (\<lambda>i.
       if i = sint node_id then net_addr L val else own_addr L node_id items)"

definition connect_replica :: "('j, 'a) lib \<Rightarrow> ('a, 'w) runtime \<Rightarrow> u32 \<Rightarrow> string \<times> 'j \<Rightarrow>
  'svc node \<times> 'a host \<Rightarrow> exn + ('svc node \<times> 'a host)" where
  "connect_replica L P node_id kv sh =
     bind_sum (stoi (fst kv)) (\<lambda>i. bind_sum (net_addr L (snd kv)) (\<lambda>addr.
       if of_int i \<noteq> node_id then Node_add_replica P (of_int i) addr sh else Inr sh))"

definition connect_client :: "('j, 'a) lib \<Rightarrow> ('a, 'w) runtime \<Rightarrow> string \<times> 'j \<Rightarrow>
  'svc node \<times> 'a host \<Rightarrow> exn + ('svc node \<times> 'a host)" where
  "connect_client L P kv sh =
     bind_sum (stoi (fst kv)) (\<lambda>i. bind_sum (net_addr L (snd kv)) (\<lambda>addr.
       Node_add_client P (of_int i) addr sh))"

definition entries :: "('j, 'a) lib \<Rightarrow> 'j \<Rightarrow> string \<Rightarrow> (string \<times> 'j) list" where
  "entries L data key = (if lib_contains L data key then lib_items L (lib_at L data key) else [])"

definition starting_line :: "('j, 'a) lib \<Rightarrow> u32 \<Rightarrow> 'a \<Rightarrow> string" where
  "starting_line L node_id addr = ''Node '' @ to_string node_id @ '' starting at '' @ lib_addr_text L addr @ endl"

definition create_node :: "('j, 'a) lib \<Rightarrow> ('a, 'w) runtime \<Rightarrow> store env \<Rightarrow> bool \<Rightarrow> string \<Rightarrow> u32 \<Rightarrow> 'w \<Rightarrow>
  exn + (store node \<times> 'a host) \<times> 'w" where
  "create_node L P E timer_running filename node_id w =
     (case lib_open L filename of
        None \<Rightarrow> Inl (RuntimeError (''Could not open config file: '' @ filename))
      | Some text \<Rightarrow>
          bind_sum (lib_parse L text) (\<lambda>data.
          bind_sum (read_node_config L data) (\<lambda>cfg.
          let node = Node_ctor E node_id cfg [] timer_running
          in bind_sum (Node_host P node_id cfg w) (\<lambda>(h, w).
             bind_sum (own_addr L node_id (entries L data ''replicas'')) (\<lambda>addr.
             let h = node_start addr (calling [Stdout (starting_line L node_id addr)] h)
             in bind_sum (for_each (connect_replica L P node_id) (entries L data ''replicas'') (node, h)) (\<lambda>sh.
                bind_sum (for_each (connect_client L P) (entries L data ''clients'') sh) (\<lambda>sh.
                  Inr (sh, w))))))))"

section \<open>The command line of the server\<close>

fun kv_store_args :: "string list \<Rightarrow> int \<times> string \<Rightarrow> exn + (int \<times> string)" where
  "kv_store_args [] st = Inr st"
| "kv_store_args [arg] st = Inr st"
| "kv_store_args (arg # val # args) (replica_id, config) =
     (if arg = ''--id'' then bind_sum (stoi val) (\<lambda>i. kv_store_args args (i, config))
      else if arg = ''--config'' then kv_store_args args (replica_id, val)
      else kv_store_args (val # args) (replica_id, config))"

text \<open>How \<open>main\<close> ends, or what it runs. The arguments are parsed outside of the \<open>try\<close> block.\<close>

datatype 'n outcome = Usage | NotOpened string | NotConfigured 'n u32 | Fatal exn | Uncaught exn | Running 'n

definition kv_store_main :: "('j, 'a) lib \<Rightarrow> ('a, 'w) runtime \<Rightarrow> store env \<Rightarrow> bool \<Rightarrow> string list \<Rightarrow> 'w \<Rightarrow>
  ((store node \<times> 'a host) \<times> 'w) outcome" where
  "kv_store_main L P E timer_running args w =
     (case kv_store_args args (- 1, []) of
        Inl e \<Rightarrow> Uncaught e
      | Inr (replica_id, config) \<Rightarrow>
          if replica_id = - 1 \<or> config = [] then Usage
          else case create_node L P E timer_running config (of_int replica_id) w of
                 Inl e \<Rightarrow> Fatal e
               | Inr ((node, h), w) \<Rightarrow> Running ((node, node_run h), w))"

text \<open>What \<open>main\<close> prints and returns. An exception that is not caught ends the program without a return value.\<close>

definition kv_store_report :: "(exn \<Rightarrow> string) \<Rightarrow> string \<Rightarrow> 'n outcome \<Rightarrow> console list \<times> int option" where
  "kv_store_report what prog r =
     (case r of
        Usage \<Rightarrow> ([Err (''Usage: '' @ prog @ '' --id <replica-id> --config <config-file>'' @ endl)], Some 1)
      | Fatal e \<Rightarrow> ([Err (''Fatal Error: '' @ what e @ endl)], Some 1)
      | Running n \<Rightarrow> ([], Some 0)
      | _ \<Rightarrow> ([], None))"

section \<open>The client program\<close>

definition print_usage :: "string \<Rightarrow> console" where
  "print_usage prog = Err (''Usage: '' @ prog @ '' --id <client-id> --config <config-file>'' @ endl)"

fun kv_client_args :: "string list \<Rightarrow> u32 \<times> string \<Rightarrow> exn + (u32 \<times> string)" where
  "kv_client_args [] st = Inr st"
| "kv_client_args [arg] st = Inr st"
| "kv_client_args (arg # val # args) (client_id, config_path) =
     (if arg = ''--id'' then bind_sum (stoi val) (\<lambda>i. kv_client_args args (of_int i, config_path))
      else if arg = ''--config'' then kv_client_args args (client_id, val)
      else kv_client_args (val # args) (client_id, config_path))"

definition read_client_config :: "('j, 'a) lib \<Rightarrow> 'j \<Rightarrow> exn + ClientConfig" where
  "read_client_config L data =
     (let node_cfg = (if lib_contains L data ''node'' then lib_at L data ''node'' else data)
      in bind_sum (lib_value_int L node_cfg ''num_replicas'' 4) (\<lambda>n.
         bind_sum (lib_value_int L node_cfg ''request_timeout'' 5000) (\<lambda>t.
           Inr \<lparr>ccfg_num_replicas = of_int n, ccfg_request_timeout = of_int t, ccfg_tls_config = None\<rparr>)))"

definition client_connect :: "('j, 'a) lib \<Rightarrow> ('a, 'w) runtime \<Rightarrow> string \<times> 'j \<Rightarrow>
  client \<times> 'a host \<Rightarrow> exn + (client \<times> 'a host)" where
  "client_connect L P kv sh =
     bind_sum (stoi (fst kv)) (\<lambda>i. bind_sum (net_addr L (snd kv)) (\<lambda>addr.
       Client_add_replica P (of_int i) addr sh))"

text \<open>The client with its address: constructed, started and connected.\<close>

definition connected_client :: "('j, 'a) lib \<Rightarrow> ('a, 'w) runtime \<Rightarrow> 'j \<Rightarrow> 'j \<Rightarrow> client \<times> 'a host \<Rightarrow>
  exn + (client \<times> 'a host)" where
  "connected_client L P data val = (\<lambda>(s, h).
     bind_sum (net_addr L val) (\<lambda>addr.
       for_each (client_connect L P) (entries L data ''replicas'') (s, client_start addr h)))"

text \<open>
  \<open>main\<close> up to the start of the command loop; \<open>timestamp_\<close> is not initialised. The return for a client that
  the file does not list destroys the client.
\<close>

definition kv_client_main :: "('j, 'a) lib \<Rightarrow> ('a, 'w) runtime \<Rightarrow> u64 \<Rightarrow> string list \<Rightarrow> 'w \<Rightarrow>
  ((client \<times> 'a host) \<times> 'w) outcome" where
  "kv_client_main L P timestamp args w =
     (case kv_client_args args (0xFFFFFFFF, []) of
        Inl e \<Rightarrow> Uncaught e
      | Inr (client_id, config_path) \<Rightarrow>
          if client_id = 0xFFFFFFFF \<or> config_path = [] then Usage
          else case lib_open L config_path of
                 None \<Rightarrow> NotOpened config_path
               | Some text \<Rightarrow>
                   case bind_sum (lib_parse L text) (\<lambda>data.
                        bind_sum (read_client_config L data) (\<lambda>cfg.
                        bind_sum (Client_host P client_id cfg w) (\<lambda>(h, w).
                          Inr (data, Client_ctor client_id cfg timestamp, h, w)))) of
                     Inl e \<Rightarrow> Uncaught e
                   | Inr (data, client, h, w) \<Rightarrow>
                       let key = to_string client_id
                       in if lib_contains L data ''clients'' \<and>
                             lib_contains L (lib_at L data ''clients'') key
                          then case connected_client L P data (lib_at L (lib_at L data ''clients'') key) (client, h) of
                                 Inl e \<Rightarrow> Uncaught e
                               | Inr sh \<Rightarrow> Running (sh, w)
                          else let (h, w) = client_destroy P (h, w)
                               in NotConfigured ((client, h), w) client_id)"

text \<open>
  The command loop over the lines of the standard input. \<open>call\<close> stands for \<open>client->invoke\<close>, which
  may also throw; the loop prints a line and a prompt for each call.
\<close>

datatype printed = Result string | Error exn

definition printed_text :: "(exn \<Rightarrow> string) \<Rightarrow> printed \<Rightarrow> console list" where
  "printed_text what p =
     [case p of Result r \<Rightarrow> Out (''Result: '' @ r @ endl) | Error e \<Rightarrow> Err (''Error: '' @ what e @ endl), Out ''> '']"

fun command_loop :: "(string \<Rightarrow> 's \<Rightarrow> (exn + string) \<times> 's) \<Rightarrow> string list \<Rightarrow> 's \<Rightarrow> printed list \<times> 's" where
  "command_loop call [] s = ([], s)"
| "command_loop call (line # lines) s =
     (if line = ''EXIT'' \<or> line = ''exit'' then ([], s)
      else if line = [] then command_loop call lines s
      else
        let (r, s) = call line s;
            p = (case r of Inr result \<Rightarrow> Result result | Inl e \<Rightarrow> Error e);
            (ps, s) = command_loop call lines s
        in (p # ps, s))"

text \<open>
  The rest of \<open>main\<close>: a thread dispatches the events of the client while the loop runs; then the client
  is stopped, the thread joined and the client destroyed.
\<close>

definition greeting :: "u32 \<Rightarrow> console list" where
  "greeting client_id = [Out (''KV Client '' @ to_string client_id @ '' started.'' @ endl),
     Out (''Commands: PUT <key> <value>, GET <key>, DELETE <key>, EXIT'' @ endl)]"

definition kv_client_session :: "('a, 'w) runtime \<Rightarrow> (exn \<Rightarrow> string) \<Rightarrow>
  (string \<Rightarrow> client \<Rightarrow> (exn + string) \<times> client) \<Rightarrow> string list \<Rightarrow> (client \<times> 'a host) \<times> 'w \<Rightarrow>
  console list \<times> (client \<times> 'a host) \<times> 'w" where
  "kv_client_session P what call lines = (\<lambda>((s, h), w).
     let h = client_dispatch (calling [ThreadStart] h);
         hello = greeting (cl_id s);
         (ps, s) = command_loop call lines s;
         h = calling [ThreadJoin] (client_stop s h);
         (h, w) = client_destroy P (h, w)
     in (hello @ concat (map (printed_text what) ps), (s, h), w))"

definition unlisted_line :: "u32 \<Rightarrow> console" where
  "unlisted_line i = Err (''Client ID '' @ to_string i @ '' not found in config clients list'' @ endl)"

definition kv_client_report :: "string \<Rightarrow> 'n outcome \<Rightarrow> console list \<times> int option" where
  "kv_client_report prog r =
     (case r of
        Usage \<Rightarrow> ([print_usage prog], Some 1)
      | NotOpened path \<Rightarrow> ([Err (''Could not open config file: '' @ path @ endl)], Some 1)
      | NotConfigured n i \<Rightarrow> ([unlisted_line i], Some 1)
      | Running n \<Rightarrow> ([], Some 0)
      | _ \<Rightarrow> ([], None))"

section \<open>The command lines\<close>

lemma stoi_show: "k < 2 ^ 31 \<Longrightarrow> stoi (show_nat k) = Inr (int k)"
proof -
  assume k: "k < 2 ^ 31"
  have ds: "list_all is_digit (show_nat k)" "digits_value (show_nat k) = int k" "show_nat k \<noteq> []"
    using show_nat_digits [of k] by simp_all
  then obtain c r where c: "show_nat k = c # r" "is_digit c" by (cases "show_nat k") auto
  have "skip_ws (show_nat k) = show_nat k" using c digit_not_space [of c] by (simp add: skip_ws_def)
  moreover have tw: "takeWhile is_digit r = r"
    using takeWhile_all [of is_digit r "[]"] ds(1) c(1) by simp
  ultimately show ?thesis
    using c ds k digit_not_space [of c] by (simp add: stoi_def Let_def tw)
qed

text \<open>The two options are read in either order, by both programs alike.\<close>

lemma arguments:
  assumes "k < 2 ^ 31"
  shows "kv_store_args [''--id'', show_nat k, ''--config'', path] st = Inr (int k, path)"
    and "kv_store_args [''--config'', path, ''--id'', show_nat k] st = Inr (int k, path)"
    and "kv_client_args [''--id'', show_nat k, ''--config'', path] st' = Inr (of_nat k, path)"
    and "kv_client_args [''--config'', path, ''--id'', show_nat k] st' = Inr (of_nat k, path)"
  using stoi_show [OF assms] by (cases st; cases st'; simp)+

text \<open>Both programs take the id -1 for a missing one.\<close>

lemma minus_one_is_missing:
  "kv_store_main L P E b [''--id'', ''-1'', ''--config'', path] w = Usage"
  "kv_client_main L P t [''--id'', ''-1'', ''--config'', path] w = Usage"
proof -
  have "stoi ''-1'' = Inr (- 1)" by code_simp
  then show "kv_store_main L P E b [''--id'', ''-1'', ''--config'', path] w = Usage"
    "kv_client_main L P t [''--id'', ''-1'', ''--config'', path] w = Usage"
    by (simp_all add: kv_store_main_def kv_client_main_def)
qed

text \<open>The server returns 0 only for a node whose event loop it has run.\<close>

lemma kv_store_status:
  "snd (kv_store_report what prog (kv_store_main L P E b args w)) = Some 0 \<longleftrightarrow>
     (\<exists>i path node h w'. kv_store_args args (- 1, []) = Inr (i, path) \<and> i \<noteq> - 1 \<and> path \<noteq> [] \<and>
        create_node L P E b path (of_int i) w = Inr ((node, h), w') \<and>
        kv_store_main L P E b args w = Running ((node, node_run h), w'))"
  by (auto simp: kv_store_main_def kv_store_report_def split: sum.splits prod.splits if_splits)

text \<open>The loop calls the client for the non-empty lines before the first \<open>EXIT\<close> or \<open>exit\<close>, in order.\<close>

definition commands :: "string list \<Rightarrow> string list" where
  "commands lines = filter (\<lambda>l. l \<noteq> []) (takeWhile (\<lambda>l. l \<noteq> ''EXIT'' \<and> l \<noteq> ''exit'') lines)"

lemma command_loop_calls:
  "snd (command_loop call lines s) = fold (\<lambda>l s. snd (call l s)) (commands lines) s \<and>
   length (fst (command_loop call lines s)) = length (commands lines)"
  by (induction call lines s rule: command_loop.induct)
    (auto simp: commands_def Let_def split: prod.splits)

section \<open>The node that is created\<close>

text \<open>The ids that the keys of the entries stand for.\<close>

definition ids :: "(string \<times> 'j) list \<Rightarrow> u32 set" where
  "ids items = {of_int i | i. \<exists>key val. (key, val) \<in> set items \<and> stoi key = Inr i}"

lemma ids_Cons: "stoi key = Inr i \<Longrightarrow> ids ((key, val) # items) = insert (of_int i) (ids items)"
  by (auto simp: ids_def)

definition only_connections :: "'svc node \<Rightarrow> 'svc node \<Rightarrow> bool" where
  "only_connections s t \<longleftrightarrow> t = s\<lparr>nd_peers := nd_peers t, nd_clients := nd_clients t\<rparr>"

lemma only_connections_trans:
  "only_connections s t \<Longrightarrow> only_connections t u \<Longrightarrow> only_connections s u"
  by (cases s; cases t; cases u) (simp add: only_connections_def)

lemma only_connections_add [simp]:
  "only_connections s (add_replica i c s)" "only_connections s (add_client i c s)" "only_connections s s"
  by (simp_all add: only_connections_def add_replica_def add_client_def)

text \<open>The calls of a host that establish connections.\<close>

fun connecting_call :: "'a host_call \<Rightarrow> bool" where
  "connecting_call (ConnectSync a) = True"
| "connecting_call (LogLine l) = True"
| "connecting_call _ = False"

definition only_connects :: "'a host \<Rightarrow> 'a host \<Rightarrow> bool" where
  "only_connects h h' \<longleftrightarrow> (ho_logger h \<noteq> None \<longrightarrow> ho_logger h' = ho_logger h \<and>
     (\<exists>cs. ho_calls h' = ho_calls h @ cs \<and> list_all connecting_call cs))"

lemma only_connects_trans: "only_connects h h' \<Longrightarrow> only_connects h' h'' \<Longrightarrow> only_connects h h''"
  by (fastforce simp: only_connects_def)

lemma only_connects_simps [simp]:
  "only_connects h h" "only_connects h (log_info l (calling [ConnectSync a] h))"
  by (auto simp: only_connects_def log_info_def)

lemma added_replica:
  assumes "Node_add_replica P i addr (s, h) = Inr (t, h')"
  shows "only_connections s t \<and> only_connects h h' \<and> nd_clients t = nd_clients s \<and>
    fst ` set (nd_peers t) = fst ` set (nd_peers s) \<union> ({i} - {nd_id s})"
proof (cases "i = nd_id s")
  case False
  with assms obtain c where "t = add_replica i c s"
    "h' = log_info (connected_line P ''REPLICA'' i addr) (calling [ConnectSync addr] h)"
    by (auto simp: Node_add_replica_def bind_sum_Inr)
  with False show ?thesis by (simp add: add_replica_def [of i c s] dom_update) (simp add: only_connections_def)
qed (use assms in \<open>simp add: Node_add_replica_def\<close>)

lemma added_client:
  assumes "Node_add_client P i addr (s, h) = Inr (t, h')"
  shows "only_connections s t \<and> only_connects h h' \<and> nd_peers t = nd_peers s \<and>
    fst ` set (nd_clients t) = insert i (fst ` set (nd_clients s))"
proof -
  from assms obtain c where "t = add_client i c s"
    "h' = log_info (connected_line P ''CLIENT'' i addr) (calling [ConnectSync addr] h)"
    by (auto simp: Node_add_client_def bind_sum_Inr)
  then show ?thesis by (simp add: add_client_def [of i c s] dom_update) (simp add: only_connections_def)
qed

lemma only_connections_id: "only_connections s t \<Longrightarrow> nd_id t = nd_id s"
  by (metis node.select_convs(1) node.surjective node.update_convs(4) node.update_convs(6) only_connections_def)

lemma connected_replica:
  assumes "connect_replica L P node_id (key, val) (s, h) = Inr (t, h')" and "nd_id s = node_id"
  obtains i where "stoi key = Inr i" "only_connections s t" "only_connects h h'" "nd_clients t = nd_clients s"
    "fst ` set (nd_peers t) = fst ` set (nd_peers s) \<union> ({of_int i} - {node_id})"
proof -
  from assms(1) obtain i addr where i: "stoi key = Inr i"
    and add: "(if of_int i \<noteq> node_id then Node_add_replica P (of_int i) addr (s, h) else Inr (s, h)) = Inr (t, h')"
    by (auto simp: connect_replica_def bind_sum_Inr)
  show thesis
  proof (cases "of_int i = node_id")
    case True
    with add i show thesis by (intro that [of i]) simp_all
  next
    case False
    with add have "Node_add_replica P (of_int i) addr (s, h) = Inr (t, h')" by simp
    from added_replica [OF this] i assms(2) show thesis by (intro that [of i]) simp_all
  qed
qed

lemma connect_replicas:
  "for_each (connect_replica L P node_id) items (s, h) = Inr (t, h') \<Longrightarrow> nd_id s = node_id \<Longrightarrow>
     only_connections s t \<and> only_connects h h' \<and> nd_clients t = nd_clients s \<and>
     fst ` set (nd_peers t) = fst ` set (nd_peers s) \<union> (ids items - {node_id})"
proof (induction items arbitrary: s h)
  case Nil
  then show ?case by (simp add: ids_def)
next
  case (Cons kv items)
  obtain key val where kv: "kv = (key, val)" by (cases kv)
  from Cons.prems(1) obtain s1 h1 where first: "connect_replica L P node_id (key, val) (s, h) = Inr (s1, h1)"
    and rest: "for_each (connect_replica L P node_id) items (s1, h1) = Inr (t, h')"
    by (auto simp: kv bind_sum_Inr)
  from connected_replica [OF first Cons.prems(2)] obtain i where i: "stoi key = Inr i"
    and one: "only_connections s s1" "only_connects h h1" "nd_clients s1 = nd_clients s"
      "fst ` set (nd_peers s1) = fst ` set (nd_peers s) \<union> ({of_int i} - {node_id})" .
  have "nd_id s1 = node_id" using only_connections_id [OF one(1)] Cons.prems(2) by simp
  from Cons.IH [OF rest this] one only_connections_trans [of s s1 t] only_connects_trans [of h h1 h']
  show ?case by (auto simp: kv ids_Cons [OF i])
qed

lemma connect_clients:
  "for_each (connect_client L P) items (s, h) = Inr (t, h') \<Longrightarrow>
     only_connections s t \<and> only_connects h h' \<and> nd_peers t = nd_peers s \<and>
     fst ` set (nd_clients t) = fst ` set (nd_clients s) \<union> ids items"
proof (induction items arbitrary: s h)
  case Nil
  then show ?case by (simp add: ids_def)
next
  case (Cons kv items)
  obtain key val where kv: "kv = (key, val)" by (cases kv)
  from Cons.prems obtain i s1 h1 where i: "stoi key = Inr i"
    and one: "only_connections s s1 \<and> only_connects h h1 \<and> nd_peers s1 = nd_peers s \<and>
      fst ` set (nd_clients s1) = insert (of_int i) (fst ` set (nd_clients s))"
    and rest: "for_each (connect_client L P) items (s1, h1) = Inr (t, h')"
    by (simp add: kv connect_client_def [of L P "(key, val)"] bind_sum_Inr) (metis added_client)
  from Cons.IH [OF rest] one only_connections_trans [of s s1 t] only_connects_trans [of h h1 h']
  show ?case by (auto simp: kv ids_Cons [OF i])
qed

text \<open>
  C39. A node that \<open>create_node\<close> returns is the freshly constructed one for the configuration read
  from the file, connected to every replica of the file except itself and to every client of
  it. It was started before the first of these connections was made, as the comments at
  \<open>add_replica\<close> and \<open>add_client\<close> demand, and its logger was there whenever it was used.
\<close>

theorem create_node_connects:
  assumes "create_node L P E b filename node_id w = Inr ((node, h), w')" and "lib_open L filename = Some text"
    and "lib_parse L text = Inr data"
  shows "\<exists>cfg h0 addr cs. read_node_config L data = Inr cfg \<and> Node_host P node_id cfg w = Inr (h0, w') \<and>
    only_connections (Node_ctor E node_id cfg [] b) node \<and>
    fst ` set (nd_peers node) = ids (entries L data ''replicas'') - {node_id} \<and>
    fst ` set (nd_clients node) = ids (entries L data ''clients'') \<and>
    ho_calls h = ho_calls h0 @ [Stdout (starting_line L node_id addr), NetStart, NetListen addr] @ cs \<and>
    list_all connecting_call cs"
proof -
  from assms obtain cfg h0 addr sh where cfg: "read_node_config L data = Inr cfg"
    and host: "Node_host P node_id cfg w = Inr (h0, w')"
    and replicas: "for_each (connect_replica L P node_id) (entries L data ''replicas'')
      (Node_ctor E node_id cfg [] b, node_start addr (calling [Stdout (starting_line L node_id addr)] h0)) = Inr sh"
    and clients: "for_each (connect_client L P) (entries L data ''clients'') sh = Inr (node, h)"
    by (auto simp: create_node_def bind_sum_Inr Let_def split: prod.splits)
  obtain node' h' where sh: "sh = (node', h')" by (cases sh)
  have new: "nd_id (Node_ctor E node_id cfg [] b) = node_id" "nd_peers (Node_ctor E node_id cfg [] b) = []"
    "nd_clients (Node_ctor E node_id cfg [] b) = []" by (simp_all add: Node_ctor_def)
  note r = connect_replicas [OF replicas [unfolded sh] new(1)] and c = connect_clients [OF clients [unfolded sh]]
  let ?h = "node_start addr (calling [Stdout (starting_line L node_id addr)] h0)"
  from r c have "only_connects (?h) h'" "only_connects h' h" by simp_all
  then have "only_connects (?h) h" by (rule only_connects_trans)
  moreover have "ho_logger (?h) \<noteq> None"
    using host by (auto simp: Node_host_def open_logger_def node_start_def bind_sum_Inr split: prod.splits)
  ultimately obtain cs where "ho_calls h = ho_calls h0 @ [Stdout (starting_line L node_id addr), NetStart, NetListen addr] @ cs" "list_all connecting_call cs"
    by (auto simp: only_connects_def node_start_def)
  moreover from r c have "only_connections (Node_ctor E node_id cfg [] b) node'" "only_connections node' node"
    by simp_all
  then have "only_connections (Node_ctor E node_id cfg [] b) node" by (rule only_connections_trans)
  ultimately show ?thesis
    using r c new cfg host by (intro exI conjI) simp_all
qed

text \<open>
  A client never gets a connection to the replica that has its own id, whatever the file says; the example
  file gives the id 0 to a client and to the first primary.
\<close>

lemma client_skips_own_id:
  "for_each (client_connect L P) items (s, h) = Inr (t, h') \<Longrightarrow> cl_id s \<notin> fst ` set (cl_replicas s) \<Longrightarrow>
     cl_id t = cl_id s \<and> cl_id s \<notin> fst ` set (cl_replicas t)"
proof (induction items arbitrary: s h)
  case (Cons kv items)
  from Cons.prems(1) obtain i addr s1 h1 where add: "Client_add_replica P i addr (s, h) = Inr (s1, h1)"
    and rest: "for_each (client_connect L P) items (s1, h1) = Inr (t, h')"
    by (auto simp: client_connect_def [of L P kv] bind_sum_Inr)
  have "cl_id s1 = cl_id s \<and> cl_id s \<notin> fst ` set (cl_replicas s1)"
  proof (cases "i = cl_id s")
    case False
    with add obtain c where "s1 = client_add_replica i c s"
      by (auto simp: Client_add_replica_def bind_sum_Inr)
    with False Cons.prems(2) show ?thesis by (simp add: client_add_replica_def [of i c s] dom_update)
  qed (use add Cons.prems(2) in \<open>simp add: Client_add_replica_def\<close>)
  with Cons.IH [OF rest] show ?case by simp
qed simp

section \<open>An example\<close>

text \<open>A document of the shape of \<open>examples/kv_store/config.json\<close>, with the library it is read by.\<close>

datatype json = Num int | Text string | Obj "(string \<times> json) list"

fun members :: "json \<Rightarrow> (string \<times> json) list" where
  "members (Obj kvs) = kvs"
| "members j = []"

definition demo_lib :: "json \<Rightarrow> (json, string) lib" where
  "demo_lib doc =
     \<lparr>lib_open = (\<lambda>name. if name = ''config.json'' then Some [] else None), lib_parse = (\<lambda>_. Inr doc),
      lib_value_int = (\<lambda>j k d. case map_of (members j) k of
        None \<Rightarrow> Inr d | Some (Num i) \<Rightarrow> Inr i | Some _ \<Rightarrow> Inl (LibraryError ''type'')),
      lib_value_double = (\<lambda>j k d. case map_of (members j) k of
        None \<Rightarrow> Inr d | Some (Num i) \<Rightarrow> Inr (of_int i) | Some _ \<Rightarrow> Inl (LibraryError ''type'')),
      lib_contains = (\<lambda>j k. map_of (members j) k \<noteq> None),
      lib_at = (\<lambda>j k. case map_of (members j) k of None \<Rightarrow> Obj [] | Some v \<Rightarrow> v),
      lib_items = members,
      lib_string = (\<lambda>j. case j of Text s \<Rightarrow> Inr s | _ \<Rightarrow> Inl (LibraryError ''type'')),
      lib_addr = Inr, lib_default_addr = [], lib_addr_text = (\<lambda>a. a)\<rparr>"

definition demo_doc :: json where
  "demo_doc = Obj
     [(''node'', Obj [(''num_replicas'', Num 7), (''log_size'', Num 200)]),
      (''replicas'', Obj [(''0'', Text ''a''), (''1'', Text ''b''), (''2'', Text ''c''), (''3'', Text ''d'')]),
      (''clients'', Obj [(''0'', Text ''x'')])]"

definition app_env :: "store env" where
  "app_env = \<lparr>env_stream = mute_stream, env_hash_request = (\<lambda>_. 1), env_hash_string = (\<lambda>_. 2),
     env_null_digest = 0, env_service = kv_service (\<lambda>_. 3), env_conn_ok = (\<lambda>_. True),
     env_elapsed = (\<lambda>_ _. 0)\<rparr>"

lemma demo_keys:
  "stoi ''0'' = Inr 0" "stoi ''1'' = Inr 1" "stoi ''2'' = Inr 2" "stoi ''3'' = Inr 3"
  by code_simp+

definition app_runtime :: "(string, string list) runtime" where
  "app_runtime = \<lparr>rt_expose = (\<lambda>_ w. Inr w),
     rt_create_logger = (\<lambda>name _ w. if name \<in> set w then Inl (LibraryError name) else Inr (name # w)),
     rt_drop_logger = (\<lambda>name w. removeAll name w), rt_connect = (\<lambda>a. Inr (length a)),
     rt_ip = (\<lambda>_. 0), rt_port = (\<lambda>_. 0)\<rparr>"

lemma demo_created:
  "\<exists>node h w. create_node (demo_lib demo_doc) app_runtime app_env False ''config.json'' 2 [] = Inr ((node, h), w)"
  by (simp add: create_node_def read_node_config_def connect_replica_def connect_client_def net_addr_def
      entries_def demo_lib_def demo_doc_def demo_keys Node_host_def open_logger_def Node_add_replica_def
      Node_add_client_def app_runtime_def split: prod.split)

theorem create_node_connects_witness:
  "\<exists>node h w. create_node (demo_lib demo_doc) app_runtime app_env False ''config.json'' 2 [] = Inr ((node, h), w) \<and>
     fst ` set (nd_peers node) = ids (entries (demo_lib demo_doc) demo_doc ''replicas'') - {2}"
proof -
  from demo_created obtain node h w where
    node: "create_node (demo_lib demo_doc) app_runtime app_env False ''config.json'' 2 [] = Inr ((node, h), w)" by blast
  have "lib_open (demo_lib demo_doc) ''config.json'' = Some []"
    "lib_parse (demo_lib demo_doc) [] = Inr demo_doc" by (simp_all add: demo_lib_def)
  from create_node_connects [OF node this] node show ?thesis by blast
qed

text \<open>
  The server reads its parameters from the root of the document only. For a document that,
  like the example file, has them in the section \<open>node\<close>, it runs with the built-in defaults
  whatever the section says, given that \<open>value\<close> of the library returns the default for a missing
  key; the client reads the section.
\<close>

lemma node_section_ignored:
  assumes "\<forall>key d. \<not> lib_contains L data key \<longrightarrow> lib_value_int L data key d = Inr d"
    and "\<forall>key d. \<not> lib_contains L data key \<longrightarrow> lib_value_double L data key d = Inr d"
    and "\<forall>key \<in> {''num_replicas'', ''log_size'', ''checkpoint_interval'', ''vc_timeout''}.
      \<not> lib_contains L data key"
    and "lib_contains L data ''node''"
    and "lib_value_int L (lib_at L data ''node'') ''num_replicas'' 4 = Inr n"
    and "lib_value_int L (lib_at L data ''node'') ''request_timeout'' 5000 = Inr t"
  shows "read_node_config L data = Inr \<lparr>cfg_num_replicas = 4, cfg_log_size = 100,
      cfg_checkpoint_interval = 50, cfg_vc_timeout = 2, cfg_tls_config = None\<rparr> \<and>
    read_client_config L data = Inr \<lparr>ccfg_num_replicas = of_int n, ccfg_request_timeout = of_int t, ccfg_tls_config = None\<rparr>"
  using assms by (simp add: read_node_config_def read_client_config_def)

end
