(* ===== verification/Lost_Requests.thy ===== *)
theory Lost_Requests
  imports New_View Node_Votes Scenarios
begin

text \<open>
  What a view change does to a request that was prepared but not committed in view 0. The new primary
  proposes the null request for its number, the replicas that hold the request reject the
  proposal and stay with the entry of the old view, and the new primary does not use the
  number again. The run at the end takes four replicas, one of which never says anything, through such a
  view change: the number of the request remains open, and a later request that all others
  commit is not executed.
\<close>

section \<open>Entries that a proposal leaves alone\<close>

lemma try_prepare_other: "k \<noteq> n \<Longrightarrow> std_find (nd_reqlog (try_prepare E k s)) n = std_find (nd_reqlog s) n"
  by (simp add: try_prepare_def try_commit_def Let_def)

text \<open>A proposal for another number, or for the number with another digest.\<close>

lemma accept_leaves_entry:
  assumes "std_find (nd_reqlog s) n = Some e" and "re_has_preprepare e"
    and "pp_seq_num m = n \<Longrightarrow> pp_req_digest m \<noteq> re_digest e"
  shows "std_find (nd_reqlog (accept_preprepare E m s)) n = Some e"
proof (cases "pp_seq_num m = n")
  case True
  have "entry E n s = e" using assms(1) by (simp add: entry_def)
  with True assms show ?thesis by (auto simp: accept_preprepare_eq)
next
  case False
  with assms(1) show ?thesis
    by (simp add: accept_preprepare_eq try_prepare_other accepted_state_def Let_def)
qed

lemma preprepare_leaves_entry:
  assumes "std_find (nd_reqlog s) n = Some e" and "re_has_preprepare e"
    and "pp_seq_num m = n \<Longrightarrow> pp_req_digest m \<noteq> re_digest e"
  shows "std_find (nd_reqlog (on_preprepare_impl E m c b s)) n = Some e"
  by (cases rule: on_preprepare_impl_cases [of E m c b s])
    (simp_all add: assms(1) accept_leaves_entry [OF _ assms(2,3)])

lemma replay_leaves_entry:
  assumes "std_find (nd_reqlog s) n = Some e" and "re_has_preprepare e"
    and "\<forall>pp \<in> set pps. pp_seq_num pp = n \<longrightarrow> pp_req_digest pp \<noteq> re_digest e"
  shows "std_find (nd_reqlog (replay E c pps s)) n = Some e"
  using assms(1,3)
proof (induction pps arbitrary: s)
  case (Cons pp pps)
  then have "std_find (nd_reqlog (on_preprepare_impl E pp c True s)) n = Some e"
    by (intro preprepare_leaves_entry [OF _ assms(2)]) simp_all
  with Cons show ?case by simp
qed simp

lemma null_proposed:
  assumes "new_view_set E v V = Some O'" and "choose_proof n V = None" and "pp \<in> set O'" and "pp_seq_num pp = n"
  shows "pp_req_digest pp = env_hash_string E []"
  using assms by (auto simp: new_view_set_def new_preprepare_def PrePrepareMsg_ctor_def Let_def split: option.splits)

section \<open>A run in which a request is lost\<close>

text \<open>The replicas 0, 1 and 2 talk to each other; the primary of a view sends no prepare messages.\<close>

definition pairs :: "(u32 \<times> u32) list" where
  "pairs = [(i, j). i \<leftarrow> [0, 1, 2], j \<leftarrow> [0, 1, 2], i \<noteq> j]"

definition connecting :: "(u32 \<times> event) list" where
  "connecting = [(i, AddReplica j (unat j)). (i, j) \<leftarrow> pairs] @
     [(i, Connection (unat j) True). (i, j) \<leftarrow> pairs] @ [(i, hello j). (i, j) \<leftarrow> pairs]"

definition preparing :: "u32 \<Rightarrow> u64 \<Rightarrow> u256 \<Rightarrow> u32 \<Rightarrow> (u32 \<times> event) list" where
  "preparing v n d p =
     [(i, Deliver (unat j) (WPrepare (PrepareMsg_ctor mute_stream v n d j))). (i, j) \<leftarrow> pairs, j \<noteq> p]"

definition committing :: "u32 \<Rightarrow> u64 \<Rightarrow> u256 \<Rightarrow> (u32 \<times> event) list" where
  "committing v n d =
     [(i, Deliver (unat j) (WCommit (CommitMsg_ctor mute_stream v n d j))). (i, j) \<leftarrow> pairs]"

text \<open>The view change: every replica reports that it has prepared the request in view 0.\<close>

definition leaving :: "u32 \<Rightarrow> ViewChangeMsg" where
  "leaving i = ViewChangeMsg_ctor mute_stream 1 0 i [] [PrepareProof_ctor 0 1 3]"

definition null_proposal :: PrePrepareMsg where
  "null_proposal = PrePrepareMsg_ctor mute_stream 1 1 100 (RequestMsg_ctor mute_stream [] 0 0)"

definition new_view :: NewViewMsg where
  "new_view = NewViewMsg_ctor mute_stream 1 (map leaving [0, 1, 2]) [null_proposal]"

definition changing_view :: "(u32 \<times> event) list" where
  "changing_view = [(i, Timeout). i \<leftarrow> [0, 1, 2]] @
     [(1, Deliver 0 (WViewChange (leaving 0))), (1, Deliver 2 (WViewChange (leaving 2)))]"

definition later_request :: RequestMsg where
  "later_request = RequestMsg_ctor mute_stream ''x'' 2 7"

definition before_new_view :: "(u32 \<times> event) list" where
  "before_new_view = connecting @ (0, ask ''op'') # [(i, propose 3 ''op''). i \<leftarrow> [1, 2]] @
     preparing 0 1 3 0 @ changing_view"

definition stuck_run :: "(u32 \<times> event) list" where
  "stuck_run = before_new_view @ [(i, Deliver 1 (WNewView new_view)). i \<leftarrow> [0, 2]] @ committing 0 1 3 @
     (1, Deliver 9 (WRequest later_request)) #
     [(i, Deliver 1 (WPrePrepare (PrePrepareMsg_ctor mute_stream 1 2 2 later_request))). i \<leftarrow> [0, 2]] @
     preparing 1 2 2 1 @ committing 1 2 2"

definition stuck_state :: "nat cluster" where
  "stuck_state = play demo_env stuck_run demo_node"

lemma stuck_truthful: "truthful demo_env stuck_run demo_node"
  by code_simp

lemma stuck_playable: "playable demo_env 1 [3] stuck_run demo_node"
  by code_simp

lemma stuck_reachable: "reachable demo_env 1 {3} demo_config stuck_state"
  using play_reachable [OF stuck_playable demo_start] by (simp add: stuck_state_def)

definition outcome :: "'svc node \<Rightarrow> u32 \<times> bool \<times> (u64 \<times> u256) list \<times> (u64 \<times> u256) list \<times> u64" where
  "outcome s = (nd_view s, nd_view_changing s, voted_list s, committed_list s, nd_last_exec s)"

lemma stuck_end: "list_all (\<lambda>i. outcome (stuck_state i) = (1, False, [(1, 3), (2, 2)], [(2, 2)], 0)) [0, 1, 2]"
  by code_simp

text \<open>The replica 2 when it gets the new-view message.\<close>

definition holding_state :: "nat node" where
  "holding_state = play demo_env before_new_view demo_node 2"

lemma holding_entry:
  "map_option (\<lambda>e. (re_has_preprepare e, re_stage e, re_digest e)) (std_find (nd_reqlog holding_state) 1) =
     Some (True, PREPARED, 3)"
  by code_simp

section \<open>The property\<close>

text \<open>
  C15. A request that was prepared in view 0 only does not survive a view change. If all proofs for a number
  that the view-change messages carry are of view 0, then a replica that holds a request under this
  number (with a digest other than that of the empty string) keeps the entry exactly as it
  was when it processes the new-view message: it takes no part in deciding the number in the
  new view; and if the new primary has an entry under the number, it keeps it, too, and goes on
  with larger numbers. Operations execute in order, so nothing after the number executes; in
  the run of the witness all replicas but one that is silent follow the protocol, all their
  messages arrive, and a later request that they all commit is not executed.
\<close>

theorem prepared_in_view_0_lost:
  assumes "new_view_set E v V = Some O'" and "\<forall>p \<in> set (proofs V). pf_seq_num p = n \<longrightarrow> pf_view p = 0"
    and "std_find (nd_reqlog q) n = Some e" and "re_has_preprepare e" and "re_digest e \<noteq> env_hash_string E []"
    and "std_wf (nd_reqlog s)" and "std_find (nd_reqlog s) n = Some e'"
  shows "std_find (nd_reqlog (on_newview E (NewViewMsg_ctor (env_stream E) (trunc v) V O') c q)) n = Some e \<and>
    std_find (nd_reqlog (enter_view E v V O' s)) n = Some e' \<and> n \<le> nd_seq_num (enter_view E v V O' s)"
proof -
  let ?nv = "NewViewMsg_ctor (env_stream E) (trunc v) V O'"
  have none: "choose_proof n V = None" using assms(2) by (simp add: choose_proof_None)
  have digests: "\<forall>pp \<in> set O'. pp_seq_num pp = n \<longrightarrow> pp_req_digest pp \<noteq> re_digest e"
    using null_proposed [OF assms(1) none] assms(5) by auto
  have "std_find (nd_reqlog (on_newview E ?nv c q)) n = Some e"
    by (cases rule: on_newview_cases [of E ?nv c q])
      (simp_all add: assms(3) replay_leaves_entry [OF _ assms(4) digests])
  moreover have "n \<le> nd_seq_num (enter_view E v V O' s)"
    using std.last_key_max [OF assms(6,7)] assms(7)
    by (auto simp: enter_view_def recompute_highest_sequence_def Let_def le_max_iff_disj)
  ultimately show ?thesis using assms(7) by simp
qed

theorem prepared_in_view_0_lost_witness:
  "truthful demo_env stuck_run demo_node \<and> reachable demo_env 1 {3} demo_config stuck_state \<and>
   correct 1 {3} = set [0, 1, 2] \<and>
   list_all (\<lambda>i. nd_view (stuck_state i) = 1 \<and> (1, 3) \<in> voted (stuck_state i) \<and>
      (2, 2) \<in> committed (stuck_state i) \<and> nd_last_exec (stuck_state i) = 0) [0, 1, 2] \<and>
   (\<exists>e. std_find (nd_reqlog (on_newview demo_env new_view 1 holding_state)) 1 = Some e \<and> re_stage e = PREPARED)"
proof -
  from holding_entry obtain e where e: "std_find (nd_reqlog holding_state) 1 = Some e" "re_has_preprepare e"
    "re_stage e = PREPARED" "re_digest e = 3" by (auto split: option.splits)
  have V: "new_view_set demo_env 1 (map leaving [0, 1, 2]) = Some [null_proposal]" by code_simp
  have proofs: "\<forall>p \<in> set (proofs (map leaving [0, 1, 2])). pf_seq_num p = 1 \<longrightarrow> pf_view p = 0" by code_simp
  have wf: "std_wf (nd_reqlog holding_state)" by code_simp
  have "re_digest e \<noteq> env_hash_string demo_env []" by (simp add: e demo_env_def)
  from prepared_in_view_0_lost [OF V proofs e(1,2) this wf e(1), of 1] e(3)
  have "\<exists>e. std_find (nd_reqlog (on_newview demo_env new_view 1 holding_state)) 1 = Some e \<and> re_stage e = PREPARED"
    by (simp add: new_view_def demo_env_def)
  moreover have "list_all (\<lambda>i. nd_view (stuck_state i) = 1 \<and> (1, 3) \<in> voted (stuck_state i) \<and>
      (2, 2) \<in> committed (stuck_state i) \<and> nd_last_exec (stuck_state i) = 0) [0, 1, 2]"
    using stuck_end by (simp add: outcome_def set_voted_list [symmetric] set_committed_list [symmetric])
  ultimately show ?thesis using stuck_truthful stuck_reachable correct_demo(2) by simp
qed

end
