(* ===== verification/Lagging_Replicas.thy ===== *)
theory Lagging_Replicas
  imports Scenarios
begin

text \<open>
  Replicas that fall behind. A commit message that arrives before the pre-prepare is not counted, and a
  checkpoint that becomes stable erases the entries up to it whether they have been executed or not. The
  code has no state transfer: a replica that has not executed the operations before the low watermark
  never executes anything again. A run shows how a replica gets there although nobody is faulty, nothing is lost
  and every connection keeps the order.
\<close>

section \<open>Steps without execution\<close>

definition still :: "'svc node \<Rightarrow> 'svc node \<Rightarrow> bool" where
  "still s t \<longleftrightarrow> nd_last_exec t = nd_last_exec s \<and> history t = history s \<and> nd_service t = nd_service s"

lemma still_trans: "still s t \<Longrightarrow> still t u \<Longrightarrow> still s u"
  by (simp add: still_def)

lemma still_idle: "idle s t \<Longrightarrow> still s t"
  by (simp add: idle_def still_def)

text \<open>The next number to execute is not in the log.\<close>

definition gap :: "'svc node \<Rightarrow> 'svc node \<Rightarrow> bool" where
  "gap s t \<longleftrightarrow> nd_last_exec s + 1 \<notin> log_keys t"

lemma try_execute_gap: "gap s s \<Longrightarrow> try_execute E s = s"
  by (simp add: gap_def try_execute_def log_keys_def domIff)

lemma still_try_commit:
  assumes "gap s (try_commit E n s)"
  shows "still s (try_commit E n s)"
proof (cases "commit_ready E n s")
  case True
  let ?t = "update_entry E n (\<lambda>e. e\<lparr>re_stage := COMMITTED\<rparr>) (emit [committed_line (entry E n s),
     Metric (ObservePhase ''commit'' (env_elapsed E ''commit'' n))] s)"
  have eq: "try_commit E n s = try_execute E ?t"
    using True by (simp add: try_commit_def commit_ready_def committed_line_def Let_def)
  have "gap ?t ?t" using assms by (simp add: eq gap_def log_keys_def)
  then show ?thesis unfolding eq by (simp add: try_execute_gap still_def committed_line_def)
next
  case False
  then have "try_commit E n s = s" by (auto simp: try_commit_def commit_ready_def Let_def)
  then show ?thesis by (simp add: still_def)
qed

lemma still_try_prepare:
  assumes "gap s (try_prepare E n s)"
  shows "still s (try_prepare E n s)"
proof (cases "prepare_ready E n s")
  case True
  have still: "still s (prepared_state E n s)" by (simp add: still_def prepared_state_def Let_def)
  with assms True still_try_commit [of "prepared_state E n s" E n] show ?thesis
    by (auto simp: try_prepare_eq gap_def still_def)
qed (simp add: try_prepare_eq still_def)

lemma still_preprepare_impl:
  assumes "gap s (on_preprepare_impl E m c b s)"
  shows "still s (on_preprepare_impl E m c b s)"
proof (cases rule: on_preprepare_impl_cases [of E m c b s])
  case (1 acts)
  then show ?thesis by (simp add: still_def execs_noise)
next
  case (2 acts)
  have "still s (accepted_state E m (emit acts s))" "still s (emit acts s)"
    using 2 by (simp_all add: still_def execs_noise accepted_state_def Let_def)
  with assms 2(1) show ?thesis
    using still_try_prepare [of "accepted_state E m (emit acts s)" E "pp_seq_num m"]
    by (auto simp: accept_preprepare_eq still_def gap_def)
qed

lemma log_keys_grows: "log_grows s t \<Longrightarrow> log_keys s \<subseteq> log_keys t"
  by (force simp: log_grows_def log_keys_def)

lemma log_keys_preprepare: "log_keys s \<subseteq> log_keys (on_preprepare_impl E m c b s)"
proof (cases rule: on_preprepare_impl_cases [of E m c b s])
  case (2 acts)
  let ?t = "accepted_state E m (emit acts s)"
  have "log_keys s \<subseteq> log_keys ?t" by (auto simp: accepted_state_def log_keys_def Let_def)
  moreover note log_keys_grows [OF log_grows_try_prepare, of ?t E "pp_seq_num m"]
  ultimately show ?thesis by (auto simp: 2(1) accept_preprepare_eq)
qed simp

lemma still_replay: "gap s (replay E c pps s) \<Longrightarrow> still s (replay E c pps s)"
proof (induction pps arbitrary: s)
  case (Cons pp pps)
  let ?t = "on_preprepare_impl E pp c True s"
  have "log_keys t \<subseteq> log_keys (replay E c pps t)" for t :: "'a node"
    using log_keys_preprepare by (induction pps arbitrary: t) (simp, fastforce)
  with Cons.prems have "gap s ?t" by (auto simp: gap_def)
  then have "still s ?t" by (rule still_preprepare_impl)
  moreover from this Cons.prems have "gap ?t (replay E c pps ?t)" by (simp add: gap_def still_def)
  ultimately show ?case using Cons.IH by (auto intro: still_trans)
qed (simp add: still_def)

lemma still_prepare:
  assumes "gap s (on_prepare E m c s)"
  shows "still s (on_prepare E m c s)"
proof -
  let ?n = "pr_seq_num m"
  let ?t = "touch_entry E ?n (emit [count_msg (WPrepare m) False] s)"
  let ?u = "update_entry E ?n (\<lambda>e. e\<lparr>re_prepares := insert (pr_replica_id m) (re_prepares e)\<rparr>)
     (emit [Log (LogPrepareAccepted (re_digest (entry E ?n ?t)) (pr_req_digest m))] ?t)"
  have "still s (try_prepare E ?n ?u)" if "gap s (try_prepare E ?n ?u)"
    using that still_try_prepare [of ?u E ?n] by (simp add: gap_def still_def)
  moreover have "on_prepare E m c s = try_prepare E ?n ?u \<or> still s (on_prepare E m c s)"
    by (simp add: on_prepare_def still_def Let_def)
  ultimately show ?thesis using assms by metis
qed

lemma still_commit:
  assumes "gap s (on_commit E m s)"
  shows "still s (on_commit E m s)"
proof -
  let ?n = "cm_seq_num m"
  let ?u = "update_entry E ?n (\<lambda>e. e\<lparr>re_commits := insert (cm_replica_id m) (re_commits e)\<rparr>)
     (touch_entry E ?n (emit [count_msg (WCommit m) False] s))"
  have "still s (try_commit E ?n ?u)" if "gap s (try_commit E ?n ?u)"
    using that still_try_commit [of ?u E ?n] by (simp add: gap_def still_def)
  moreover have "on_commit E m s = try_commit E ?n ?u \<or> still s (on_commit E m s)"
    by (simp add: on_commit_def still_def Let_def)
  ultimately show ?thesis using assms by metis
qed

lemma still_newview:
  assumes "gap s (on_newview E m c s)"
  shows "still s (on_newview E m c s)"
proof (cases rule: on_newview_cases [of E m c s])
  case (1 acts)
  then show ?thesis by (simp add: still_def execs_noise)
next
  case (2 t)
  have "still s (entered_state m s)" by (simp add: still_def entered_state_def Let_def)
  moreover have "gap (entered_state m s) t" using assms by (simp add: 2(6) gap_def log_keys_def entered_state_def Let_def)
  then have "still (entered_state m s) t" unfolding 2(5) by (rule still_replay)
  moreover have "still t (on_newview E m c s)" unfolding 2(6) by (simp add: still_def)
  ultimately show ?thesis by (blast intro: still_trans)
qed

lemma still_step:
  assumes "gap s (step E ev s)"
  shows "still s (step E ev s)"
proof (cases ev)
  case (Deliver c w)
  show ?thesis
  proof (cases w)
    case (WHandshake m)
    with Deliver show ?thesis by (simp add: still_def on_handshake_def Let_def)
  qed (use assms Deliver in \<open>simp_all add: on_preprepare_def still_idle idle_request idle_checkpoint idle_viewchange
      still_preprepare_impl still_prepare still_commit still_newview\<close>)
next
  case Timeout
  then show ?thesis using still_idle [OF idle_start] by simp
qed (simp_all add: still_def on_connection_def add_replica_def add_client_def)

section \<open>Behind the low watermark\<close>

lemma still_run:
  assumes "run E s t" and "window_ok s" and "nd_last_exec s + 1 < nd_h s"
  shows "still s t \<and> window_ok t \<and> nd_h s \<le> nd_h t"
  using assms(1)
proof induction
  case run_refl
  then show ?case using assms by (simp add: still_def)
next
  case (run_step t E' ev)
  let ?u = "step E' ev t"
  have u: "window_ok ?u" "nd_h t \<le> nd_h ?u" using run_step.IH by (simp_all add: window_ok_step nd_h_mono)
  then have "nd_last_exec t + 1 < nd_h ?u" using run_step.IH assms(3) by (auto simp: still_def)
  with u(1) have "gap t ?u" by (auto simp: gap_def window_ok_def near_def)
  from still_step [OF this] u run_step.IH show ?case by (auto intro: still_trans)
qed

text \<open>A commit message for a request that the replica does not have yet leaves no vote.\<close>

lemma early_commit_dropped:
  assumes "\<not> re_has_preprepare (entry E (cm_seq_num m) s)" and "reqlog_ok E (nd_reqlog s)"
    and "cm_req_digest m \<noteq> env_null_digest E"
  shows "entry E n (on_commit E m s) = entry E n s"
proof -
  have "re_digest (entry E (cm_seq_num m) s) = env_null_digest E"
    using assms(1) entry_ok_entry [OF assms(2)] by (auto simp: entry_ok_def split: if_splits)
  with assms(3) show ?thesis by (simp add: on_commit_def Let_def)
qed

section \<open>A run\<close>

text \<open>
  Four replicas that all follow the protocol, with a checkpoint after every second operation. The replicas 0, 1 and
  2 order, commit and execute two requests. Everything they send to replica 3 arrives, on each connection in
  the order in which it was sent, but the connection from the primary is the slowest.
\<close>

definition pair_config :: NodeConfig where
  "pair_config = demo_config\<lparr>cfg_checkpoint_interval := 2\<rparr>"

definition pair_node :: "u32 \<Rightarrow> nat node" where
  "pair_node i = Node_ctor demo_env i pair_config 0 False"

definition pair_request :: "u64 \<Rightarrow> RequestMsg" where
  "pair_request n = RequestMsg_ctor mute_stream ''op'' n 7"

definition pair_propose :: "u64 \<Rightarrow> wire" where
  "pair_propose n = WPrePrepare (PrePrepareMsg_ctor mute_stream 0 n 3 (pair_request n))"

definition pair_prepare :: "u32 \<Rightarrow> u64 \<Rightarrow> wire" where
  "pair_prepare j n = WPrepare (PrepareMsg_ctor mute_stream 0 n 3 j)"

definition pair_commit :: "u32 \<Rightarrow> u64 \<Rightarrow> wire" where
  "pair_commit j n = WCommit (CommitMsg_ctor mute_stream 0 n 3 j)"

definition pair_setup :: "(u32 \<times> event) list" where
  "pair_setup = [(i, AddReplica j (unat j)). i \<leftarrow> [0, 1, 2], j \<leftarrow> [0, 1, 2, 3], i \<noteq> j] @
     [(0, Connection (unat j) True). j \<leftarrow> [1, 2, 3 :: u32]] @ [(j, hello 0). j \<leftarrow> [1, 2, 3]]"

definition pair_round :: "u64 \<Rightarrow> (u32 \<times> event) list" where
  "pair_round n = (0, Deliver 9 (WRequest (pair_request n))) # [(i, Deliver 0 (pair_propose n)). i \<leftarrow> [1, 2]] @
     [(i, Deliver (unat j) (pair_prepare j n)). j \<leftarrow> [1, 2], i \<leftarrow> [0, 1, 2], i \<noteq> j] @
     [(i, Deliver (unat j) (pair_commit j n)). j \<leftarrow> [0, 1, 2], i \<leftarrow> [0, 1, 2], i \<noteq> j]"

definition late_mail :: "u32 \<Rightarrow> wire list" where
  "late_mail j = concat (map (\<lambda>n. [if j = 0 then pair_propose n else pair_prepare j n, pair_commit j n]) [1, 2]) @
     [WCheckpoint (CheckpointMsg_ctor mute_stream 2 2 j)]"

definition late_run :: "(u32 \<times> event) list" where
  "late_run = pair_setup @ pair_round 1 @ pair_round 2 @ [(3, Deliver (unat j) w). j \<leftarrow> [1, 2, 0], w \<leftarrow> late_mail j]"

definition late_state :: "nat cluster" where
  "late_state = play demo_env late_run pair_node"

lemma late_truthful: "truthful demo_env late_run pair_node"
  by code_simp

text \<open>What was sent over a connection has arrived, in order.\<close>

definition mail :: "u32 \<Rightarrow> 'svc node \<Rightarrow> wire list" where
  "mail i s = concat (map (\<lambda>(c, w). if c = unat i then [w] else []) (sent_list s))"

lemma late_arrived_0: "mail 3 (late_state 0) = WHandshake (HandshakeMsg_ctor mute_stream 0) # late_mail 0"
  by code_simp

lemma late_arrived_1: "mail 3 (late_state 1) = late_mail 1"
  by code_simp

lemma late_arrived_2: "mail 3 (late_state 2) = late_mail 2"
  by code_simp

lemmas late_arrived = late_arrived_0 late_arrived_1 late_arrived_2

lemma late_others: "list_all (\<lambda>i. nd_last_exec (late_state i) = 2) [0, 1, 2]"
  by code_simp

definition lag :: "'svc node \<Rightarrow> u64 \<times> u64" where
  "lag s = (nd_last_exec s, nd_h s)"

lemma late_lag: "lag (late_state 3) = (0, 2)"
  by code_simp

lemmas late_stuck = late_lag [unfolded lag_def prod.inject, THEN conjunct1] late_lag [unfolded lag_def prod.inject, THEN conjunct2]

section \<open>The property\<close>

text \<open>
  C16. A replica whose low watermark has passed the number it has to execute next never executes
  again: whatever messages, connections and timeouts follow, its history and the state of its service
  stay as they are. In the run of the witness nobody is faulty and no message is lost.
\<close>

theorem lagging_replica_never_catches_up:
  assumes "run E (Node_ctor E i cfg svc b) s" and "nd_last_exec s + 1 < nd_h s" and "run E s t"
  shows "nd_last_exec t = nd_last_exec s \<and> history t = history s \<and> nd_service t = nd_service s"
  using still_run [OF assms(3) window.holds [OF assms(1)] assms(2)] by (simp add: still_def)

theorem lagging_replica_never_catches_up_witness:
  "truthful demo_env late_run pair_node \<and> mail 3 (late_state 1) = late_mail 1 \<and> mail 3 (late_state 2) = late_mail 2 \<and>
   mail 3 (late_state 0) = WHandshake (HandshakeMsg_ctor mute_stream 0) # late_mail 0 \<and>
   list_all (\<lambda>i. nd_last_exec (late_state i) = 2) [0, 1, 2] \<and>
   nd_last_exec (fold (step demo_env) [ask ''x'', propose 3 ''op'', commit_from 0 3] (late_state 3)) = 0"
proof -
  have "run demo_env (Node_ctor demo_env 3 pair_config 0 False) (late_state 3)"
    unfolding late_state_def play_events pair_node_def by (rule run_fold)
  moreover have "nd_last_exec (late_state 3) + 1 < nd_h (late_state 3)" by (simp add: late_stuck)
  ultimately have "nd_last_exec (fold (step demo_env) [ask ''x'', propose 3 ''op'', commit_from 0 3] (late_state 3)) =
      nd_last_exec (late_state 3)"
    by (rule lagging_replica_never_catches_up [OF _ _ run_fold, THEN conjunct1])
  with late_truthful late_arrived late_others show ?thesis by (simp only: late_stuck)
qed

end
