(* ===== verification/Normal_Round.thy ===== *)
theory Normal_Round
  imports Node_Handlers
begin

text \<open>
  The normal case at one replica, for one request. The state of the replica and the messages it has sent
  are determined by which votes have reached it: this theory gives them as functions of the sets of votes
  and proves that the handlers of \<open>src/node.cc\<close> compute these functions, one message at a time.
\<close>

section \<open>What a part of a handler sends\<close>

text \<open>\<open>X\<close> is the set of messages, with their connections, that are sent between two states.\<close>

definition puts :: "(conn \<times> wire) set \<Rightarrow> 'svc node \<Rightarrow> 'svc node \<Rightarrow> bool" where
  "puts X s t \<longleftrightarrow> (\<exists>acts. nd_out t = nd_out s @ acts \<and> X = {(c, w). Send c w \<in> set acts})"

lemma puts_refl: "nd_out t = nd_out s \<Longrightarrow> puts {} s t"
  by (auto simp: puts_def)

lemma puts_trans: "puts X s t \<Longrightarrow> puts Y t u \<Longrightarrow> puts (X \<union> Y) s u"
  unfolding puts_def by (elim exE, rule_tac x = "acts @ actsa" in exI) auto

lemma puts_append: "nd_out t = nd_out s @ acts \<Longrightarrow> puts {(c, w). Send c w \<in> set acts} s t"
  by (auto simp: puts_def)

lemma puts_quiet:
  assumes "puts X s t" and "nd_out u = nd_out t @ acts" and "\<And>c w. Send c w \<notin> set acts"
  shows "puts X s u"
  using puts_trans [OF assms(1) puts_append [OF assms(2)]] assms(3) by simp

definition targets :: "'svc env \<Rightarrow> 'svc node \<Rightarrow> conn set" where
  "targets E s = {c. \<exists>i. (i, c) \<in> set (nd_peers s) \<and> i \<noteq> nd_id s \<and> env_conn_ok E c}"

lemma puts_broadcast: "puts (targets E s \<times> {w}) s (broadcast E w s)"
  unfolding puts_def by (rule exI [of _ "count_msg w True # broadcast_sends E w s"]) (auto simp: targets_def)

definition client_conns :: "'svc env \<Rightarrow> u32 \<Rightarrow> 'svc node \<Rightarrow> conn set" where
  "client_conns E i s = {c. map_of (nd_clients s) i = Some c \<and> env_conn_ok E c}"

lemma puts_send_to_client: "puts (client_conns E i s \<times> {w}) s (send_to_client E i w s)"
  unfolding puts_def
  by (rule exI [of _ "count_msg w True # via_sends E (map_of (nd_clients s) i) w"])
    (auto simp: client_conns_def send_to_client_def)

lemma puts_timer: "puts {} s (start_timer_if_not_running s)" "puts {} s (stop_timer s)" "puts {} s (manage_timer s)"
proof -
  have *: "puts {} s (start_timer_if_not_running s)" "puts {} s (stop_timer s)" for s :: "'svc node"
    by (auto simp: timer_defs puts_def)
  then show "puts {} s (start_timer_if_not_running s)" "puts {} s (stop_timer s)" .
  from * puts_trans [OF * (2) * (1)] show "puts {} s (manage_timer s)"
    by (auto simp: manage_timer_def puts_refl)
qed

lemma puts_emit: "(\<And>c w. Send c w \<notin> set acts) \<Longrightarrow> puts X s t \<Longrightarrow> puts X s (emit acts t)"
  by (erule puts_quiet) simp_all

section \<open>A round\<close>

text \<open>The request, the view in which and the number under which it is ordered, and the size of the group.\<close>

record round =
  rd_f :: nat
  rd_view :: u32
  rd_seq :: u64
  rd_req :: RequestMsg

definition rd_primary :: "round \<Rightarrow> u32" where
  "rd_primary rd = rd_view rd mod of_nat (3 * rd_f rd + 1)"

definition rd_entry :: "'svc env \<Rightarrow> round \<Rightarrow> ReqStage \<Rightarrow> u32 set \<Rightarrow> u32 set \<Rightarrow> ReqLogEntry" where
  "rd_entry E rd st A B = \<lparr>re_view = rd_view rd, re_seq = rd_seq rd, re_digest = env_hash_request E (rd_req rd),
     re_req = rd_req rd, re_stage = st, re_has_preprepare = True, re_prepares = A, re_commits = B\<rparr>"

definition rd_proposal :: "'svc env \<Rightarrow> round \<Rightarrow> PrePrepareMsg" where
  "rd_proposal E rd = PrePrepareMsg_ctor (env_stream E) (rd_view rd) (rd_seq rd)
     (env_hash_request E (rd_req rd)) (rd_req rd)"

definition rd_prepare :: "'svc env \<Rightarrow> round \<Rightarrow> u32 \<Rightarrow> PrepareMsg" where
  "rd_prepare E rd i = PrepareMsg_ctor (env_stream E) (rd_view rd) (rd_seq rd) (env_hash_request E (rd_req rd)) i"

definition rd_commit :: "'svc env \<Rightarrow> round \<Rightarrow> u32 \<Rightarrow> CommitMsg" where
  "rd_commit E rd i = CommitMsg_ctor (env_stream E) (rd_view rd) (rd_seq rd) (env_hash_request E (rd_req rd)) i"

definition rd_outcome :: "'svc env \<Rightarrow> round \<Rightarrow> 'svc node \<Rightarrow> 'svc \<times> string" where
  "rd_outcome E rd s = svc_execute (env_service E) (nd_service s) (rq_operation (rd_req rd))"

definition rd_reply :: "'svc env \<Rightarrow> round \<Rightarrow> 'svc node \<Rightarrow> ReplyMsg" where
  "rd_reply E rd s = ReplyMsg_ctor (env_stream E) (rd_view rd) (rq_timestamp (rd_req rd))
     (rq_client_id (rd_req rd)) (nd_id s) (snd (rd_outcome E rd s))"

definition rd_executed :: "'svc env \<Rightarrow> round \<Rightarrow> executed" where
  "rd_executed E rd = \<lparr>ex_view = rd_view rd, ex_op = rq_operation (rd_req rd), ex_seq = rd_seq rd,
     ex_digest = env_hash_request E (rd_req rd)\<rparr>"

text \<open>
  A replica that can take part: it works in the view, has executed everything before the number, has nothing
  under the number and the one after it, and takes no checkpoint at the number.
\<close>

definition at_work :: "'svc env \<Rightarrow> round \<Rightarrow> 'svc node \<Rightarrow> bool" where
  "at_work E rd s \<longleftrightarrow> nd_n s = of_nat (3 * rd_f rd + 1) \<and> nd_f s = of_nat (rd_f rd) \<and> nd_view s = rd_view rd \<and>
     \<not> nd_view_changing s \<and> nd_last_exec s + 1 = rd_seq rd \<and> in_window (rd_seq rd) s \<and>
     std_find (nd_reqlog s) (rd_seq rd) = None \<and> std_find (nd_reqlog s) (rd_seq rd + 1) = None \<and>
     nd_K s \<noteq> 0 \<and> rd_seq rd mod zext (nd_K s) \<noteq> 0"

text \<open>What stays as it is during a round.\<close>

definition same_place :: "'svc node \<Rightarrow> 'svc node \<Rightarrow> bool" where
  "same_place s t \<longleftrightarrow> nd_id t = nd_id s \<and> nd_n t = nd_n s \<and> nd_f t = nd_f s \<and> nd_peers t = nd_peers s \<and>
     nd_conn_to_peer t = nd_conn_to_peer s \<and> nd_clients t = nd_clients s \<and> nd_view t = nd_view s \<and>
     nd_view_changing t = nd_view_changing s \<and> nd_K t = nd_K s \<and> nd_h t = nd_h s \<and> nd_H t = nd_H s"

section \<open>A replica that holds the request\<close>

text \<open>
  The replica started in \<open>s0\<close>; its entry is in the stage \<open>st\<close> with the votes \<open>A\<close> and \<open>B\<close>, and it has sent \<open>X\<close>.
\<close>

definition rd_core ::
  "'svc env \<Rightarrow> round \<Rightarrow> 'svc node \<Rightarrow> ReqStage \<Rightarrow> u32 set \<Rightarrow> u32 set \<Rightarrow> (conn \<times> wire) set \<Rightarrow> 'svc node \<Rightarrow> bool" where
  "rd_core E rd s0 st A B X s \<longleftrightarrow> same_place s0 s \<and>
     std_find (nd_reqlog s) (rd_seq rd) = Some (rd_entry E rd st A B) \<and>
     std_find (nd_reqlog s) (rd_seq rd + 1) = None \<and> puts X s0 s \<and>
     (if st = COMMITTED
      then nd_last_exec s = rd_seq rd \<and> history s = history s0 @ [rd_executed E rd] \<and>
        nd_service s = fst (rd_outcome E rd s0)
      else nd_last_exec s = nd_last_exec s0 \<and> history s = history s0 \<and> nd_service s = nd_service s0)"

lemma rd_entry_sel [simp]:
  "re_view (rd_entry E rd st A B) = rd_view rd" "re_seq (rd_entry E rd st A B) = rd_seq rd"
  "re_digest (rd_entry E rd st A B) = env_hash_request E (rd_req rd)" "re_req (rd_entry E rd st A B) = rd_req rd"
  "re_stage (rd_entry E rd st A B) = st" "re_has_preprepare (rd_entry E rd st A B)"
  "re_prepares (rd_entry E rd st A B) = A" "re_commits (rd_entry E rd st A B) = B"
  by (simp_all add: rd_entry_def)

lemma rd_core_entry: "rd_core E rd s0 st A B X s \<Longrightarrow> entry E (rd_seq rd) s = rd_entry E rd st A B"
  by (simp add: rd_core_def entry_def std_ref_def)

lemma puts_execute_entry:
  assumes "nd_K s \<noteq> 0" and "(nd_last_exec s + 1) mod zext (nd_K s) \<noteq> 0"
  shows "puts (client_conns E (rq_client_id (re_req e)) s \<times> {WReply (ReplyMsg_ctor (env_stream E) (nd_view s)
      (rq_timestamp (re_req e)) (rq_client_id (re_req e)) (nd_id s)
      (snd (svc_execute (env_service E) (nd_service s) (rq_operation (re_req e)))))}) s (execute_entry E e s)"
    (is "puts (_ \<times> {?w}) _ _")
proof -
  let ?s = "s\<lparr>nd_service := fst (svc_execute (env_service E) (nd_service s) (rq_operation (re_req e)))\<rparr>"
  let ?t = "send_to_client E (rq_client_id (re_req e)) ?w ?s"
  have "puts (client_conns E (rq_client_id (re_req e)) s \<times> {?w}) s ?t"
    using puts_send_to_client [of E "rq_client_id (re_req e)" ?s ?w] by (simp add: puts_def client_conns_def)
  moreover have "puts {} ?t (execute_entry E e s)"
    using assms
    by (simp add: execute_entry_def send_to_client_def Let_def split: prod.split)
      (intro impI allI puts_trans [where X = "{}" and Y = "{}", simplified, OF _ puts_timer(3)] puts_emit puts_refl, simp_all)
  ultimately show ?thesis using puts_trans by fastforce
qed


lemma same_place_simps:
  "same_place s t \<Longrightarrow> in_window n t = in_window n s" "same_place s t \<Longrightarrow> targets E t = targets E s"
  "same_place s t \<Longrightarrow> client_conns E i t = client_conns E i s" "same_place s t \<Longrightarrow> comes_from_primary c t = comes_from_primary c s"
  "same_place s t \<Longrightarrow> primary_undefined c t = primary_undefined c s"
  by (auto simp: same_place_def in_window_def targets_def client_conns_def comes_from_primary_def primary_undefined_def
      primary_def split: option.split)

lemma rd_core_other:
  assumes "rd_core E rd s0 st A B X s"
  shows "st \<noteq> PRE_PREPARED \<Longrightarrow> try_prepare E (rd_seq rd) s = s" "st \<noteq> PREPARED \<Longrightarrow> try_commit E (rd_seq rd) s = s"
  by (simp_all add: try_prepare_def try_commit_def rd_core_entry [OF assms] Let_def)

lemma rd_core_update:
  assumes "rd_core E rd s0 st A B X s" and "same_place s t" and "nd_last_exec t = nd_last_exec s"
    and "nd_service t = nd_service s" and "nd_out t = nd_out s @ acts" and "execs acts = []" and "\<And>c w. Send c w \<notin> set acts"
    and "std_find (nd_reqlog t) (rd_seq rd) = Some (rd_entry E rd st' A' B')"
    and "std_find (nd_reqlog t) (rd_seq rd + 1) = None" and "st' = COMMITTED \<longleftrightarrow> st = COMMITTED"
  shows "rd_core E rd s0 st' A' B' X t"
proof -
  have "puts X s0 t" by (rule puts_quiet [OF _ assms(5,7)]) (use assms(1) in \<open>simp add: rd_core_def\<close>)
  with assms show ?thesis by (simp add: rd_core_def same_place_def)
qed

abbreviation rd_replies :: "'svc env \<Rightarrow> round \<Rightarrow> 'svc node \<Rightarrow> (conn \<times> wire) set" where
  "rd_replies E rd s \<equiv> client_conns E (rq_client_id (rd_req rd)) s \<times> {WReply (rd_reply E rd s)}"

lemma rd_core_try_commit:
  assumes "at_work E rd s0" and "rd_core E rd s0 PREPARED A B X s"
  shows "if unat (2 * nd_f s0 + 1) \<le> card B
    then rd_core E rd s0 COMMITTED A B (X \<union> rd_replies E rd s0) (try_commit E (rd_seq rd) s)
    else try_commit E (rd_seq rd) s = s"
proof (cases "unat (2 * nd_f s0 + 1) \<le> card B")
  case True
  let ?n = "rd_seq rd" and ?e = "rd_entry E rd COMMITTED A B"
  let ?u = "update_entry E ?n (\<lambda>e. e\<lparr>re_stage := COMMITTED\<rparr>) (emit [committed_line (rd_entry E rd PREPARED A B),
     Metric (ObservePhase ''commit'' (env_elapsed E ''commit'' ?n))] s)"
  note entry = rd_core_entry [OF assms(2)]
  have place: "same_place s0 s" and s: "nd_last_exec s = nd_last_exec s0" "history s = history s0"
    "nd_service s = nd_service s0" "puts X s0 s" "std_find (nd_reqlog s) (?n + 1) = None"
    using assms(2) by (simp_all add: rd_core_def)
  have next': "nd_last_exec s0 + 1 = ?n" "nd_K s0 \<noteq> 0" "?n mod zext (nd_K s0) \<noteq> 0" "nd_view s0 = rd_view rd"
    using assms(1) by (simp_all add: at_work_def)
  have u: "std_find (nd_reqlog ?u) ?n = Some ?e" "std_find (nd_reqlog ?u) (?n + 1) = None"
    by (simp_all add: entry rd_entry_def s)
  have "try_commit E ?n s = try_execute E ?u"
    using True place by (simp add: try_commit_def entry same_place_def committed_line_def rd_entry_def Let_def)
  also have "\<dots> = execute_entry E ?e ?u"
  proof -
    obtain k where k: "length (nd_reqlog ?u) = Suc k" using u(1) by (cases "nd_reqlog ?u") (auto)
    have "re_stage ?e = COMMITTED" "nd_last_exec ?u + 1 = ?n" "nd_last_exec (execute_entry E ?e ?u) + 1 = ?n + 1"
      by (simp_all add: rd_entry_def s next')
    then show ?thesis using u unfolding try_execute_def k by (simp only: execute_loop.simps option.case) simp
  qed
  finally have tc: "try_commit E ?n s = execute_entry E ?e ?u" .
  have "puts X s0 ?u" by (rule puts_quiet [OF s(4)]) (auto simp: committed_line_def)
  moreover have "puts (rd_replies E rd s0) ?u (execute_entry E ?e ?u)"
    using puts_execute_entry [of ?u E ?e] next' place s same_place_simps(3) [OF place]
    by (simp add: rd_entry_def rd_reply_def rd_outcome_def same_place_def client_conns_def)
  ultimately have "puts (X \<union> rd_replies E rd s0) s0 (execute_entry E ?e ?u)" by (rule puts_trans)
  with True u place s next' show ?thesis unfolding tc
    by (simp add: rd_core_def same_place_def rd_executed_def rd_outcome_def rd_entry_def committed_line_def)
next
  case False
  then show ?thesis using assms(2) rd_core_entry [OF assms(2)]
    by (simp add: try_commit_def rd_core_def same_place_def Let_def)
qed

definition commit_out :: "'svc env \<Rightarrow> round \<Rightarrow> 'svc node \<Rightarrow> (conn \<times> wire) set" where
  "commit_out E rd s = targets E s \<times> {WCommit (rd_commit E rd (nd_id s))}"

lemma rd_core_prepared_state:
  assumes "at_work E rd s0" and "rd_core E rd s0 PRE_PREPARED A B X s"
  shows "rd_core E rd s0 PREPARED A (insert (nd_id s0) B) (X \<union> commit_out E rd s0) (prepared_state E (rd_seq rd) s)"
proof -
  let ?n = "rd_seq rd"
  note entry = rd_core_entry [OF assms(2)]
  have place: "same_place s0 s" and s: "nd_last_exec s = nd_last_exec s0" "history s = history s0"
    "nd_service s = nd_service s0" "puts X s0 s" "std_find (nd_reqlog s) (?n + 1) = None" 
    using assms(2) by (simp_all add: rd_core_def)
  have view: "nd_view s0 = rd_view rd" using assms(1) by (simp add: at_work_def)
  have "puts (commit_out E rd s0) s (prepared_state E ?n s)"
    unfolding puts_def
    by (rule exI [of _ "[Log (LogPrepared (re_view (rd_entry E rd PRE_PREPARED A B)) (rq_operation (re_req (rd_entry E rd PRE_PREPARED A B)))
          (re_seq (rd_entry E rd PRE_PREPARED A B)) (re_digest (rd_entry E rd PRE_PREPARED A B))),
       Metric (ObservePhase ''prepared'' (env_elapsed E ''prepared'' ?n))] @
       count_msg (WCommit (rd_commit E rd (nd_id s0))) True # broadcast_sends E (WCommit (rd_commit E rd (nd_id s0))) s0"])
     (use place view in \<open>auto simp: prepared_state_def entry commit_out_def rd_commit_def rd_entry_def same_place_def targets_def
        broadcast_sends_def Let_def\<close>)
  with s(4) have "puts (X \<union> commit_out E rd s0) s0 (prepared_state E ?n s)" by (rule puts_trans)
  with place s show ?thesis
    by (auto simp: rd_core_def same_place_def entry rd_entry_def prepared_state_def Let_def)
qed


lemma rd_place:
  assumes "rd_core E rd s0 st A B X s"
  shows "same_place s0 s" "std_find (nd_reqlog s) (rd_seq rd) = Some (rd_entry E rd st A B)"
    "std_find (nd_reqlog s) (rd_seq rd + 1) = None"
  using assms by (simp_all add: rd_core_def)

text \<open>
  Everything about the replica is a function of the prepare votes \<open>A\<close> (its own among them) and the commit
  votes \<open>B\<close> that have arrived, not of their order.
\<close>

definition rd_prepared :: "'svc node \<Rightarrow> u32 set \<Rightarrow> bool" where
  "rd_prepared s A \<longleftrightarrow> unat (2 * nd_f s) \<le> card A"

definition rd_committed :: "'svc node \<Rightarrow> u32 set \<Rightarrow> u32 set \<Rightarrow> bool" where
  "rd_committed s A B \<longleftrightarrow> rd_prepared s A \<and> unat (2 * nd_f s + 1) \<le> card (insert (nd_id s) B)"

definition rd_stage :: "'svc node \<Rightarrow> u32 set \<Rightarrow> u32 set \<Rightarrow> ReqStage" where
  "rd_stage s A B = (if rd_committed s A B then COMMITTED else if rd_prepared s A then PREPARED else PRE_PREPARED)"

definition first_out :: "'svc env \<Rightarrow> round \<Rightarrow> 'svc node \<Rightarrow> (conn \<times> wire) set" where
  "first_out E rd s = targets E s \<times> {if nd_id s = rd_primary rd then WPrePrepare (rd_proposal E rd)
     else WPrepare (rd_prepare E rd (nd_id s))}"

definition rd_out :: "'svc env \<Rightarrow> round \<Rightarrow> 'svc node \<Rightarrow> u32 set \<Rightarrow> u32 set \<Rightarrow> (conn \<times> wire) set" where
  "rd_out E rd s A B = first_out E rd s \<union> (if rd_prepared s A then commit_out E rd s else {}) \<union>
     (if rd_committed s A B then rd_replies E rd s else {})"

definition holding :: "'svc env \<Rightarrow> round \<Rightarrow> 'svc node \<Rightarrow> u32 set \<Rightarrow> u32 set \<Rightarrow> 'svc node \<Rightarrow> bool" where
  "holding E rd s0 A B s \<longleftrightarrow> rd_core E rd s0 (rd_stage s0 A B) A
     (if rd_prepared s0 A then insert (nd_id s0) B else B) (rd_out E rd s0 A B) s"

lemma holding_try_prepare:
  assumes "at_work E rd s0" and "rd_core E rd s0 PRE_PREPARED A B (first_out E rd s0) s"
  shows "holding E rd s0 A B (try_prepare E (rd_seq rd) s)"
proof (cases "rd_prepared s0 A")
  case True
  have "nd_f s = nd_f s0" using rd_place(1) [OF assms(2)] by (simp add: same_place_def)
  with True have "try_prepare E (rd_seq rd) s = try_commit E (rd_seq rd) (prepared_state E (rd_seq rd) s)"
    by (simp add: try_prepare_eq prepare_ready_def rd_core_entry [OF assms(2)] rd_prepared_def)
  moreover note core = rd_core_prepared_state [OF assms] 
  moreover note rd_core_try_commit [OF assms(1) core]
  ultimately show ?thesis using True
    by (auto simp: holding_def rd_out_def rd_stage_def rd_committed_def split: if_splits)
next
  case False
  have "nd_f s = nd_f s0" using rd_place(1) [OF assms(2)] by (simp add: same_place_def)
  with False have "try_prepare E (rd_seq rd) s = s"
    by (simp add: try_prepare_eq prepare_ready_def rd_core_entry [OF assms(2)] rd_prepared_def)
  with False assms(2) show ?thesis by (simp add: holding_def rd_out_def rd_stage_def rd_committed_def)
qed

lemma rd_prepared_insert: "rd_prepared s A \<Longrightarrow> rd_prepared s (insert j A)"
  unfolding rd_prepared_def by (erule order_trans) (rule card_mono; auto)

lemma rd_committed_insert: "rd_committed s A B \<Longrightarrow> rd_committed s A (insert j B)"
  unfolding rd_committed_def by (elim conjE, rule conjI, assumption, erule order_trans) (rule card_mono; auto)

lemma rd_committed_prepared: "rd_committed s A B \<Longrightarrow> rd_prepared s A"
  by (simp add: rd_committed_def)

section \<open>One message\<close>

lemma holding_on_prepare:
  assumes work: "at_work E rd s0" and hold: "holding E rd s0 A B s" and "\<not> comes_from_primary c s0"
    and "nd_n s0 \<noteq> 0"
  shows "holding E rd s0 (insert j A) B (on_prepare E (rd_prepare E rd j) c s)"
proof -
  let ?n = "rd_seq rd" and ?m = "rd_prepare E rd j"
  let ?B = "if rd_prepared s0 A then insert (nd_id s0) B else B"
  let ?t = "emit [count_msg (WPrepare ?m) False] s"
  let ?l = "Log (LogPrepareAccepted (env_hash_request E (rd_req rd)) (env_hash_request E (rd_req rd)))"
  let ?u = "update_entry E ?n (\<lambda>e. e\<lparr>re_prepares := insert j (re_prepares e)\<rparr>) (emit [?l] (touch_entry E ?n ?t))"
  have core: "rd_core E rd s0 (rd_stage s0 A B) A ?B (rd_out E rd s0 A B) s" using hold by (simp add: holding_def)
  note place = rd_place(1) [OF core] and entry = rd_core_entry [OF core]
  have t: "same_place s0 ?t" using place by (simp add: same_place_def)
  have "\<not> comes_from_primary c ?t" "\<not> primary_undefined c ?t" "in_window ?n ?t" "\<not> nd_view_changing ?t"
    "nd_view ?t = rd_view rd"
    using work assms(3,4) same_place_simps(1,4,5) [OF t] t
    by (simp_all add: at_work_def same_place_def primary_undefined_def)
  then have on: "on_prepare E ?m c s = try_prepare E ?n ?u"
    by (simp add: on_prepare_def entry rd_prepare_def Let_def)
  have "rd_core E rd s0 (rd_stage s0 A B) (insert j A) ?B (rd_out E rd s0 A B) ?u"
    by (rule rd_core_update [OF core, of ?u "[count_msg (WPrepare ?m) False, ?l]"])
      (use rd_place(3) [OF core] in \<open>simp_all add: same_place_def entry rd_entry_def\<close>)
  then have u: "rd_core E rd s0 (rd_stage s0 A B) (insert j A) ?B (rd_out E rd s0 A B) ?u" .
  show ?thesis
  proof (cases "rd_prepared s0 A")
    case True
    then have "rd_stage s0 A B \<noteq> PRE_PREPARED" by (simp add: rd_stage_def)
    note noop = rd_core_other(1) [OF u this]
    have "rd_prepared s0 (insert j A)" "rd_committed s0 (insert j A) B = rd_committed s0 A B"
      using True rd_prepared_insert [OF True] by (simp_all add: rd_committed_def)
    with True have "rd_stage s0 (insert j A) B = rd_stage s0 A B" "rd_out E rd s0 (insert j A) B = rd_out E rd s0 A B"
      "rd_prepared s0 (insert j A)" by (simp_all add: rd_stage_def rd_out_def)
    with True u show ?thesis unfolding on noop by (simp only: holding_def if_True)
  next
    case False
    with u have "rd_core E rd s0 PRE_PREPARED (insert j A) B (first_out E rd s0) ?u"
      by (simp add: rd_stage_def rd_out_def rd_committed_def)
    from holding_try_prepare [OF work this] show ?thesis unfolding on .
  qed
qed


lemma holding_on_commit:
  assumes work: "at_work E rd s0" and hold: "holding E rd s0 A B s"
  shows "holding E rd s0 A (insert j B) (on_commit E (rd_commit E rd j) s)"
proof -
  let ?n = "rd_seq rd" and ?m = "rd_commit E rd j"
  let ?B = "if rd_prepared s0 A then insert (nd_id s0) B else B"
  let ?t = "emit [count_msg (WCommit ?m) False] s"
  let ?u = "update_entry E ?n (\<lambda>e. e\<lparr>re_commits := insert j (re_commits e)\<rparr>) (touch_entry E ?n ?t)"
  have core: "rd_core E rd s0 (rd_stage s0 A B) A ?B (rd_out E rd s0 A B) s" using hold by (simp add: holding_def)
  note place = rd_place(1) [OF core] and entry = rd_core_entry [OF core]
  have t: "same_place s0 ?t" using place by (simp add: same_place_def)
  have "in_window ?n ?t" "\<not> nd_view_changing ?t" "nd_view ?t = rd_view rd"
    using work same_place_simps(1) [OF t] t by (simp_all add: at_work_def same_place_def)
  then have on: "on_commit E ?m s = try_commit E ?n ?u"
    by (simp add: on_commit_def entry rd_commit_def Let_def)
  have u: "rd_core E rd s0 (rd_stage s0 A B) A (insert j ?B) (rd_out E rd s0 A B) ?u"
    by (rule rd_core_update [OF core, of ?u "[count_msg (WCommit ?m) False]"])
      (use rd_place(3) [OF core] in \<open>simp_all add: same_place_def entry rd_entry_def\<close>)
  show ?thesis
  proof (cases "rd_stage s0 A B = PREPARED")
    case True
    then have prepared: "rd_prepared s0 A" "\<not> rd_committed s0 A B" by (auto simp: rd_stage_def split: if_splits)
    with u True have "rd_core E rd s0 PREPARED A (insert j (insert (nd_id s0) B)) (rd_out E rd s0 A B) ?u" by simp
    from rd_core_try_commit [OF work this] prepared this show ?thesis
      unfolding on holding_def
      by (auto simp: rd_stage_def rd_out_def rd_committed_def insert_commute split: if_splits)
  next
    case False
    note rd_core_other(2) [OF u False]
    moreover from False have "rd_stage s0 A (insert j B) = rd_stage s0 A B" "rd_committed s0 A (insert j B) = rd_committed s0 A B"
      using rd_committed_insert [of s0 A B j] by (auto simp: rd_stage_def rd_committed_def split: if_splits)
    ultimately show ?thesis using u unfolding on holding_def
      by (cases "rd_prepared s0 A") (simp_all add: rd_out_def insert_commute)
  qed
qed

text \<open>Before the pre-prepare only prepare votes are kept.\<close>

definition waiting :: "'svc env \<Rightarrow> round \<Rightarrow> 'svc node \<Rightarrow> u32 set \<Rightarrow> 'svc node \<Rightarrow> bool" where
  "waiting E rd s0 A s \<longleftrightarrow> same_place s0 s \<and> entry E (rd_seq rd) s = (new_entry E)\<lparr>re_prepares := A\<rparr> \<and>
     std_find (nd_reqlog s) (rd_seq rd + 1) = None \<and> puts {} s0 s \<and> nd_last_exec s = nd_last_exec s0 \<and>
     history s = history s0 \<and> nd_service s = nd_service s0"

lemma waiting_start: "at_work E rd s0 \<Longrightarrow> waiting E rd s0 {} s0"
  by (simp add: waiting_def same_place_def at_work_def entry_def std_ref_def new_entry_def puts_refl)

lemma waiting_on_prepare:
  assumes work: "at_work E rd s0" and wait: "waiting E rd s0 A s" and "\<not> comes_from_primary c s0"
    and "nd_n s0 \<noteq> 0"
  shows "waiting E rd s0 (insert j A) (on_prepare E (rd_prepare E rd j) c s)"
proof -
  let ?n = "rd_seq rd" and ?m = "rd_prepare E rd j"
  let ?t = "emit [count_msg (WPrepare ?m) False] s"
  let ?l = "Log (LogPrepareAccepted (env_null_digest E) (env_hash_request E (rd_req rd)))"
  let ?u = "update_entry E ?n (\<lambda>e. e\<lparr>re_prepares := insert j (re_prepares e)\<rparr>) (emit [?l] (touch_entry E ?n ?t))"
  from wait have place: "same_place s0 s" and entry: "entry E ?n s = (new_entry E)\<lparr>re_prepares := A\<rparr>"
    and puts: "puts {} s0 s" by (simp_all add: waiting_def)
  have t: "same_place s0 ?t" using place by (simp add: same_place_def)
  have "\<not> comes_from_primary c ?t" "\<not> primary_undefined c ?t" "in_window ?n ?t" "\<not> nd_view_changing ?t"
    "nd_view ?t = rd_view rd"
    using work assms(3,4) same_place_simps(1,4,5) [OF t] t
    by (simp_all add: at_work_def same_place_def primary_undefined_def)
  then have "on_prepare E ?m c s = try_prepare E ?n ?u"
    by (simp add: on_prepare_def entry rd_prepare_def new_entry_def Let_def)
  also have "\<dots> = ?u" by (simp add: try_prepare_def entry new_entry_def Let_def)
  finally have on: "on_prepare E ?m c s = ?u" .
  have "puts {} s0 ?u" by (rule puts_quiet [OF puts, of _ "[count_msg (WPrepare ?m) False, ?l]"]) simp_all
  with wait show ?thesis unfolding on by (simp add: waiting_def same_place_def entry)
qed

lemma holding_on_preprepare:
  assumes work: "at_work E rd s0" and wait: "waiting E rd s0 A s" and "comes_from_primary c s0"
    and "nd_n s0 \<noteq> 0" and "nd_id s0 \<noteq> rd_primary rd"
  shows "holding E rd s0 (insert (nd_id s0) A) {} (on_preprepare E (rd_proposal E rd) c s)"
proof -
  let ?n = "rd_seq rd" and ?m = "rd_proposal E rd" and ?d = "env_hash_request E (rd_req rd)"
  let ?t = "emit [count_msg (WPrePrepare ?m) False] s"
  let ?a = "start_timer_if_not_running (emit [Log (LogPrePrepareAccepted (env_null_digest E) ?d)] (touch_entry E ?n ?t))"
  from wait have place: "same_place s0 s" and entry: "entry E ?n s = (new_entry E)\<lparr>re_prepares := A\<rparr>"
    and puts: "puts {} s0 s" by (simp_all add: waiting_def)
  have t: "same_place s0 ?t" using place by (simp add: same_place_def)
  have "comes_from_primary c ?t" "\<not> primary_undefined c ?t" "in_window ?n ?t" "\<not> nd_view_changing ?t"
    "nd_view ?t = rd_view rd"
    using work assms(3,4) same_place_simps(1,4,5) [OF t] t
    by (simp_all add: at_work_def same_place_def primary_undefined_def)
  then have on: "on_preprepare E ?m c s = try_prepare E ?n (accepted_state E ?m ?t)"
    by (simp add: on_preprepare_def on_preprepare_impl_def accept_preprepare_eq rd_proposal_def entry new_entry_def Let_def)
  have "puts {} s0 ?a"
    using puts_trans [OF puts_quiet [OF puts, of _ "[count_msg (WPrePrepare ?m) False, Log (LogPrePrepareAccepted (env_null_digest E) ?d)]"]
        puts_timer(1)] by simp
  moreover have "puts (first_out E rd s0) ?a (accepted_state E ?m ?t)"
    unfolding puts_def
    by (rule exI [of _ "count_msg (WPrepare (rd_prepare E rd (nd_id s0))) True #
        broadcast_sends E (WPrepare (rd_prepare E rd (nd_id s0))) s0"])
     (use place assms(5) work in \<open>auto simp: accepted_state_def entry new_entry_def rd_proposal_def rd_prepare_def first_out_def
        same_place_def targets_def broadcast_sends_def at_work_def Let_def\<close>)
  ultimately have "puts (first_out E rd s0) s0 (accepted_state E ?m ?t)" using puts_trans by fastforce
  with wait have "rd_core E rd s0 PRE_PREPARED (insert (nd_id s0) A) {} (first_out E rd s0) (accepted_state E ?m ?t)"
    by (simp add: rd_core_def waiting_def same_place_def accepted_state_def rd_proposal_def rd_entry_def new_entry_def Let_def)
  from holding_try_prepare [OF work this] show ?thesis unfolding on .
qed


lemma holding_on_request:
  assumes work: "at_work E rd s0" and "nd_id s0 = rd_primary rd" and "nd_n s0 \<noteq> 0" and "\<not> rd_prepared s0 {nd_id s0}"
    and "nd_seq_num s0 + 1 = rd_seq rd" and "nd_h s0 \<le> nd_seq_num s0" and "nd_seq_num s0 < nd_H s0"
    and "\<not> in_progress (rd_req rd) s0"
    and "\<And>info. nd_last_replies s0 (rq_client_id (rd_req rd)) = Some info \<Longrightarrow> cri_timestamp info \<noteq> rq_timestamp (rd_req rd)"
  shows "holding E rd s0 {nd_id s0} {} (on_request E (rd_req rd) s0)"
proof -
  let ?n = "rd_seq rd" and ?m = "rd_req rd"
  let ?t = "assign_request E ?m (emit [count_msg (WRequest ?m) False] s0)"
  have view: "nd_view s0 = rd_view rd" "nd_n s0 = of_nat (3 * rd_f rd + 1)" "\<not> nd_view_changing s0"
    and log: "std_find (nd_reqlog s0) ?n = None" "std_find (nd_reqlog s0) (?n + 1) = None"
    using work by (simp_all add: at_work_def)
  have "is_primary s0" using assms(2) by (simp add: is_primary_def rd_primary_def view)
  then have on: "on_request E ?m s0 = ?t"
    using assms(3,6-9) view by (intro on_request_orders) simp_all
  have "puts (first_out E rd s0) s0 ?t"
    unfolding puts_def
    by (rule exI [of _ "[count_msg (WRequest ?m) False, Log (LogRequestAccepted (rd_view rd) (rq_operation ?m) ?n)] @
        (count_msg (WPrePrepare (rd_proposal E rd)) True # broadcast_sends E (WPrePrepare (rd_proposal E rd)) s0) @
        [Metric (SetInflight (?n - nd_last_exec s0))]"])
     (auto simp: assign_request_def first_out_def rd_proposal_def assms(2,5) view targets_def broadcast_sends_def Let_def)
  then have "rd_core E rd s0 PRE_PREPARED {nd_id s0} {} (first_out E rd s0) ?t"
    using log by (simp add: rd_core_def same_place_def assign_request_def assms(5) entry_def std_ref_def rd_entry_def
        new_entry_def view Let_def)
  with assms(4) show ?thesis
    unfolding on by (simp add: holding_def rd_stage_def rd_out_def rd_committed_def)
qed

end
