(* ===== verification/Group_Progress.thy ===== *)
theory Group_Progress
  imports Normal_Round Scenarios
begin

text \<open>
  The normal case in the group. At least \<open>2 f + 1\<close> replicas, the primary among them, take part; the others are
  silent. Whatever the order in which their messages arrive, the number of messages is bounded, and as long
  as some member has not executed the request there is a message that can be delivered.
\<close>

section \<open>The network\<close>

text \<open>Messages that were sent since the state \<open>s0\<close>.\<close>

definition fresh :: "'svc node \<Rightarrow> 'svc node \<Rightarrow> conn \<Rightarrow> wire \<Rightarrow> bool" where
  "fresh s0 s c w \<longleftrightarrow> Send c w \<in> set (drop (length (nd_out s0)) (nd_out s))"

lemma puts_fresh: "puts X s0 s \<Longrightarrow> fresh s0 s c w \<longleftrightarrow> (c, w) \<in> X"
  by (auto simp: puts_def fresh_def)

text \<open>
  The members that take part, their states when the request arrives, and their connections: \<open>gr_conn j i\<close> is what
  \<open>j\<close> sends to \<open>i\<close> over, \<open>gr_from i j\<close> is where \<open>i\<close> gets it.
\<close>

record 'svc group =
  gr_members :: "u32 set"
  gr_base :: "'svc cluster"
  gr_conn :: "u32 \<Rightarrow> u32 \<Rightarrow> conn"
  gr_from :: "u32 \<Rightarrow> u32 \<Rightarrow> conn"

text \<open>Receiver, sender, message.\<close>

type_synonym delivery = "u32 \<times> u32 \<times> wire"

fun is_preprepare :: "wire \<Rightarrow> bool" where
  "is_preprepare (WPrePrepare m) = True"
| "is_preprepare w = False"

text \<open>
  The handler of a commit message drops it if the pre-prepare is not there yet (its digest differs from that of
  an empty entry), and nothing is sent twice. The commit message of the primary comes over the same
  connection as the pre-prepare and after it. If exactly \<open>2 f + 1\<close> members take part, this is enough; if there
  are more, no commit message may overtake the pre-prepare.
\<close>

fun in_turn :: "round \<Rightarrow> 'svc group \<Rightarrow> delivery list \<Rightarrow> delivery \<Rightarrow> bool" where
  "in_turn rd g tr (i, j, WCommit m) = (i = rd_primary rd \<or> list_ex (\<lambda>(k, l, w). k = i \<and> is_preprepare w) tr \<or>
     j \<noteq> rd_primary rd \<and> card (gr_members g) = 2 * rd_f rd + 1)"
| "in_turn rd g tr x = True"

definition deliverable :: "round \<Rightarrow> 'svc group \<Rightarrow> delivery list \<Rightarrow> 'svc cluster \<Rightarrow> delivery \<Rightarrow> bool" where
  "deliverable rd g tr C x \<longleftrightarrow> (case x of (i, j, w) \<Rightarrow> i \<in> gr_members g \<and> j \<in> gr_members g \<and> i \<noteq> j \<and>
     fresh (gr_base g j) (C j) (gr_conn g j i) w \<and> x \<notin> set tr \<and> in_turn rd g tr x)"

fun delivered :: "'svc env \<Rightarrow> 'svc group \<Rightarrow> delivery \<Rightarrow> 'svc cluster \<Rightarrow> 'svc cluster" where
  "delivered E g (i, j, w) C = C(i := step E (Deliver (gr_from g i j) w) (C i))"

text \<open>
  A run: the primary gets the request, and then messages that members have sent each other arrive, each once, in
  any order.
\<close>

inductive serves :: "'svc env \<Rightarrow> round \<Rightarrow> 'svc group \<Rightarrow> delivery list \<Rightarrow> 'svc cluster \<Rightarrow> bool"
  for E :: "'svc env" and rd :: round and g :: "'svc group" where
  request: "p = rd_primary rd \<Longrightarrow>
     serves E rd g [] ((gr_base g)(p := step E (Deliver c (WRequest (rd_req rd))) (gr_base g p)))"
| deliver: "serves E rd g tr C \<Longrightarrow> deliverable rd g tr C x \<Longrightarrow> serves E rd g (tr @ [x]) (delivered E g x C)"

text \<open>The members and the connections when the request arrives.\<close>

definition group_ok :: "'svc env \<Rightarrow> round \<Rightarrow> 'svc group \<Rightarrow> bool" where
  "group_ok E rd g \<longleftrightarrow> (let f = rd_f rd; p = rd_primary rd; m = rd_req rd; R = gr_members g in
     0 < f \<and> 3 * f + 1 < 2 ^ 32 \<and> p \<in> R \<and> R \<subseteq> replicas f \<and> 2 * f + 1 \<le> card R \<and>
     (\<forall>i \<in> R. nd_id (gr_base g i) = i \<and> at_work E rd (gr_base g i) \<and>
        (\<forall>j \<in> R. i \<noteq> j \<longrightarrow> (j, gr_conn g i j) \<in> set (nd_peers (gr_base g i)) \<and> env_conn_ok E (gr_conn g i j) \<and>
           nd_conn_to_peer (gr_base g i) (gr_from g i j) = Some j \<and>
           map_of (nd_clients (gr_base g i)) (rq_client_id m) \<noteq> Some (gr_conn g i j))) \<and>
     nd_seq_num (gr_base g p) + 1 = rd_seq rd \<and> nd_h (gr_base g p) \<le> nd_seq_num (gr_base g p) \<and>
     nd_seq_num (gr_base g p) < nd_H (gr_base g p) \<and> \<not> in_progress m (gr_base g p) \<and>
     (\<forall>info. nd_last_replies (gr_base g p) (rq_client_id m) = Some info \<longrightarrow> cri_timestamp info \<noteq> rq_timestamp m))"


section \<open>The invariant of a run\<close>

definition prepares_at :: "'svc env \<Rightarrow> round \<Rightarrow> delivery list \<Rightarrow> u32 \<Rightarrow> u32 set" where
  "prepares_at E rd tr i = {j. (i, j, WPrepare (rd_prepare E rd j)) \<in> set tr}"

definition commits_at :: "'svc env \<Rightarrow> round \<Rightarrow> delivery list \<Rightarrow> u32 \<Rightarrow> u32 set" where
  "commits_at E rd tr i = {j. (i, j, WCommit (rd_commit E rd j)) \<in> set tr}"

definition informed :: "'svc env \<Rightarrow> round \<Rightarrow> delivery list \<Rightarrow> u32 \<Rightarrow> bool" where
  "informed E rd tr i \<longleftrightarrow> i = rd_primary rd \<or> (i, rd_primary rd, WPrePrepare (rd_proposal E rd)) \<in> set tr"

lemmas at_defs = prepares_at_def commits_at_def informed_def

definition first_msg :: "'svc env \<Rightarrow> round \<Rightarrow> u32 \<Rightarrow> wire" where
  "first_msg E rd j = (if j = rd_primary rd then WPrePrepare (rd_proposal E rd) else WPrepare (rd_prepare E rd j))"

definition run_msg :: "'svc env \<Rightarrow> round \<Rightarrow> 'svc group \<Rightarrow> delivery \<Rightarrow> bool" where
  "run_msg E rd g x \<longleftrightarrow> (case x of (i, j, w) \<Rightarrow> i \<in> gr_members g \<and> j \<in> gr_members g \<and> i \<noteq> j \<and>
     (w = first_msg E rd j \<or> w = WCommit (rd_commit E rd j)))"

definition part :: "'svc env \<Rightarrow> round \<Rightarrow> 'svc node \<Rightarrow> delivery list \<Rightarrow> 'svc node \<Rightarrow> bool" where
  "part E rd s0 tr s \<longleftrightarrow> (let i = nd_id s0; A = prepares_at E rd tr i; B = commits_at E rd tr i in
     if informed E rd tr i then holding E rd s0 (insert i A) B s else waiting E rd s0 A s \<and> B = {})"

lemma member_ok_group:
  assumes "group_ok E rd g" and "i \<in> gr_members g"
  shows "nd_id (gr_base g i) = i" "at_work E rd (gr_base g i)" "nd_n (gr_base g i) \<noteq> 0"
    "nd_n (gr_base g i) = of_nat (3 * rd_f rd + 1)"
    "nd_view (gr_base g i) = rd_view rd" "unat (2 * nd_f (gr_base g i)) = 2 * rd_f rd"
    "unat (2 * nd_f (gr_base g i) + 1) = 2 * rd_f rd + 1"
proof -
  have f: "3 * rd_f rd + 1 < 2 ^ 32" using assms(1) by (simp add: group_ok_def Let_def)
  show i: "nd_id (gr_base g i) = i" "at_work E rd (gr_base g i)"
    using assms by (simp_all add: group_ok_def Let_def)
  then show n: "nd_n (gr_base g i) = of_nat (3 * rd_f rd + 1)" "nd_view (gr_base g i) = rd_view rd"
    by (simp_all add: at_work_def)
  have nf: "nd_f (gr_base g i) = of_nat (rd_f rd)" using i by (simp add: at_work_def)
  show "unat (2 * nd_f (gr_base g i) + 1) = 2 * rd_f rd + 1" using quorum_threshold [OF f] by (simp add: nf)
  have "2 * (of_nat (rd_f rd) :: u32) = of_nat (2 * rd_f rd)" by simp
  also have "unat \<dots> = 2 * rd_f rd" using f by (simp only: unat_of_nat take_bit_nat_eq_self) (simp add: take_bit_nat_eq_self)
  finally show "unat (2 * nd_f (gr_base g i)) = 2 * rd_f rd" by (simp add: nf)
  have "unat (nd_n (gr_base g i)) = 3 * rd_f rd + 1" using f unfolding n
    by (simp only: unat_of_nat) (simp add: take_bit_nat_eq_self)
  then show "nd_n (gr_base g i) \<noteq> 0" by auto
qed

lemma from_primary:
  assumes "group_ok E rd g" and "i \<in> gr_members g" and "j \<in> gr_members g" and "i \<noteq> j"
  shows "comes_from_primary (gr_from g i j) (gr_base g i) \<longleftrightarrow> j = rd_primary rd"
proof -
  have "nd_conn_to_peer (gr_base g i) (gr_from g i j) = Some j"
    using assms by (simp add: group_ok_def Let_def)
  with member_ok_group [OF assms(1,2)] show ?thesis
    by (simp add: comes_from_primary_def primary_def rd_primary_def)
qed

text \<open>What a member has sent to another.\<close>

lemma fresh_holding:
  assumes "group_ok E rd g" and "i \<in> gr_members g" and "j \<in> gr_members g" and "i \<noteq> j"
    and "holding E rd (gr_base g j) A B s"
  shows "fresh (gr_base g j) s (gr_conn g j i) w \<longleftrightarrow>
    w = first_msg E rd j \<or> rd_prepared (gr_base g j) A \<and> w = WCommit (rd_commit E rd j)"
proof -
  have "puts (rd_out E rd (gr_base g j) A B) (gr_base g j) s"
    using assms(5) by (simp add: holding_def rd_core_def)
  note puts_fresh [OF this, of "gr_conn g j i" w]
  moreover have "(i, gr_conn g j i) \<in> set (nd_peers (gr_base g j))" "env_conn_ok E (gr_conn g j i)"
    "gr_conn g j i \<notin> client_conns E (rq_client_id (rd_req rd)) (gr_base g j)" "nd_id (gr_base g j) = j"
    using assms(1-4) by (auto simp: group_ok_def client_conns_def Let_def)
  moreover from this assms(4) have "gr_conn g j i \<in> targets E (gr_base g j)" by (auto simp: targets_def)
  ultimately show ?thesis by (auto simp: rd_out_def first_out_def commit_out_def first_msg_def)
qed

lemma fresh_waiting: "waiting E rd s0 A s \<Longrightarrow> \<not> fresh s0 s c w"
  using puts_fresh [of "{}" s0 s] by (simp add: waiting_def)

definition run_ok :: "'svc env \<Rightarrow> round \<Rightarrow> 'svc group \<Rightarrow> delivery list \<Rightarrow> 'svc cluster \<Rightarrow> bool" where
  "run_ok E rd g tr C \<longleftrightarrow> distinct tr \<and> (\<forall>x \<in> set tr. run_msg E rd g x) \<and>
     (\<forall>i j m. (i, j, WPrepare m) \<in> set tr \<longrightarrow> informed E rd tr j) \<and>
     (\<forall>i \<in> gr_members g. part E rd (gr_base g i) tr (C i))"

lemma run_ok_request:
  assumes "group_ok E rd g"
  shows "run_ok E rd g [] ((gr_base g)(rd_primary rd := on_request E (rd_req rd) (gr_base g (rd_primary rd))))"
proof -
  let ?p = "rd_primary rd"
  have p: "?p \<in> gr_members g" and f: "0 < rd_f rd" using assms by (simp_all add: group_ok_def Let_def)
  note member = member_ok_group [OF assms p]
  have "\<not> rd_prepared (gr_base g ?p) {nd_id (gr_base g ?p)}" using f by (simp add: rd_prepared_def member)
  then have "holding E rd (gr_base g ?p) {nd_id (gr_base g ?p)} {} (on_request E (rd_req rd) (gr_base g ?p))"
    using assms member by (intro holding_on_request) (simp_all add: group_ok_def Let_def)
  then have "part E rd (gr_base g ?p) [] (on_request E (rd_req rd) (gr_base g ?p))"
    by (simp add: part_def at_defs member)
  moreover have "part E rd (gr_base g i) [] (gr_base g i)" if "i \<in> gr_members g" "i \<noteq> ?p" for i
    using that member_ok_group(1,2) [OF assms that(1)] waiting_start by (simp add: part_def at_defs)
  ultimately show ?thesis by (simp add: run_ok_def)
qed

lemma part_elsewhere:
  assumes "nd_id s0 \<noteq> i"
  shows "part E rd s0 (tr @ [(i, j, w)]) s = part E rd s0 tr s"
  using assms by (simp add: part_def at_defs)

text \<open>If only \<open>2 f + 1\<close> members take part, no backup is prepared before all have the pre-prepare.\<close>

lemma nobody_overtaken:
  assumes ok: "group_ok E rd g" and run: "run_ok E rd g tr C" and ij: "i \<in> gr_members g" "j \<in> gr_members g"
    and "j \<noteq> rd_primary rd" and "card (gr_members g) = 2 * rd_f rd + 1"
    and "rd_prepared (gr_base g j) (insert j (prepares_at E rd tr j))" and "i \<noteq> j"
  shows "informed E rd tr i"
proof (rule ccontr)
  let ?R = "gr_members g" and ?p = "rd_primary rd"
  assume uninformed: "\<not> informed E rd tr i"
  then have "i \<noteq> ?p" by (simp add: informed_def)
  have p: "?p \<in> ?R" and f: "0 < rd_f rd" using ok by (simp_all add: group_ok_def Let_def)
  have "k \<in> ?R - {?p, i}" if "k \<in> prepares_at E rd tr j" for k
  proof -
    have k: "(j, k, WPrepare (rd_prepare E rd k)) \<in> set tr" using that by (simp add: prepares_at_def)
    with run have "run_msg E rd g (j, k, WPrepare (rd_prepare E rd k))" "informed E rd tr k"
      unfolding run_ok_def by blast+
    with uninformed show ?thesis by (auto simp: run_msg_def first_msg_def split: if_splits)
  qed
  with ij(2) assms(5,8) have "insert j (prepares_at E rd tr j) \<subseteq> ?R - {?p, i}" by auto
  then have "card (insert j (prepares_at E rd tr j)) \<le> card (?R - {?p, i})" by (intro card_mono) simp_all
  also have "\<dots> = 2 * rd_f rd - 1" using p ij(1) \<open>i \<noteq> ?p\<close> assms(6) by (simp add: card_Diff_subset)
  finally have "card (insert j (prepares_at E rd tr j)) < 2 * rd_f rd" using f by linarith
  with assms(7) show False by (simp add: rd_prepared_def member_ok_group [OF ok ij(2)])
qed

lemma member_part:
  assumes "group_ok E rd g" and "run_ok E rd g tr C" and "i \<in> gr_members g"
  shows "informed E rd tr i \<Longrightarrow>
      holding E rd (gr_base g i) (insert i (prepares_at E rd tr i)) (commits_at E rd tr i) (C i)"
    and "\<not> informed E rd tr i \<Longrightarrow> waiting E rd (gr_base g i) (prepares_at E rd tr i) (C i)"
    and "\<not> informed E rd tr i \<Longrightarrow> commits_at E rd tr i = {}"
  using assms(2,3) member_ok_group(1) [OF assms(1,3)] by (auto simp: run_ok_def part_def Let_def)

text \<open>The three kinds of messages.\<close>

lemma part_proposal:
  assumes ok: "group_ok E rd g" and run: "run_ok E rd g tr C" and i: "i \<in> gr_members g" "i \<noteq> rd_primary rd"
    and "(i, rd_primary rd, WPrePrepare (rd_proposal E rd)) \<notin> set tr"
  shows "part E rd (gr_base g i) (tr @ [(i, rd_primary rd, WPrePrepare (rd_proposal E rd))])
    (on_preprepare E (rd_proposal E rd) (gr_from g i (rd_primary rd)) (C i))"
proof -
  let ?p = "rd_primary rd"
  have p: "?p \<in> gr_members g" using ok by (simp add: group_ok_def Let_def)
  have "\<not> informed E rd tr i" using i(2) assms(5) by (simp add: informed_def)
  note wait = member_part(2,3) [OF ok run i(1) this] and member = member_ok_group [OF ok i(1)]
  have "comes_from_primary (gr_from g i ?p) (gr_base g i)" using from_primary [OF ok i(1) p i(2)] by simp
  from holding_on_preprepare [OF member(2) wait(1) this member(3)] wait(2) i(2)
  show ?thesis by (simp add: part_def member at_defs)
qed

lemma part_prepare:
  assumes ok: "group_ok E rd g" and run: "run_ok E rd g tr C" and ij: "i \<in> gr_members g" "j \<in> gr_members g" "i \<noteq> j"
    and "j \<noteq> rd_primary rd"
  shows "part E rd (gr_base g i) (tr @ [(i, j, WPrepare (rd_prepare E rd j))])
    (on_prepare E (rd_prepare E rd j) (gr_from g i j) (C i))"
proof -
  let ?tr = "tr @ [(i, j, WPrepare (rd_prepare E rd j))]"
  note member = member_ok_group [OF ok ij(1)] and before = member_part [OF ok run ij(1)]
  have "\<not> comes_from_primary (gr_from g i j) (gr_base g i)" using from_primary [OF ok ij] assms(6) by simp
  note next' = holding_on_prepare [OF member(2) before(1) this member(3), of j]
    waiting_on_prepare [OF member(2) before(2) this member(3), of j]
  have "informed E rd ?tr i = informed E rd tr i" "commits_at E rd ?tr i = commits_at E rd tr i"
    "prepares_at E rd ?tr i = insert j (prepares_at E rd tr i)" by (auto simp: at_defs)
  with next' before(3) show ?thesis by (simp add: part_def member insert_commute Let_def)
qed

lemma part_commit:
  assumes ok: "group_ok E rd g" and run: "run_ok E rd g tr C" and i: "i \<in> gr_members g" and "informed E rd tr i"
  shows "part E rd (gr_base g i) (tr @ [(i, j, WCommit (rd_commit E rd j))]) (on_commit E (rd_commit E rd j) (C i))"
proof -
  let ?tr = "tr @ [(i, j, WCommit (rd_commit E rd j))]"
  note member = member_ok_group [OF ok i]
  have "informed E rd ?tr i" "prepares_at E rd ?tr i = prepares_at E rd tr i"
    "commits_at E rd ?tr i = insert j (commits_at E rd tr i)" using assms(4) by (auto simp: at_defs)
  with holding_on_commit [OF member(2) member_part(1) [OF ok run i assms(4)], of j]
  show ?thesis by (simp add: part_def member Let_def)
qed

text \<open>A commit message is delivered only to members that have the pre-prepare.\<close>

lemma commit_informed:
  assumes ok: "group_ok E rd g" and run: "run_ok E rd g tr C"
    and del: "deliverable rd g tr C (i, j, WCommit (rd_commit E rd j))"
  shows "informed E rd tr i"
proof -
  let ?p = "rd_primary rd"
  from del have ij: "i \<in> gr_members g" "j \<in> gr_members g" "i \<noteq> j"
    and sent: "fresh (gr_base g j) (C j) (gr_conn g j i) (WCommit (rd_commit E rd j))" by (simp_all add: deliverable_def)
  from del consider "i = ?p" | l q where "(i, l, WPrePrepare q) \<in> set tr"
    | "j \<noteq> ?p" "card (gr_members g) = 2 * rd_f rd + 1"
    by (auto simp: deliverable_def list_ex_iff elim: is_preprepare.elims)
  then show ?thesis
  proof cases
    case (2 l q)
    with run have "run_msg E rd g (i, l, WPrePrepare q)" by (auto simp: run_ok_def)
    with 2 show ?thesis by (auto simp: run_msg_def first_msg_def informed_def split: if_splits)
  next
    case 3
    have "informed E rd tr j" using sent fresh_waiting member_part(2) [OF ok run ij(2)] by blast
    from fresh_holding [OF ok ij member_part(1) [OF ok run ij(2) this]] sent
    have "rd_prepared (gr_base g j) (insert j (prepares_at E rd tr j))" by (auto simp: first_msg_def split: if_splits)
    from nobody_overtaken [OF ok run ij(1,2) 3 this ij(3)] show ?thesis .
  qed (simp add: informed_def)
qed

lemma part_deliver:
  assumes ok: "group_ok E rd g" and run: "run_ok E rd g tr C" and del: "deliverable rd g tr C (i, j, w)"
    and msg: "run_msg E rd g (i, j, w)"
  shows "part E rd (gr_base g i) (tr @ [(i, j, w)]) (step E (Deliver (gr_from g i j) w) (C i))"
proof -
  from msg have ij: "i \<in> gr_members g" "j \<in> gr_members g" "i \<noteq> j" by (simp_all add: run_msg_def)
  have new: "(i, j, w) \<notin> set tr" using del by (simp add: deliverable_def)
  consider (proposal) "j = rd_primary rd" "w = WPrePrepare (rd_proposal E rd)"
    | (prepare) "j \<noteq> rd_primary rd" "w = WPrepare (rd_prepare E rd j)" | (commit) "w = WCommit (rd_commit E rd j)"
    using msg by (auto simp: run_msg_def first_msg_def split: if_splits)
  then show ?thesis
  proof cases
    case proposal
    with part_proposal [OF ok run ij(1)] ij(3) new show ?thesis by simp
  next
    case prepare
    with part_prepare [OF ok run ij] show ?thesis by simp
  next
    case commit
    with part_commit [OF ok run ij(1) commit_informed [OF ok run]] del show ?thesis by simp
  qed
qed

lemma run_ok_deliver:
  assumes ok: "group_ok E rd g" and run: "run_ok E rd g tr C" and del: "deliverable rd g tr C x"
  shows "run_ok E rd g (tr @ [x]) (delivered E g x C)"
proof -
  obtain i j w where x: "x = (i, j, w)" by (cases x)
  from del have ij: "i \<in> gr_members g" "j \<in> gr_members g" "i \<noteq> j" "(i, j, w) \<notin> set tr"
    and sent: "fresh (gr_base g j) (C j) (gr_conn g j i) w" by (simp_all add: deliverable_def x)
  have "part E rd (gr_base g j) tr (C j)" using run ij(2) by (simp add: run_ok_def)
  with sent have "informed E rd tr j" and "w = first_msg E rd j \<or> w = WCommit (rd_commit E rd j)"
    using member_ok_group(1) [OF ok ij(2)]
    by (auto simp: part_def fresh_holding [OF ok ij(1-3)] fresh_waiting Let_def split: if_splits)
  with ij have msg: "run_msg E rd g (i, j, w)" by (simp add: run_msg_def)
  have "part E rd (gr_base g k) (tr @ [x]) (delivered E g x C k)" if k: "k \<in> gr_members g" for k
  proof (cases "k = i")
    case True
    with part_deliver [OF ok run del [unfolded x] msg] show ?thesis by (simp add: x)
  next
    case False
    then have "nd_id (gr_base g k) \<noteq> i" using member_ok_group(1) [OF ok k] by simp
    with False run k show ?thesis by (simp add: x part_elsewhere run_ok_def)
  qed
  moreover have "informed E rd (tr @ [x]) l" if "(k, l, WPrepare m) \<in> set (tr @ [x])" for k l m
  proof -
    have "informed E rd tr l" using that run \<open>informed E rd tr j\<close> by (auto simp: x run_ok_def)
    then show ?thesis by (auto simp: informed_def)
  qed
  ultimately show ?thesis using run ij(4) msg by (auto simp: run_ok_def x)
qed

lemma run_ok_serves:
  assumes "group_ok E rd g" and "serves E rd g tr C"
  shows "run_ok E rd g tr C"
  using assms(2)
proof induction
  case (request p c)
  then show ?case using run_ok_request [OF assms(1)] by (simp add: fun_upd_def)
next
  case (deliver tr C x)
  show ?case by (rule run_ok_deliver [OF assms(1) deliver.IH deliver.hyps(2)])
qed

section \<open>Runs are short and end with the execution\<close>

lemma run_bounded:
  assumes "run_ok E rd g tr C"
  shows "length tr \<le> 2 * card (gr_members g) * (card (gr_members g) - 1)"
proof -
  let ?R = "gr_members g"
  let ?pairs = "Sigma ?R (\<lambda>i. ?R - {i})"
  have "card ?pairs = card ?R * (card ?R - 1)"
    by (simp add: card_SigmaI)
  moreover have "set tr \<subseteq> (\<lambda>((i, j), b). (i, j, if b then first_msg E rd j else WCommit (rd_commit E rd j))) ` (?pairs \<times> UNIV)"
  proof
    fix x assume x: "x \<in> set tr"
    obtain i j w where ij: "x = (i, j, w)" by (cases x)
    have "run_msg E rd g (i, j, w)" using assms x ij by (simp add: run_ok_def)
    then show "x \<in> (\<lambda>((i, j), b). (i, j, if b then first_msg E rd j else WCommit (rd_commit E rd j))) ` (?pairs \<times> UNIV)"
      unfolding ij run_msg_def
      by (intro image_eqI [of _ _ "((i, j), w = first_msg E rd j)"]) auto
  qed
  then have "card (set tr) \<le> card (?pairs \<times> (UNIV :: bool set))"
    by (meson card_image_le card_mono finite_SigmaI finite_Diff finite_imageI finite le_trans finite_cartesian_product)
  moreover have "length tr = card (set tr)" using assms by (simp add: run_ok_def distinct_card)
  ultimately show ?thesis by (simp add: card_cartesian_product)
qed

text \<open>When no message can be delivered, every member has everything.\<close>

definition quiet :: "round \<Rightarrow> 'svc group \<Rightarrow> delivery list \<Rightarrow> 'svc cluster \<Rightarrow> bool" where
  "quiet rd g tr C \<longleftrightarrow> (\<forall>x. \<not> deliverable rd g tr C x)"

lemma quiet_arrived:
  assumes "quiet rd g tr C" and "i \<in> gr_members g" and "j \<in> gr_members g" and "i \<noteq> j"
    and "fresh (gr_base g j) (C j) (gr_conn g j i) w" and "in_turn rd g tr (i, j, w)"
  shows "(i, j, w) \<in> set tr"
  using assms(1) [unfolded quiet_def, rule_format, of "(i, j, w)"] assms(2-) by (auto simp: deliverable_def)

lemma quiet_informed:
  assumes ok: "group_ok E rd g" and run: "run_ok E rd g tr C" and quiet: "quiet rd g tr C" and j: "j \<in> gr_members g"
  shows "informed E rd tr j"
proof (cases "j = rd_primary rd")
  case False
  let ?p = "rd_primary rd"
  have p: "?p \<in> gr_members g" "informed E rd tr ?p" using ok by (simp_all add: group_ok_def informed_def Let_def)
  from fresh_holding [OF ok j p(1) False member_part(1) [OF ok run p]]
  have "fresh (gr_base g ?p) (C ?p) (gr_conn g ?p j) (WPrePrepare (rd_proposal E rd))" by (simp add: first_msg_def)
  from quiet_arrived [OF quiet j p(1) False this] show ?thesis by (simp add: informed_def)
qed (simp add: informed_def)

lemma quiet_prepared:
  assumes ok: "group_ok E rd g" and run: "run_ok E rd g tr C" and quiet: "quiet rd g tr C" and j: "j \<in> gr_members g"
  shows "rd_prepared (gr_base g j) (insert j (prepares_at E rd tr j))"
proof -
  let ?R = "gr_members g" and ?p = "rd_primary rd"
  have "k \<in> prepares_at E rd tr j" if k: "k \<in> ?R - {?p}" "k \<noteq> j" for k
  proof -
    have kR: "k \<in> ?R" and kj: "j \<noteq> k" using k by auto
    from fresh_holding [OF ok j kR kj member_part(1) [OF ok run kR quiet_informed [OF ok run quiet kR]]] k(1)
    have "fresh (gr_base g k) (C k) (gr_conn g k j) (WPrepare (rd_prepare E rd k))" by (simp add: first_msg_def)
    from quiet_arrived [OF quiet j kR kj this] show ?thesis by (simp add: prepares_at_def)
  qed
  then have "?R - {?p} \<subseteq> insert j (prepares_at E rd tr j)" by blast
  then have "card (?R - {?p}) \<le> card (insert j (prepares_at E rd tr j))" by (rule card_mono [rotated]) simp
  moreover have "2 * rd_f rd \<le> card (?R - {?p})" using ok by (auto simp: group_ok_def Let_def)
  ultimately show ?thesis by (simp add: rd_prepared_def member_ok_group [OF ok j])
qed

lemma quiet_committed:
  assumes ok: "group_ok E rd g" and run: "run_ok E rd g tr C" and quiet: "quiet rd g tr C" and i: "i \<in> gr_members g"
  shows "rd_committed (gr_base g i) (insert i (prepares_at E rd tr i)) (commits_at E rd tr i)"
proof -
  let ?R = "gr_members g"
  have "k \<in> commits_at E rd tr i" if k: "k \<in> ?R" "i \<noteq> k" for k
  proof -
    from fresh_holding [OF ok i k member_part(1) [OF ok run k(1) quiet_informed [OF ok run quiet k(1)]]]
    have "fresh (gr_base g k) (C k) (gr_conn g k i) (WCommit (rd_commit E rd k))"
      by (simp add: quiet_prepared [OF ok run quiet k(1)])
    moreover have "in_turn rd g tr (i, k, WCommit (rd_commit E rd k))"
      using quiet_informed [OF ok run quiet i] by (fastforce simp: informed_def list_ex_iff)
    ultimately have "(i, k, WCommit (rd_commit E rd k)) \<in> set tr" by (rule quiet_arrived [OF quiet i k])
    then show ?thesis by (simp add: commits_at_def)
  qed
  then have "?R \<subseteq> insert i (commits_at E rd tr i)" by blast
  then have "card ?R \<le> card (insert i (commits_at E rd tr i))" by (rule card_mono [rotated]) simp
  moreover have "2 * rd_f rd + 1 \<le> card ?R" using ok by (simp add: group_ok_def Let_def)
  ultimately show ?thesis
    by (simp add: rd_committed_def quiet_prepared [OF ok run quiet i] member_ok_group [OF ok i])
qed

text \<open>What a member has done when it has executed the request.\<close>

definition round_done :: "'svc env \<Rightarrow> round \<Rightarrow> 'svc node \<Rightarrow> 'svc node \<Rightarrow> bool" where
  "round_done E rd s0 s \<longleftrightarrow> history s = history s0 @ [rd_executed E rd] \<and> nd_last_exec s = rd_seq rd \<and>
     nd_service s = fst (rd_outcome E rd s0) \<and>
     (\<forall>c. map_of (nd_clients s0) (rq_client_id (rd_req rd)) = Some c \<longrightarrow> env_conn_ok E c \<longrightarrow>
        Send c (WReply (rd_reply E rd s0)) \<in> set (nd_out s))"

lemma holding_done:
  assumes "holding E rd s0 A B s" and "rd_committed s0 A B"
  shows "round_done E rd s0 s"
proof -
  have core: "rd_core E rd s0 COMMITTED A (insert (nd_id s0) B) (rd_out E rd s0 A B) s"
    using assms by (simp add: holding_def rd_stage_def rd_committed_prepared)
  then have "puts (rd_out E rd s0 A B) s0 s" by (simp add: rd_core_def)
  then have "Send c (WReply (rd_reply E rd s0)) \<in> set (nd_out s)"
    if "map_of (nd_clients s0) (rq_client_id (rd_req rd)) = Some c" "env_conn_ok E c" for c
    using that assms(2) puts_fresh [of _ s0 s c "WReply (rd_reply E rd s0)"]
    by (auto simp: rd_out_def client_conns_def fresh_def dest: in_set_dropD)
  with core show ?thesis by (simp add: round_done_def rd_core_def)
qed

lemma round_executes:
  assumes "group_ok E rd g" and "serves E rd g tr C"
  shows "length tr \<le> 2 * card (gr_members g) * (card (gr_members g) - 1)"
    and "(\<exists>x. deliverable rd g tr C x) \<or> (\<forall>i \<in> gr_members g. round_done E rd (gr_base g i) (C i))"
proof -
  note run = run_ok_serves [OF assms]
  show "length tr \<le> 2 * card (gr_members g) * (card (gr_members g) - 1)" by (rule run_bounded [OF run])
  show "(\<exists>x. deliverable rd g tr C x) \<or> (\<forall>i \<in> gr_members g. round_done E rd (gr_base g i) (C i))"
  proof (cases "quiet rd g tr C")
    case True
    note quiet_committed [OF assms(1) run True] and member_part(1) [OF assms(1) run _ quiet_informed [OF assms(1) run True]]
    then show ?thesis using holding_done by blast
  qed (simp add: quiet_def)
qed

text \<open>A checker for concrete runs.\<close>

fun plays :: "'svc env \<Rightarrow> round \<Rightarrow> 'svc group \<Rightarrow> delivery list \<Rightarrow> delivery list \<Rightarrow> 'svc cluster \<Rightarrow> bool" where
  "plays E rd g tr [] C = True"
| "plays E rd g tr (x # xs) C = (deliverable rd g tr C x \<and> plays E rd g (tr @ [x]) xs (delivered E g x C))"

lemma plays_serves: "serves E rd g tr C \<Longrightarrow> plays E rd g tr xs C \<Longrightarrow> serves E rd g (tr @ xs) (fold (delivered E g) xs C)"
proof (induction xs arbitrary: tr C)
  case (Cons x xs)
  then have "serves E rd g (tr @ [x]) (delivered E g x C)" by (auto intro: serves.deliver)
  from Cons.IH [OF this] Cons.prems(2) show ?case by simp
qed simp

section \<open>A concrete group\<close>

definition demo_round :: round where
  "demo_round = \<lparr>rd_f = 1, rd_view = 0, rd_seq = 1, rd_req = demo_request ''op''\<rparr>"

definition demo_member :: "u32 \<Rightarrow> nat node" where
  "demo_member i = fold (step demo_env) (AddClient 7 7 # concat (map (\<lambda>j. [AddReplica j (unat j), hello j])
     (filter (\<lambda>j. j \<noteq> i) [0, 1, 2]))) (demo_node i)"

definition demo_group :: "nat group" where
  "demo_group = \<lparr>gr_members = set [0, 1, 2], gr_base = demo_member, gr_conn = (\<lambda>i j. unat j), gr_from = (\<lambda>i j. unat j)\<rparr>"

definition demo_asked :: "nat cluster" where
  "demo_asked = demo_member(0 := on_request demo_env (demo_request ''op'') (demo_member 0))"

definition demo_pairs :: "(u32 \<times> u32) list" where
  "demo_pairs = [(0, 1), (0, 2), (1, 2), (2, 1), (1, 0), (2, 0)]"

text \<open>The prepare message of replica 2 reaches replica 1 before the pre-prepare does.\<close>

definition demo_deliveries :: "delivery list" where
  "demo_deliveries = (let P = WPrePrepare (rd_proposal demo_env demo_round);
      Q = (\<lambda>j. WPrepare (rd_prepare demo_env demo_round j));
      K = (\<lambda>j. WCommit (rd_commit demo_env demo_round j)) in
    [(2, 0, P), (1, 2, Q 2), (1, 0, P), (0, 1, Q 1), (2, 1, Q 1), (0, 2, Q 2),
     (0, 2, K 2), (1, 2, K 2), (2, 1, K 1), (1, 0, K 0), (2, 0, K 0), (0, 1, K 1)])"

lemma demo_plays: "plays demo_env demo_round demo_group [] demo_deliveries demo_asked"
  by code_simp

lemma demo_peers: "list_all (\<lambda>(i, j). let s = demo_member i in List.member (nd_peers s) (j, unat j) \<and>
    nd_conn_to_peer s (unat j) = Some j \<and> map_of (nd_clients s) 7 \<noteq> Some (unat j)) demo_pairs"
  by code_simp

lemma demo_work: "list_all (\<lambda>i. nd_id (demo_member i) = i \<and> at_work demo_env demo_round (demo_member i)) [0, 1, 2]"
  by code_simp

lemma demo_services: "list_all (\<lambda>i. nd_service (demo_member i) = 0) [0, 1, 2]"
  by code_simp

lemma demo_primary: "rd_primary demo_round = 0" "rd_f demo_round = 1" "rd_req demo_round = demo_request ''op''"
  "rd_seq demo_round = 1"
  by (simp_all add: demo_round_def rd_primary_def)

lemma demo_leader:
  "nd_seq_num (demo_member 0) + 1 = 1 \<and> nd_h (demo_member 0) \<le> nd_seq_num (demo_member 0) \<and>
   nd_seq_num (demo_member 0) < nd_H (demo_member 0) \<and> \<not> in_progress (demo_request ''op'') (demo_member 0) \<and>
   nd_last_replies (demo_member 0) (rq_client_id (demo_request ''op'')) = None"
  by code_simp

lemma demo_group_ok: "group_ok demo_env demo_round demo_group"
proof -
  have "set [0, 1, 2] \<subseteq> replicas 1" by (simp add: replicas_def)
  moreover have "card (set [0 :: u32, 1, 2]) = 3" by simp
  moreover have "rq_client_id (demo_request ''op'') = 7" "env_conn_ok demo_env c" for c
    by (simp_all add: demo_request_def demo_env_def)
  ultimately show ?thesis
    using demo_peers demo_work demo_leader
    by (auto simp: group_ok_def demo_group_def demo_primary demo_pairs_def List.member_iff Let_def)
qed

end
