(* ===== verification/Spec2Isabelle.thy ===== *)
theory Spec2Isabelle
  imports Replication Scenarios Node_Properties Node_Progress Node_Replies Applications Lost_Requests
    Lagging_Replicas Group_Progress
begin

text \<open>
  \<^bold>\<open>Practical Byzantine fault tolerance in C++\<close>

  The repository implements a replicated state machine: \<open>Node\<close> (\<open>include/pbft/node.hh\<close>,
  \<open>src/node.cc\<close>) is a replica of the PBFT protocol, \<open>Client\<close> (\<open>include/pbft/client.hh\<close>,
  \<open>src/client.cc\<close>) issues requests and collects replies, \<open>messages.hh\<close> and \<open>serialization.hh\<close>
  define what goes over the wire, \<open>service_interface.hh\<close> is the contract of the replicated
  service, \<open>metrics.cc\<close> exports counters, and \<open>examples/kv_store\<close> is a key-value service
  with its two programs. Replicas and clients interact through messages only; a node calls its
  service, its metrics and its timer.

  \<^bold>\<open>Conventions.\<close> Integers keep the width they have in the code (\<open>u32\<close>, \<open>u64\<close>,
  \<open>u256\<close> for digests) and wrap around. A method of a class is a function from the object's
  state to the new state; what it does to the outside (messages, timer, metrics, log lines) is
  appended to an output list in the state, in the order of the calls. \<open>std::map\<close> is a sorted
  association list, \<open>std::unordered_map\<close> a map or an association list where it is iterated. Code
  outside the repository is a parameter: the record \<open>data_stream\<close> for salticidae's streams,
  the record \<open>env\<close> for its hash functions, for the state of connections, for the clock, and
  for the service, and the record \<open>runtime\<close> for what constructors and lifecycle methods use of
  salticidae, prometheus and spdlog. Undefined behaviour that the code can run into is an action
  \<open>Trap\<close> (a modulus by zero, a loop whose counter wraps around), in the client \<open>ClTrap\<close> (a modulus by
  zero, the overflow of the signed 64-bit timeout of \<open>invoke\<close>).

  \<^bold>\<open>Theories and the code they model.\<close>

  \<^item> \<open>Pbft_Prelude\<close>: word types, generic lemmas, collections of definitions, the interface of
    sorted maps as a locale. \<open>Decimal_Text\<close>: numbers as text.
  \<^item> \<open>Serialization\<close>: \<open>serialization.hh\<close>, over the laws of the library stream (locales
    \<open>codec\<close>, \<open>stream_laws\<close>, \<open>little_endian\<close>).
  \<^item> \<open>Messages\<close>: \<open>messages.hh\<close>, the nine message types with constructors, \<open>serialize\<close> and the
    constructors from a stream; round trips as sublocales.
  \<^item> \<open>Service\<close>: \<open>service_interface.hh\<close>; \<open>KV_Store\<close>: the service of \<open>kv_store.cc\<close>.
  \<^item> \<open>Metrics\<close>: \<open>metrics.hh\<close> and \<open>metrics.cc\<close>.
  \<^item> \<open>Node_State\<close>: the members of \<open>Node\<close>, its constructor, \<open>add_replica\<close>, \<open>add_client\<close>,
    handshakes, sending, the view-change timer. \<open>Node_Checkpoint\<close>, \<open>Node_Normal\<close>,
    \<open>Node_View_Change\<close>: the handlers of \<open>node.cc\<close> in three groups; \<open>step\<close> in the last is the
    dispatch of \<open>register_handlers\<close> with timer and connection events.
  \<^item> \<open>Client\<close>: \<open>client.hh\<close> and \<open>client.cc\<close>.
  \<^item> \<open>Lifecycle\<close>: of \<open>Node\<close> and \<open>Client\<close>, what their constructors set up besides the protocol,
    \<open>start\<close>, \<open>stop\<close>, \<open>run\<close>, the destructor of the client, the text of an address, as the list of
    the calls they make.
  \<^item> \<open>Applications\<close>: the command lines, configuration files and loops of \<open>kv_store.cc\<close> and
    \<open>kv_client.cc\<close>, on top of it.

  \<^bold>\<open>What is proved, and where.\<close>

  \<^item> \<open>Node_Frames\<close>: what each operation leaves alone; runs of one node (\<open>run\<close>: any events in
    any order) and the locale \<open>node_invariant\<close>.
  \<^item> \<open>Node_Log\<close>, \<open>Node_Window\<close>, \<open>Node_Timer\<close>, \<open>New_View\<close>, \<open>Node_Output\<close>: invariants of the
    log, of the watermarks, of the timer, of the store of view-change messages, and of the
    output, as interpretations.
  \<^item> \<open>Node_Votes\<close>, \<open>Node_Certificates\<close>: what a replica commits itself to by its messages, and on
    whose votes its commits stand.
  \<^item> \<open>Node_Execution\<close>: the history of executed operations and the end of the execution loop.
    \<open>Node_Handlers\<close>: runs with their events (\<open>trace\<close>), and a locale for properties that only
    executions, replies and checkpoints touch, given the requests and checkpoint messages that
    have arrived; its two interpretations are \<open>Node_Replies\<close>, for which request a reply answers and
    where the result in it comes from, and \<open>Checkpoint_Certificates\<close>, on whose votes a checkpoint
    becomes stable.
  \<^item> \<open>Node_Progress\<close>: a backup that gets the pre-prepare, or a primary that gets the request, and the votes
    of the normal case, whoever sends them and in any order, prepares, commits, executes and answers. \<open>Normal_Round\<close>: the state and the messages of a replica during the normal case as functions of
    the votes that have reached it; \<open>Group_Progress\<close>: from it, that a group of at least \<open>2 f + 1\<close> replicas
    that exchange their messages in any order executes the request after a bounded number of them.
  \<^item> \<open>Node_Properties\<close>: the properties of one node, with the runs that witness them.
  \<^item> \<open>Quorum\<close>, \<open>Cluster\<close>, \<open>Replication\<close>: \<open>3 f + 1\<close> replicas of which \<open>f\<close> are arbitrary, as a step
    relation; agreement on digests, and from it equal histories. \<open>Scenarios\<close>: concrete runs.
  \<^item> \<open>Lost_Requests\<close>: what a view change does to requests prepared in view 0, with a run in which
    the group stops executing although only one replica is silent and nobody misbehaves.
    \<open>Lagging_Replicas\<close>: a replica that falls behind a stable checkpoint never executes again.
  \<^item> This theory: agreement, replication and what a client can rely on, from its call to the
    position of its operation in the common history, that in a group at work a call
    returns its result, and the two runs in which the code breaks agreement.

  \<^bold>\<open>Bounds and fuel.\<close> The only loop with fuel is that of \<open>try_execute\<close>; it gets one unit more
  than the log has entries, and it is proved that this is enough and that more changes nothing.
  The loop of \<open>on_viewchange\<close> over sequence numbers is computed exactly, with the case in which
  its counter wraps around (and it never ends) as a trap. Theorems about the group assume
  \<open>3 f + 1 < 2 ^ 32\<close>, which the 32-bit replica ids force.

  \<^bold>\<open>Assumptions about the group.\<close> A commit message with the id of a correct replica is one that
  this replica has sent, and no peer introduces itself with the id of the receiver; the code
  does not check either. Everything else an adversary may do: forge, reorder, repeat and drop
  messages of any other kind, fire timers at any time. Two properties need more, which they state as
  hypotheses: that a stable checkpoint is true needs genuine checkpoint messages (\<open>genuine_checkpoints\<close>), and what
  a client can rely on needs genuine replies and genuine requests of this client (\<open>genuine\<close>,
  \<open>genuine_requests\<close>). Agreement, replication and what follows from it hold as long as no correct replica
  prepares the default digest or prepares a number again after its own checkpoint at it (\<open>clean\<close>); the two runs
  at the end of the section on agreement show that the code breaks it otherwise. Replication also needs that a digest determines
  its operation. That a call completes is proved for runs
  of one request without timeouts, in which messages between the participating replicas are neither lost
  nor forged, a commit message does not overtake the pre-prepare (for exactly \<open>2 f + 1\<close> participants it is
  enough that a connection keeps the order), and the number is not one of a checkpoint.

  \<^bold>\<open>Not modelled.\<close> What the libraries do when they are called: the event loop, sockets, TLS and
  threads (salticidae), the JSON parser, the export side of prometheus, the files of the logger. Of the log
  lines of the handlers only those that report a protocol step are part of the model. The interleaving of a
  blocked call of the client with the event loop is reduced to whole handlers. The tests and the build are left
  out.
\<close>

section \<open>The hypotheses of the properties, on the concrete run\<close>

lemma small_group [simp]: "3 * (1 :: nat) + 1 < 2 ^ 32"
  by simp

lemma normal_hypotheses:
  "{3} \<subseteq> replicas 1" "card {3 :: u32} \<le> 1" "0 \<in> correct 1 {3}" "1 \<in> correct 1 {3}"
  "(1, 3) \<in> committed (normal_state 0)" "(1, 3) \<in> committed (normal_state 1)"
  "\<forall>j \<in> correct 1 {3}. (n, env_null_digest demo_env) \<notin> voted (normal_state j) \<and>
     n \<notin> reopened (normal_state j)"
proof -
  show "{3} \<subseteq> replicas 1" by (simp add: replicas_def)
  show "(1, 3) \<in> committed (normal_state 0)" "(1, 3) \<in> committed (normal_state 1)"
    by (simp_all add: set_committed_list [symmetric] normal_committed)
  have "agreed (normal_state j) = {} \<and> voted (normal_state j) \<subseteq> {(1, 3)}" if "j \<in> correct 1 {3}" for j
    using that unfolding correct_demo
    by (auto simp: set_agreed_list [symmetric] set_voted_list [symmetric] normal_agreed normal_voted)
  then show "\<forall>j \<in> correct 1 {3}. (n, env_null_digest demo_env) \<notin> voted (normal_state j) \<and>
      n \<notin> reopened (normal_state j)"
    using reopened_agreed by (fastforce simp: demo_env_def)
  show "0 \<in> correct 1 {3}" "1 \<in> correct 1 {3}" unfolding correct_demo by simp_all
qed simp

lemma counter_replicated: "replicated_service counter_service"
  by unfold_locales (simp add: counter_service_def)

lemma normal_clean: "clean demo_env 1 {3} normal_state"
  using normal_hypotheses(7) by (auto simp: clean_def)

section \<open>Agreement\<close>

text \<open>
  C1. Agreement: in a group of \<open>3 f + 1\<close> replicas of which at most \<open>f\<close> misbehave, two correct replicas
  that commit a request under one sequence number, in whatever views, commit the same digest;
  provided no correct replica has prepared the default digest under that number or prepared the
  number again after its own checkpoint at it (the next properties show that the code fails
  without either).
\<close>

theorem agreement:
  assumes "reachable E f F cfg C" and "3 * f + 1 < 2 ^ 32" and "F \<subseteq> replicas f" and "card F \<le> f"
    and "i \<in> correct f F" and "k \<in> correct f F"
    and "(n, d) \<in> committed (C i)" and "(n, d') \<in> committed (C k)"
    and "\<forall>j \<in> correct f F. (n, env_null_digest E) \<notin> voted (C j) \<and> n \<notin> reopened (C j)"
  shows "d = d'"
  by (rule committed_digest_unique [OF assms(1-8)]) (use assms(9) in blast)

theorem agreement_witness:
  "\<exists>d d'. (1, d) \<in> committed (normal_state 0) \<and> (1, d') \<in> committed (normal_state 1) \<and> d = d'"
  using agreement [OF normal_reachable _ normal_hypotheses(1-7)] normal_hypotheses(5,6) by auto

text \<open>
  C5. A correct replica commits only what at least \<open>f + 1\<close> correct replicas have prepared under that
  number, counting those that have prepared the default digest, which the code takes for votes
  for any digest.
\<close>

theorem commit_certificate:
  assumes "reachable E f F cfg C" and "3 * f + 1 < 2 ^ 32" and "F \<subseteq> replicas f" and "card F \<le> f"
    and "i \<in> correct f F" and "(n, d) \<in> committed (C i)"
  shows "f + 1 \<le> card {r \<in> correct f F. (n, d) \<in> voted (C r) \<or> (n, env_null_digest E) \<in> voted (C r)}"
proof -
  let ?B = "backed (vote_of f F C) E n d"
  let ?Q = "{r \<in> correct f F. (n, d) \<in> voted (C r) \<or> (n, env_null_digest E) \<in> voted (C r)}"
  note B = commit_quorum [OF assms(1,2,5,3,6)]
  have fin: "finite (replicas f)" by (rule finite)
  have "?B \<subseteq> F \<union> ?Q" by (auto simp: backed_def vote_of_def)
  then have "card ?B \<le> card (F \<union> ?Q)" by (rule card_mono [rotated]) simp
  also have "\<dots> \<le> card F + card ?Q" by (rule card_Un_le)
  finally show ?thesis using B(2) assms(4) by linarith
qed

theorem commit_certificate_witness:
  "2 \<le> card {r \<in> correct 1 {3}. (1, 3) \<in> voted (normal_state r) \<or> (1, env_null_digest demo_env) \<in> voted (normal_state r)}"
  using commit_certificate [OF normal_reachable small_group normal_hypotheses(1-3,5)] by simp

text \<open>
  C6. A correct replica sends commit messages in its own name only and, for one sequence number, with
  one digest only, over all views, unless it has prepared the number again after its own
  checkpoint at it.
\<close>

theorem one_vote_per_number:
  assumes "reachable E f F cfg C" and "3 * f + 1 < 2 ^ 32" and "i \<in> correct f F"
    and "m \<in> sent_commits (C i)" and "m' \<in> sent_commits (C i)" and "cm_seq_num m = cm_seq_num m'"
    and "cm_seq_num m \<notin> reopened (C i)"
  shows "cm_replica_id m = i \<and> cm_req_digest m = cm_req_digest m'"
proof -
  from member_ok_reachable [OF assms(1-3)] have ok: "vote_ok (C i)" "nd_id (C i) = i"
    by (simp_all add: member_ok_def)
  with assms(4,5) have "cm_replica_id m = i" "(cm_seq_num m, cm_req_digest m) \<in> voted (C i)"
    "(cm_seq_num m, cm_req_digest m') \<in> voted (C i)"
    unfolding vote_ok_def using assms(6) by metis+
  with vote_ok_unique [OF ok(1)] assms(7) show ?thesis by blast
qed

theorem one_vote_per_number_witness:
  "\<exists>m \<in> sent_commits (normal_state 0). cm_replica_id m = 0 \<and> cm_seq_num m = 1"
proof -
  have "commit_list (normal_state 0) = [CommitMsg_ctor mute_stream 0 1 3 0]" by code_simp
  then have m: "CommitMsg_ctor mute_stream 0 1 3 0 \<in> sent_commits (normal_state 0)"
    using set_commit_list [of "normal_state 0"] by auto
  have "1 \<notin> reopened (normal_state 0)" using normal_hypotheses(3,7) by blast
  then have "cm_replica_id (CommitMsg_ctor mute_stream 0 1 3 0) = 0"
    using one_vote_per_number [OF normal_reachable small_group normal_hypotheses(3) m m] by simp
  with m show ?thesis by force
qed

text \<open>
  C18. A correct primary that orders a request takes the next number, does not wrap around, stays at
  or below the high watermark, and takes a number for which it holds no pre-prepare yet.
\<close>

theorem primary_never_reuses_number:
  assumes "reachable E f F cfg C" and "3 * f + 1 < 2 ^ 32" and "i \<in> correct f F"
    and "nd_seq_num (on_request E m (C i)) \<noteq> nd_seq_num (C i)"
  shows "is_primary (C i) \<and> nd_seq_num (on_request E m (C i)) = nd_seq_num (C i) + 1 \<and>
    nd_seq_num (C i) < nd_seq_num (C i) + 1 \<and> nd_seq_num (C i) + 1 \<le> nd_H (C i) \<and>
    nd_seq_num (C i) + 1 \<notin> proposed (C i)"
proof (cases rule: on_request_cases [of E m "C i"])
  case 1
  with assms(4) show ?thesis by simp
next
  case 2
  have "primary_ok (C i)"
    using member_ok_reachable [OF assms(1-3)] by (simp add: member_ok_def node_ok_def)
  from fresh_sequence_number [OF this 2(1,3)] 2 show ?thesis
    by (simp add: inc_le)
qed

theorem primary_never_reuses_number_witness:
  "nd_seq_num (normal_state 0) + 1 \<notin> proposed (normal_state 0)"
proof -
  have "nd_seq_num (on_request demo_env (RequestMsg_ctor mute_stream ''x'' 5 8) (normal_state 0)) \<noteq>
      nd_seq_num (normal_state 0)" by code_simp
  from primary_never_reuses_number [OF normal_reachable small_group normal_hypotheses(3) this]
  show ?thesis by blast
qed

text \<open>
  C17. The thresholds of the constructor, \<open>2 * f_ + 1\<close> with \<open>f_ = (n_ - 1) / 3\<close>, are quorums (two of them
  share more members than can be faulty) exactly if the number of replicas is of the form \<open>3 f + 1\<close>;
  the code accepts any number.
\<close>

theorem thresholds_sound_iff:
  assumes "cfg_num_replicas cfg \<noteq> 0" and "s = Node_ctor E i cfg svc b"
  shows "quorum_system {r. r < nd_n s} (unat (2 * nd_f s + 1)) (unat (nd_f s)) \<longleftrightarrow>
    unat (nd_n s) mod 3 = 1"
proof -
  let ?n = "unat (nd_n s)"
  have n: "0 < ?n" "?n < 2 ^ 32"
    using assms unsigned_less [of "nd_n s", where 'a = nat] by (simp_all add: unat_gt_0)
  have "unat (nd_n s - 1) = ?n - 1" using n(1) by (simp add: unat_minus_one assms)
  then have f: "unat (nd_f s) = (?n - 1) div 3" by (simp add: assms unat_div)
  have "nd_f s = of_nat ((?n - 1) div 3)" by (simp only: f [symmetric]) simp
  moreover have "3 * ((?n - 1) div 3) + 1 < 2 ^ 32" using n by linarith
  ultimately have q: "unat (2 * nd_f s + 1) = 2 * ((?n - 1) div 3) + 1"
    using quorum_threshold by metis
  have "{r. r < nd_n s} = {r. unat r < ?n}" by (simp add: word_less_nat_alt)
  moreover have "card {r :: u32. unat r < ?n} = ?n"
  proof -
    have "unat ` {r :: u32. unat r < ?n} = {..< ?n}"
    proof -
      have "k = unat (of_nat k :: u32)" if "k < ?n" for k
        using that n(2) by (simp add: unat_of_nat take_bit_nat_eq_self_iff)
      then show ?thesis by (auto simp: image_iff) metis
    qed
    moreover have "inj_on unat {r :: u32. unat r < ?n}" by (simp add: inj_on_def word_unat_eq_iff)
    ultimately show ?thesis using card_image by fastforce
  qed
  ultimately have "quorum_system {r. r < nd_n s} (unat (2 * nd_f s + 1)) (unat (nd_f s)) \<longleftrightarrow>
     ?n + (?n - 1) div 3 < 2 * (2 * ((?n - 1) div 3) + 1)"
    by (simp add: quorum_system_def q f)
  also have "\<dots> \<longleftrightarrow> ?n mod 3 = 1" using n(1) by presburger
  finally show ?thesis .
qed

theorem thresholds_sound_iff_witness:
  "\<not> quorum_system {r. r < nd_n (Node_ctor demo_env 0 (demo_config\<lparr>cfg_num_replicas := 6\<rparr>) 0 False)}
     (unat (2 * nd_f (Node_ctor demo_env 0 (demo_config\<lparr>cfg_num_replicas := 6\<rparr>) 0 False) + 1))
     (unat (nd_f (Node_ctor demo_env 0 (demo_config\<lparr>cfg_num_replicas := 6\<rparr>) 0 False)))"
proof -
  have "cfg_num_replicas (demo_config\<lparr>cfg_num_replicas := 6\<rparr>) \<noteq> 0" by simp
  from thresholds_sound_iff [OF this refl, of demo_env 0 0 False] show ?thesis by simp
qed

text \<open>
  C13. One faulty primary is enough to make correct replicas commit different digests under one number:
  votes for the default digest are counted for entries that have no pre-prepare yet, and stay
  counted when a pre-prepare with another digest comes.
\<close>

theorem disagreement_on_default_digest:
  "\<exists>C. reachable demo_env 1 {0} demo_config C \<and> {1, 3} \<subseteq> correct 1 {0} \<and>
     (1, 0) \<in> committed (C 1) \<and> (1, 5) \<in> committed (C 3)"
  using attack_reachable attack_committed set_committed_list
  by (metis correct_demo(1) insert_subset insertCI empty_subsetI list.set_intros(1))

text \<open>
  C14. One faulty primary is enough to make a correct replica commit two digests under one number: the
  checkpoint at the number erases its entry, and the window still admits the number.
\<close>

theorem number_committed_twice:
  "\<exists>C. reachable demo_env 1 {0} eager_config C \<and> 1 \<in> correct 1 {0} \<and>
     (1, 3) \<in> committed (C 1) \<and> (1, 5) \<in> committed (C 1)"
proof -
  have "(1, 3) \<in> committed (play demo_env reopening_run eager_node 1)"
    "(1, 5) \<in> committed (play demo_env reopening_run eager_node 1)"
    by (simp_all add: set_committed_list [symmetric] reopening_committed)
  with reopening_reachable show ?thesis unfolding correct_demo by blast
qed

section \<open>Replication\<close>

text \<open>
  C2. Replication: in a group of \<open>3 f + 1\<close> replicas of which at most \<open>f\<close> misbehave, let no correct
  replica have prepared the default digest under any number, nor prepared a number again after its own
  checkpoint at it (without either the code breaks agreement), let the service be deterministic with an
  \<open>initialize\<close> that resets it, and let a digest determine the operation it stands for. Then of
  two correct replicas the one that has executed less has executed a prefix of what the other has, and
  the state of the other is its own after the remaining operations.
\<close>

theorem replication:
  assumes "reachable E f F cfg C" and "3 * f + 1 < 2 ^ 32" and "F \<subseteq> replicas f" and "card F \<le> f"
    and "i \<in> correct f F" and "k \<in> correct f F" and "clean E f F C"
    and "replicated_service (env_service E)"
    and "length (history (C i)) \<le> length (history (C k))"
    and "\<forall>x \<in> set (history (C i)) \<union> set (history (C k)). ex_op x = g (ex_digest x)"
  shows "map ex_op (history (C i)) = take (length (history (C i))) (map ex_op (history (C k))) \<and>
    nd_service (C k) = run_ops (env_service E) (nd_service (C i))
      (drop (length (history (C i))) (map ex_op (history (C k))))"
proof -
  from reachable_history [OF assms(1), of i] obtain svc
    where i: "history_ok (env_service E) (svc_initialize (env_service E) svc) (C i)" .
  from reachable_history [OF assms(1), of k] obtain svc'
    where k: "history_ok (env_service E) (svc_initialize (env_service E) svc') (C k)" .
  have "map ex_op (history (C i)) = take (length (history (C i))) (map ex_op (history (C k)))"
    using assms(10) by (intro histories_prefix [OF assms(1-7,9), where g = g]) blast
  with state_of_prefix [OF assms(8) i k] show ?thesis by blast
qed

theorem replication_witness:
  "length (history (normal_state 0)) = 1 \<and> nd_service (normal_state 1) =
     run_ops counter_service (nd_service (normal_state 0)) []"
proof -
  have "env_service demo_env = counter_service" by (simp add: demo_env_def)
  with replication [OF normal_reachable _ normal_hypotheses(1-4) normal_clean, of "\<lambda>_. ''op''"]
    counter_replicated show ?thesis by (simp add: normal_history)
qed

text \<open>
  C7. With the key-value service, in a group of \<open>3 f + 1\<close> replicas of which at most \<open>f\<close> misbehave: if no
  correct replica has prepared the default digest or prepared a number again after its own checkpoint at it,
  a digest determines its operation, and every operation executed is the text of a command with a key of
  one word, then two correct replicas that have executed the same number of operations hold the same store,
  and it is the finite map that the commands of the history denote.
\<close>

theorem kv_replicas_agree:
  assumes "reachable E f F cfg C" and "3 * f + 1 < 2 ^ 32" and "F \<subseteq> replicas f" and "card F \<le> f"
    and "i \<in> correct f F" and "k \<in> correct f F" and "clean E f F C"
    and "env_service E = kv_service h"
    and "length (history (C i)) = length (history (C k))"
    and "\<forall>x \<in> set (history (C i)) \<union> set (history (C k)). ex_op x = g (ex_digest x)"
    and "map ex_op (history (C i)) = map command_text cs" and "list_all (\<lambda>c. plain_word (command_key c)) cs"
  shows "map_of (nd_service (C i)) = abstract_run Map.empty cs \<and> nd_service (C k) = nd_service (C i)"
proof -
  from reachable_history [OF assms(1), of i] obtain svc
    where i: "history_ok (env_service E) (svc_initialize (env_service E) svc) (C i)" .
  from reachable_history [OF assms(1), of k] obtain svc'
    where k: "history_ok (env_service E) (svc_initialize (env_service E) svc') (C k)" .
  have "map ex_op (history (C i)) = take (length (history (C i))) (map ex_op (history (C k)))"
    using assms(9,10) by (intro histories_prefix [OF assms(1-7), where g = g]) auto
  then have same: "map ex_op (history (C i)) = map ex_op (history (C k))" by (simp add: assms(9))
  have "nd_service (C i) = run_ops (kv_service h) [] (map command_text cs)"
    "nd_service (C k) = run_ops (kv_service h) [] (map command_text cs)"
    using i k unfolding history_ok_def same [symmetric] assms(8,11)
    by (simp_all add: kv_service_def kv_initialize_def)
  then show ?thesis using kv_run_refines [OF assms(12), of h "[]"] by simp
qed

lemma kv_clean: "clean kv_env 1 {3} kv_state"
proof -
  have "agreed (kv_state j) = {} \<and> voted (kv_state j) \<subseteq> {(1, 8)}" if "j \<in> correct 1 {3}" for j
    using that unfolding correct_demo
    by (auto simp: set_agreed_list [symmetric] set_voted_list [symmetric] kv_votes)
  then show ?thesis using reopened_agreed by (fastforce simp: clean_def kv_env_def)
qed

theorem kv_replicas_agree_witness:
  "map_of (nd_service (kv_state 0)) = [''a'' \<mapsto> 1] \<and> nd_service (kv_state 1) = nd_service (kv_state 0)"
proof -
  have svc: "env_service kv_env = kv_service (\<lambda>s. of_nat (length s))" by (simp add: kv_env_def)
  have ops: "map ex_op (history (kv_state 0)) = map command_text [Put ''a'' 1]"
    "list_all (\<lambda>c. plain_word (command_key c)) [Put ''a'' 1]"
    by (simp_all add: kv_history small_numbers plain_word_def is_space_def)
  have "length (history (kv_state 0)) = length (history (kv_state 1))"
    "\<forall>x \<in> set (history (kv_state 0)) \<union> set (history (kv_state 1)). ex_op x = (\<lambda>_. ''PUT a 1'') (ex_digest x)"
    by (simp_all add: kv_history)
  from kv_replicas_agree [OF kv_reachable small_group normal_hypotheses(1-4) kv_clean svc this ops]
  show ?thesis by simp
qed

section \<open>Checkpoints\<close>

text \<open>The checkpoint messages with the id of a correct replica are messages that this replica has sent.\<close>

definition genuine_checkpoints :: "nat \<Rightarrow> u32 set \<Rightarrow> 'svc cluster \<Rightarrow> event list \<Rightarrow> bool" where
  "genuine_checkpoints f F C evs \<longleftrightarrow> (\<forall>c m. Deliver c (WCheckpoint m) \<in> set evs \<longrightarrow> ck_replica_id m \<in> F \<or>
     ck_replica_id m \<in> correct f F \<and> (\<exists>c' m'. Send c' (WCheckpoint m') \<in> set (nd_out (C (ck_replica_id m))) \<and>
       ck_seq_num m' = ck_seq_num m \<and> ck_state_digest m' = ck_state_digest m))"

text \<open>
  C12. Suppose that the checkpoint messages that reach a correct replica carry ids of the group, and
  those with the id of a correct replica are messages that this replica has sent (the code does not
  check it, and a single peer can send all of them). Then a checkpoint that becomes stable there is true, with
  at most \<open>f\<close> faulty replicas of \<open>3 f + 1\<close>: at least \<open>f + 1\<close> correct replicas have executed as many operations as its
  sequence number says and their service had its digest then.
\<close>

theorem stable_checkpoint_genuine:
  assumes "reachable E f F cfg C" and "3 * f + 1 < 2 ^ 32" and "card F \<le> f" and "i \<in> correct f F"
    and "trace E (Node_ctor E i cfg svc b) evs (C i)" and "genuine_checkpoints f F C evs"
    and "Log (LogCheckpointAgreed v n d) \<in> set (nd_out (C i))"
  shows "f + 1 \<le> card {r \<in> correct f F. \<exists>svc. true_digest (env_service E)
    (svc_initialize (env_service E) svc) (operations (C r)) n d}"
proof -
  let ?S = "env_service E" and ?Q = "{r \<in> correct f F. \<exists>svc. true_digest (env_service E)
    (svc_initialize (env_service E) svc) (operations (C r)) n d}"
  let ?V = "voters ?S (svc_initialize ?S svc) (received evs) (C i) n d"
  have i: "nd_id (C i) = i" "nd_f (C i) = of_nat f"
    using member_ok_reachable [OF assms(1,2,4)] by (simp_all add: member_ok_def)
  have "unat (2 * nd_f (C i) + 1) \<le> card ?V"
    using checkpoints_ok_trace [OF assms(5)] assms(7) by (auto simp: checkpoints_ok_def)
  then have "2 * f + 1 \<le> card ?V" using quorum_threshold [OF assms(2)] by (simp only: i)
  moreover have "?V \<subseteq> F \<union> ?Q"
  proof
    fix r assume "r \<in> ?V"
    then consider "r \<in> received evs n d" | "r = i" "true_digest ?S (svc_initialize ?S svc) (operations (C i)) n d"
      by (auto simp: voters_def i)
    then show "r \<in> F \<union> ?Q"
    proof cases
      case 1
      then consider "r \<in> F" | c m where "r \<in> correct f F" "Send c (WCheckpoint m) \<in> set (nd_out (C r))"
        "ck_seq_num m = n" "ck_state_digest m = d"
        using assms(6) unfolding received_def genuine_checkpoints_def by blast
      then show ?thesis
      proof cases
        case (2 c m)
        from reachable_trace [OF assms(1)] obtain svc' b' evs'
          where "trace E (Node_ctor E r cfg svc' b') evs' (C r)" by blast
        from checkpoints_ok_trace [OF this] 2(2-4)
        have "true_digest ?S (svc_initialize ?S svc') (operations (C r)) n d"
          unfolding checkpoints_ok_def by blast
        with 2(1) show ?thesis by blast
      qed simp
    next
      case 2
      with assms(4) show ?thesis by blast
    qed
  qed
  then have "card ?V \<le> card (F \<union> ?Q)" by (rule card_mono [rotated]) simp
  moreover have "card (F \<union> ?Q) \<le> card F + card ?Q" by (rule card_Un_le)
  ultimately show ?thesis using assms(3) by linarith
qed

lemma reopening_genuine:
  "genuine_checkpoints 1 {0} (play demo_env reopening_run eager_node) (events_of 1 reopening_run)"
proof -
  have "\<exists>c. Send c (WCheckpoint (CheckpointMsg_ctor mute_stream 1 1 2)) \<in>
      set (nd_out (play demo_env reopening_run eager_node 2))"
    by (rule in_checkpoint_list) (simp add: reopening_stable)
  moreover have "m = CheckpointMsg_ctor mute_stream 1 1 2 \<or> m = CheckpointMsg_ctor mute_stream 1 1 0"
    if "Deliver c (WCheckpoint m) \<in> set (events_of 1 reopening_run)" for c m
    using that by (simp add: events_of_def reopening_run_def ordering_round_def demo_events checkpoint_from_def) auto
  ultimately show ?thesis
    unfolding genuine_checkpoints_def correct_demo by fastforce
qed

theorem stable_checkpoint_genuine_witness:
  "1 + 1 \<le> card {r \<in> correct 1 {0}. \<exists>svc. true_digest (env_service demo_env)
     (svc_initialize (env_service demo_env) svc) (operations (play demo_env reopening_run eager_node r)) 1 1}"
proof (rule stable_checkpoint_genuine [OF reopening_reachable])
  have "trace demo_env (eager_node 1) ([] @ events_of 1 reopening_run) (play demo_env reopening_run eager_node 1)"
    unfolding play_events by (rule trace_fold [OF trace.trace_refl])
  then show "trace demo_env (Node_ctor demo_env 1 eager_config 0 False) (events_of 1 reopening_run)
      (play demo_env reopening_run eager_node 1)"
    by (simp add: eager_node_def)
  show "Log (LogCheckpointAgreed 0 1 1) \<in> set (nd_out (play demo_env reopening_run eager_node 1))"
    by (rule in_stable_list) (simp add: reopening_stable)
  show "1 \<in> correct 1 {0}" unfolding correct_demo by simp
  show "genuine_checkpoints 1 {0} (play demo_env reopening_run eager_node) (events_of 1 reopening_run)"
    by (rule reopening_genuine)
qed simp_all

section \<open>What a client can rely on\<close>

text \<open>The replies with the id of a correct replica are replies that this replica has sent.\<close>

definition genuine :: "nat \<Rightarrow> u32 set \<Rightarrow> 'svc cluster \<Rightarrow> client_event list \<Rightarrow> bool" where
  "genuine f F C evs \<longleftrightarrow> (\<forall>m. ClReply m \<in> set evs \<longrightarrow> rp_replica_id m \<in> F \<or>
     rp_replica_id m \<in> correct f F \<and> (\<exists>c m'. Send c (WReply m') \<in> set (nd_out (C (rp_replica_id m))) \<and>
       rp_client_id m' = rp_client_id m \<and> rp_timestamp m' = rp_timestamp m \<and> rp_result m' = rp_result m))"

lemma delivered_from_correct:
  assumes "genuine f F C evs" and "card F \<le> f" and "3 * f + 1 < 2 ^ 32"
    and "ccfg_num_replicas ccfg = of_nat (3 * f + 1)"
    and "(ts, res) \<in> set (cl_done (client_run D conn_ok evs (Client_ctor cid ccfg t0)))"
  obtains i c m where "i \<in> correct f F" "Send c (WReply m) \<in> set (nd_out (C i))"
    "rp_client_id m = cid" "rp_timestamp m = ts" "rp_result m = res"
proof -
  let ?R = "{r. replied evs cid ts r res}"
  have "cl_f (Client_ctor cid ccfg t0) = of_nat f"
    using tolerated_faults [OF assms(3)] by (simp add: Client_ctor_def assms(4))
  moreover have "unat (of_nat f + 1 :: u32) = f + 1"
  proof -
    have "of_nat f + 1 = (of_nat (f + 1) :: u32)" by simp
    with assms(3) show ?thesis by (simp only:) (simp add: unat_of_nat take_bit_nat_eq_self_iff del: of_nat_Suc of_nat_add)
  qed
  moreover have "cl_id (Client_ctor cid ccfg t0) = cid" by (simp add: Client_ctor_def)
  ultimately have "f + 1 \<le> card ?R"
    using client_ok_run [of evs D conn_ok cid ccfg t0] assms(5) by (fastforce simp: client_ok_def)
  moreover have "finite F" by simp
  ultimately obtain r where "r \<in> ?R" "r \<notin> F"
    using pbft.correct_member [of F f ?R] assms(2) by auto
  with assms(1) that show thesis by (auto simp: replied_def genuine_def)
qed

definition normal_replies_events :: "client_event list" where
  "normal_replies_events = [ClInvoke ''op'', ClReply (ReplyMsg_ctor mute_stream 0 1 7 0 ''op''),
     ClReply (ReplyMsg_ctor mute_stream 0 1 7 1 ''op'')]"

lemma normal_genuine: "genuine 1 {3} normal_state normal_replies_events"
proof -
  have "\<exists>c. Send c (WReply (ReplyMsg_ctor mute_stream 0 1 7 0 ''op'')) \<in> set (nd_out (normal_state 0))"
    "\<exists>c. Send c (WReply (ReplyMsg_ctor mute_stream 0 1 7 1 ''op'')) \<in> set (nd_out (normal_state 1))"
    by (rule set_reply_list; simp add: normal_replies)+
  then show ?thesis
    unfolding genuine_def normal_replies_events_def correct_demo by fastforce
qed

lemma normal_delivered:
  "(1, ''op'') \<in> set (cl_done (client_run mute_stream (\<lambda>_. True) normal_replies_events
     (Client_ctor 7 \<lparr>ccfg_num_replicas = 4, ccfg_request_timeout = 500, ccfg_tls_config = None\<rparr> 0)))"
  by code_simp

lemma four_replicas:
  "ccfg_num_replicas \<lparr>ccfg_num_replicas = 4, ccfg_request_timeout = 500, ccfg_tls_config = None\<rparr> = of_nat (3 * 1 + 1)"
  by simp

text \<open>
  The events that led a correct replica to its state contain only genuine requests of the client: a
  request with its id is one of its calls, under the timestamp the call was given.
\<close>

definition genuine_requests :: "u32 \<Rightarrow> u64 \<Rightarrow> client_event list \<Rightarrow> event list \<Rightarrow> bool" where
  "genuine_requests cid t0 evs trc \<longleftrightarrow> (\<forall>q \<in> requests trc. rq_client_id q = cid \<longrightarrow>
     (\<exists>k < length (calls evs). rq_timestamp q = t0 + of_nat (Suc k) \<and> rq_operation q = calls evs ! k))"

text \<open>
  C3. End to end: the result that the client delivers for its \<open>k\<close>-th call is the result of executing
  the operation of that very call, at one position of the history that all correct replicas share. Some
  correct replica has executed it there, and every one that has got so far has executed
  the same operation with the same result. The hypotheses are those of replication (at most \<open>f\<close> faulty
  replicas of \<open>3 f + 1\<close>, no correct one has prepared the default digest or prepared a number again after its
  own checkpoint at it, \<open>initialize\<close> resets the service, a digest determines its operation), that the client
  is configured for the group and makes fewer than \<open>2 ^ 64\<close> calls, that every reply it gets carries an id of the
  group and, if it is that of a correct replica, is one that this replica has sent, and that the requests with
  the client's id that reach correct replicas are its calls. The code checks neither of the last two.
\<close>

theorem client_call_executed:
  assumes "reachable E f F cfg C" and "3 * f + 1 < 2 ^ 32" and "F \<subseteq> replicas f" and "card F \<le> f"
    and "ccfg_num_replicas ccfg = of_nat (3 * f + 1)" and "genuine f F C evs" and "clean E f F C"
    and "replicated_service (env_service E)"
    and "\<forall>i \<in> correct f F. \<forall>x \<in> set (history (C i)). ex_op x = g (ex_digest x)"
    and "\<forall>i \<in> correct f F. trace E (Node_ctor E i cfg (sv i) (tm i)) (tr i) (C i) \<and>
      genuine_requests cid t0 evs (tr i)"
    and "(t0 + of_nat (Suc k), res) \<in> set (cl_done (client_run D conn_ok evs (Client_ctor cid ccfg t0)))"
    and "k < length (calls evs)" and "length (calls evs) < 2 ^ 64"
  shows "\<exists>j. (\<exists>i \<in> correct f F. j < length (history (C i))) \<and>
    (\<forall>i \<in> correct f F. j < length (history (C i)) \<longrightarrow> operations (C i) ! j = calls evs ! k \<and>
       result_at (env_service E) (svc_initialize (env_service E) svc) (operations (C i)) j = res)"
proof -
  let ?S = "env_service E" and ?s0 = "svc_initialize (env_service E) svc"
  from delivered_from_correct [OF assms(6,4,2,5,11)] obtain i c m where i: "i \<in> correct f F"
    and m: "Send c (WReply m) \<in> set (nd_out (C i))" "rp_client_id m = cid"
      "rp_timestamp m = t0 + of_nat (Suc k)" "rp_result m = res" .
  have init: "svc_initialize ?S (sv i) = ?s0"
    using replicated_service.initialize_resets [OF assms(8)] .
  from assms(10) i have tr: "trace E (Node_ctor E i cfg (sv i) (tm i)) (tr i) (C i)"
    "genuine_requests cid t0 evs (tr i)" by blast+
  from answers_ok_trace [OF tr(1)] m have "answered ?S ?s0 (requests (tr i)) (operations (C i)) cid
      (t0 + of_nat (Suc k)) res" unfolding answers_ok_def init by metis
  then obtain q j where q: "q \<in> requests (tr i)" "rq_client_id q = cid" "rq_timestamp q = t0 + of_nat (Suc k)"
    "j < length (history (C i))" "operations (C i) ! j = rq_operation q" "res = result_at ?S ?s0 (operations (C i)) j"
    unfolding answered_def length_map by blast
  with tr(2) obtain k' where k': "k' < length (calls evs)" "(of_nat (Suc k) :: u64) = of_nat (Suc k')"
    "rq_operation q = calls evs ! k'" unfolding genuine_requests_def by force
  have "k' = k" using of_nat_inj_u64 [OF _ _ k'(2)] k'(1) assms(12,13) by simp
  with q k' have here: "operations (C i) ! j = calls evs ! k" by simp
  have "operations (C r) ! j = calls evs ! k \<and> result_at ?S ?s0 (operations (C r)) j = res"
    if r: "r \<in> correct f F" "j < length (history (C r))" for r
  proof -
    have "take (Suc j) (operations (C r)) = take (Suc j) (operations (C i))"
      using assms(9) i r(1) by (intro histories_common [OF assms(1-4) r(1) i assms(7) r(2) q(4), where g = g]) blast
    from result_at_cong [OF this, of ?S ?s0] q(4,6) r(2) here show ?thesis by simp
  qed
  with i q(4) show ?thesis by blast
qed

lemma normal_requests: "i \<in> correct 1 {3} \<Longrightarrow> genuine_requests 7 0 normal_replies_events (events_of i normal_run)"
  unfolding correct_demo
  by (auto simp: genuine_requests_def requests_def events_of_def normal_run_def demo_events demo_request_def
      normal_replies_events_def calls_def)

theorem client_call_executed_witness:
  "\<exists>j. \<exists>i \<in> correct 1 {3}. j < length (history (normal_state i)) \<and>
     operations (normal_state i) ! j = ''op'' \<and>
     result_at (env_service demo_env) (svc_initialize (env_service demo_env) 0)
       (operations (normal_state i)) j = ''op''"
proof -
  have svc: "replicated_service (env_service demo_env)"
    using counter_replicated by (simp add: demo_env_def)
  have ops: "\<forall>i \<in> correct 1 {3}. \<forall>x \<in> set (history (normal_state i)). ex_op x = (\<lambda>_. ''op'') (ex_digest x)"
    unfolding correct_demo by (simp add: normal_history)
  have "trace demo_env (demo_node i) ([] @ events_of i normal_run) (normal_state i)" for i
    unfolding normal_state_def play_events by (rule trace_fold [OF trace.trace_refl])
  then have tr: "\<forall>i \<in> correct 1 {3}. trace demo_env (Node_ctor demo_env i demo_config 0 False)
      (events_of i normal_run) (normal_state i) \<and> genuine_requests 7 0 normal_replies_events (events_of i normal_run)"
    using normal_requests by (auto simp: demo_node_def)
  have calls: "calls normal_replies_events = [''op'']" by (simp add: normal_replies_events_def calls_def)
  have "(0 + of_nat (Suc 0), ''op'') \<in> set (cl_done (client_run mute_stream (\<lambda>_. True) normal_replies_events
      (Client_ctor 7 \<lparr>ccfg_num_replicas = 4, ccfg_request_timeout = 500, ccfg_tls_config = None\<rparr> 0)))"
    using normal_delivered by simp
  from client_call_executed [OF normal_reachable small_group normal_hypotheses(1,2) four_replicas
      normal_genuine normal_clean svc ops tr this] calls
  show ?thesis by fastforce
qed

text \<open>
  C4. From the call to its result, for \<open>f > 0\<close>: \<open>k \<ge> 2 f + 1\<close> replicas, the primary among them, are connected with each
  other and at work in one view with the same state of the service, the next number to execute is the same for all, inside
  their windows, not a checkpoint number, and not in their logs, nor is its successor; the primary gets the new
  request of a call that is in flight without replies. Only messages that members have sent each other since
  then are delivered among them, each once, without timeouts; a commit message does not overtake the pre-prepare, or, if
  \<open>k = 2 f + 1\<close>, at least that of the primary does not; otherwise their order is arbitrary. Then at most \<open>2 k (k - 1)\<close>
  messages are delivered, and unless one more can be delivered, every member has executed the request next and has sent
  its reply, and as soon as the replies of any \<open>f + 1\<close> members arrive, in any order, the call returns the result of the
  execution.
\<close>

theorem call_completes:
  assumes "group_ok E rd g" and "serves E rd g tr C"
    and "\<forall>i \<in> gr_members g. nd_service (gr_base g i) = svc"
    and "cl_inflight c (rq_timestamp (rd_req rd)) =
      Some \<lparr>if_timestamp = rq_timestamp (rd_req rd), if_seen_replicas = {}, if_result_counts = []\<rparr>"
    and "rq_client_id (rd_req rd) = cl_id c" and "cl_f c = of_nat (rd_f rd)"
  shows "length tr \<le> 2 * card (gr_members g) * (card (gr_members g) - 1) \<and>
    ((\<exists>x. deliverable rd g tr C x) \<or>
     (\<forall>i \<in> gr_members g. round_done E rd (gr_base g i) (C i)) \<and>
     (\<forall>rs. distinct rs \<and> set rs \<subseteq> gr_members g \<and> length rs = rd_f rd + 1 \<longrightarrow>
        (rq_timestamp (rd_req rd), snd (svc_execute (env_service E) svc (rq_operation (rd_req rd))))
          \<in> set (cl_done (fold on_reply (map (\<lambda>i. rd_reply E rd (gr_base g i)) rs) c))))"
proof -
  let ?res = "snd (svc_execute (env_service E) svc (rq_operation (rd_req rd)))"
  have f: "3 * rd_f rd + 1 < 2 ^ 32" using assms(1) by (simp add: group_ok_def Let_def)
  have threshold: "unat (cl_f c + 1) = rd_f rd + 1"
  proof -
    have "cl_f c + 1 = of_nat (rd_f rd + 1)" by (simp add: assms(6))
    also have "unat \<dots> = rd_f rd + 1" using f by (simp only: unat_of_nat) (simp add: take_bit_nat_eq_self)
    finally show ?thesis .
  qed
  have "(rq_timestamp (rd_req rd), ?res) \<in> set (cl_done (fold on_reply (map (\<lambda>i. rd_reply E rd (gr_base g i)) rs) c))"
    if rs: "distinct rs" "set rs \<subseteq> gr_members g" "length rs = rd_f rd + 1" for rs
  proof -
    let ?reply = "\<lambda>i. ReplyMsg_ctor (env_stream E) (rd_view rd) (rq_timestamp (rd_req rd)) (cl_id c) i ?res"
    have replies: "map (\<lambda>i. rd_reply E rd (gr_base g i)) rs = map ?reply rs"
      using rs(2) assms(3,5) member_ok_group(1) [OF assms(1)] by (auto simp: rd_reply_def rd_outcome_def)
    show ?thesis
      unfolding replies
    proof (rule enough_replies [OF assms(4)])
      have "map rp_replica_id (map ?reply rs) = rs" by (simp add: comp_def)
      with rs(1) show "distinct (map rp_replica_id (map ?reply rs))" by (simp only:)
    qed (use rs(3) in \<open>auto simp: answers_def count_of_def threshold\<close>)
  qed
  with round_executes [OF assms(1,2)] show ?thesis by blast
qed

text \<open>The group and the run of the theory \<open>Group_Progress\<close>, for the call that the waiting client has in flight.\<close>

definition demo_result :: "nat cluster" where
  "demo_result = fold (delivered demo_env demo_group) demo_deliveries demo_asked"

lemma demo_serves: "serves demo_env demo_round demo_group demo_deliveries demo_result"
proof -
  have "serves demo_env demo_round demo_group [] demo_asked"
    using serves.request [OF refl, of demo_env demo_round demo_group 9]
    by (simp add: demo_asked_def demo_primary demo_group_def fun_upd_def)
  from plays_serves [OF this demo_plays] show ?thesis by (simp add: demo_result_def)
qed

theorem call_completes_witness:
  "round_done demo_env demo_round (demo_member 1) (demo_result 1) \<and>
   (1, ''op'') \<in> set (cl_done (fold on_reply
      (map (\<lambda>i. rd_reply demo_env demo_round (demo_member i)) [2, 0]) waiting_client))"
proof -
  have services: "\<forall>i \<in> gr_members demo_group. nd_service (gr_base demo_group i) = 0"
    using demo_services by (simp add: demo_group_def)
  have c: "cl_inflight waiting_client (rq_timestamp (rd_req demo_round)) = Some \<lparr>if_timestamp = rq_timestamp (rd_req demo_round),
      if_seen_replicas = {}, if_result_counts = []\<rparr>"
    "rq_client_id (rd_req demo_round) = cl_id waiting_client" "cl_f waiting_client = of_nat (rd_f demo_round)"
    by code_simp+
  note here = call_completes [OF demo_group_ok _ services c]
  have members: "gr_members demo_group = set [0, 1, 2]" "gr_base demo_group = demo_member"
    "length demo_deliveries = 12" "card (set [0 :: u32, 1, 2]) = 3"
    by (simp_all add: demo_group_def demo_deliveries_def Let_def)
  have "\<not> deliverable demo_round demo_group demo_deliveries demo_result x" for x
  proof
    assume "deliverable demo_round demo_group demo_deliveries demo_result x"
    from here [OF serves.deliver [OF demo_serves this]] show False by (simp add: members)
  qed
  with here [OF demo_serves] have all: "\<forall>i \<in> set [0, 1, 2]. round_done demo_env demo_round (demo_member i) (demo_result i)"
    and any: "\<And>rs. distinct rs \<Longrightarrow> set rs \<subseteq> set [0, 1, 2] \<Longrightarrow> length rs = rd_f demo_round + 1 \<Longrightarrow>
      (rq_timestamp (rd_req demo_round), snd (svc_execute (env_service demo_env) 0 (rq_operation (rd_req demo_round))))
        \<in> set (cl_done (fold on_reply (map (\<lambda>i. rd_reply demo_env demo_round (demo_member i)) rs) waiting_client))"
    unfolding members by blast+
  from all any [of "[2, 0]"] show ?thesis
    by (simp add: demo_primary demo_request_def demo_env_def counter_service_def RequestMsg_ctor_def)
qed

end
